(* ===== verification/Prelude.thy ===== *)
theory Prelude
  imports Main "HOL-Library.Word" "HOL-Library.List_Lexorder" "HOL-Library.Monad_Syntax"
    "HOL-Library.Code_Target_Nat"
begin

text \<open>
  Shared vocabulary of the development: byte strings, the error codes of
  src/shared/proto/error.proto (one datatype for each of its namespaces), 64-bit unsigned
  arithmetic on naturals with its wrap-around, the outcome of code that can abort, and the
  generic facts on lists and options that the components share.

  A byte is an \<^typ>\<open>8 word\<close>, and both \<^verbatim>\<open>std::string\<close> and \<^verbatim>\<open>std::array\<close> of bytes are lists of
  bytes; their \<^verbatim>\<open><\<close> is the lexicographic order of HOL-Library.List_Lexorder.  A \<^verbatim>\<open>uint64_t\<close> is a
  natural number on which the operations below wrap at \<^term>\<open>2 ^ 64\<close>.  A failed CHECK and undefined
  behaviour of the C++ code (an access outside a container) are \<^term>\<open>None\<close>.
\<close>

named_theorems u64_simps \<open>64-bit arithmetic that does not wrap\<close>
named_theorems inv_intros \<open>preservation of component invariants\<close>

type_synonym byte = "8 word"
type_synonym bytes = "8 word list"

subsection \<open>Error codes\<close>

datatype peers_error =
    Peers_SendBeforeConnect | Peers_RecvBeforeConnect | Peers_NewKey | Peers_NewKeyGenerate
  | Peers_NewKeyPublic | Peers_SendConnect | Peers_ReInit | Peers_NoInit | Peers_HandshakeState
  | Peers_CopyDHState | Peers_SetRemotePublicKey | Peers_HandshakeStart
  | Peers_ConnectWriteHandshake | Peers_ConnectSerializeHandshake | Peers_AcceptParseHandshake
  | Peers_AcceptReadHandshake | Peers_AcceptWriteHandshake | Peers_AcceptSerializeHandshake
  | Peers_AcceptIDMismatch | Peers_AcceptSplit | Peers_InvalidID | Peers_DataNotConnected
  | Peers_FinishParseHandshake | Peers_FinishReadHandshake | Peers_FinishSplit | Peers_Encrypt
  | Peers_Decrypt | Peers_EncryptSerialize | Peers_DecryptParse | Peers_FinishIDMismatch
  | Peers_SynAckNotConnecting | Peers_InvalidMsg | Peers_ResetMissingPeer
  | Peers_AttestationKeyChanged

datatype raft_error =
    Raft_LogOutOfSpace | Raft_LogEntryTooLarge | Raft_AllEntriesBeforeLastAppliedTruncated
  | Raft_AppendEntryNotLeader | Raft_CancelingBeforeFirst | Raft_AppendWithoutTerm
  | Raft_MembershipAlreadyChanging | Raft_NoHashChainInAppend | Raft_FollowerNotFound
  | Raft_SetNextOnNonemptyLog | Raft_MsgNotPeer | Raft_MsgWrongGroup | Raft_MsgInvalidType
  | Raft_MsgHashMismatch | Raft_MsgTruncated | Raft_MsgInFuture | Raft_MsgTermPromised
  | Raft_MsgAppendEntryIndex | Raft_MsgLogIndexOrdering

datatype db2_error =
    DB2_ClientRequestCase | DB2_ClientPinSize | DB2_ClientTriesTooHigh | DB2_ClientTriesZero
  | DB2_ClientDataSize | DB2_ClientBackupIDSize | DB2_ReplicationInvalidRow
  | DB2_ReplicationOutOfOrder | DB2_BackupIDSize | DB2_LoadedRowsAlreadyInDB
  | DB2_InvalidRequestType | DB2_ClientTokenSize

datatype membership_error =
    Membership_TooManyMembershipChanges | Membership_NoMembershipChanges
  | Membership_LeaderRemovedFromVoting | Membership_LeaderRemovedFromAll
  | Membership_VotingNotSubset | Membership_EmptySet | Membership_DuplicateReplicaInReplicaGroup
  | Membership_SuperMajorityLost

datatype util_error =
    Util_ArrayCopyTooBig | Util_HexCharInvalid | Util_HexBytesSize | Util_Base64InvalidChar
  | Util_Base64InvalidPadding

datatype db3_error =
    DB3_ScalarMultFailure | DB3_BackupIDSize | DB3_MaxTriesOutOfRange | DB3_BlindedElementSize
  | DB3_ToplevelRequestType | DB3_RequestInvalid | DB3_LogPrivateKeyInvalid
  | DB3_ReplicationInvalidRow | DB3_LoadedRowsAlreadyInDB | DB3_ReplicationOutOfOrder

datatype merkle_error =
    Merkle_VerifyLeaf | Merkle_VerifyNode

datatype minimums_error =
    Minimums_KeyMissing | Minimums_LimitDecreased | Minimums_SizeMismatch | Minimums_EntryEmpty
  | Minimums_KeyEmpty | Minimums_ValueTooLow | Minimums_ValueSize | Minimums_ValueEmpty

datatype core_error =
    Core_ConfigProtobufParse | Core_ReInit | Core_SendSerialize | Core_ReceiveProtobufParse | Core_NoInit
  | Core_ClientNotFound | Core_InitClientDHState | Core_SerializeClientLog | Core_RaftState
  | Core_E2EResponseWithoutCallback | Core_ReceivedEmptyReplicaGroup | Core_VotingRequestedForNonMember
  | Core_VotingRequestedForVotingMember | Core_LeaderUnknown | Core_E2ETransactionTimeout
  | Core_NotEnoughVotingReplicas | Core_HostToEnclaveTransactionID | Core_JoinRaftWriteNotCommitted
  | Core_LogTransactionCancelled | Core_RemovedFromRaft | Core_TransactionPostconditionsInvalid
  | Core_InvalidLogLevel | Core_RefreshClientAttestationWithoutRaftConfig | Core_BackupIDSecretMismatch
  | Core_ClientSetBackupID | Core_DuplicateMembershipPeer | Core_LeaderRemovingSelf
  | Core_RemoveNonexistentMember | Core_ReplicatedLogSerialization | Core_ReplicationOutOfOrder
  | Core_LogNotFoundAtCommitIndex | Core_DBRRMissing | Core_DeserializeHostDatabaseRequest
  | Core_InvalidLogTransactionHashChain | Core_IncorrectE2EResponseType | Core_GroupConfigMismath
  | Core_RaftGroupConfigMinReplicasGreaterThanMaxReplicas | Core_RaftGroupConfigMinReplicasTooSmall
  | Core_DBVersionInvalid | Core_RaftGroupConfigAttestationTimeoutTooSmall | Core_SerializeRaftWrite
  | Core_DeserializeRaftWrite | Core_E2ETransactionReset

datatype env_error =
    Env_SerializeCustomClaims | Env_GetEvidence | Env_SendMessage | Env_RandomBytes | Env_AttestationFailure
  | Env_Zero | Env_WrongMRENCLAVE | Env_CustomClaimsMissing | Env_CustomClaimsDeserialize
  | Env_AttestationPubkeyMissing | Env_AttestationPubkeyInvalidSize | Env_MissingMRENCLAVE
  | Env_SerializeConfigForEvidence | Env_MallinfoFailure | Env_SerializeMinimumsForEvidence
  | Env_ParseEvidence | Env_ParseEndorsements

datatype client_error =
    Client_HandshakeState | Client_CopyDHState | Client_HandshakeStart | Client_ExtractPublicKey
  | Client_DecryptState | Client_EncryptState | Client_FinishReadHandshake | Client_FinishWriteHandshake
  | Client_FinishSplit | Client_DecryptParse | Client_EncryptSerialize | Client_TransactionCancelled
  | Client_TransactionInvalid | Client_AlreadyClosed

datatype config_error =
    Config_ElectionTicks | Config_HeartbeatVsElectionTicks | Config_ReplicationChunk | Config_ReplicaTimeout
  | Config_E2ETransactionTimeout | Config_ChangeSimulate | Config_BackupIDInvalid | Config_LogMaxBytes
  | Config_ReplicationPipeline

datatype replicate_error =
    Replicate_RaftState | Replicate_GroupMismatch | Replicate_LogIndexMismatch
  | Replicate_MissingCommittedMembership | Replicate_ReplicationID | Replicate_ReplicationSequence

datatype socket_error =
    Socket_ReadEOF | Socket_Read | Socket_Write | Socket_ParseIncoming | Socket_WriteTooBig
  | Socket_ReadTooBig | Socket_WriteNotInitialized

datatype error =
    OK | General_Unimplemented
  | E_Peers peers_error | E_Raft raft_error | E_DB2 db2_error | E_Membership membership_error
  | E_Util util_error | E_DB3 db3_error | E_Merkle merkle_error | E_Minimums minimums_error
  | E_Core core_error | E_Env env_error | E_Client client_error | E_Config config_error
  | E_Replicate replicate_error | E_Socket socket_error

subsection \<open>64-bit unsigned arithmetic\<close>

definition u64_add :: "nat \<Rightarrow> nat \<Rightarrow> nat" where
  "u64_add a b = (a + b) mod 2 ^ 64"

definition u64_sub :: "nat \<Rightarrow> nat \<Rightarrow> nat" where
  "u64_sub a b = (a + 2 ^ 64 - b) mod 2 ^ 64"

lemma u64_add_exact [u64_simps]: "a + b < 2 ^ 64 \<Longrightarrow> u64_add a b = a + b"
  by (simp add: u64_add_def)

lemma u64_sub_exact [u64_simps]:
  assumes "b \<le> a" "a < 2 ^ 64"
  shows "u64_sub a b = a - b"
proof -
  have "a + 2 ^ 64 - b = (a - b) + 2 ^ 64" using assms by simp
  then show ?thesis using assms unfolding u64_sub_def by (simp only: mod_add_self2) simp
qed

lemma u64_add_less: "u64_add a b < 2 ^ 64"
  by (simp add: u64_add_def)

lemma u64_sub_less: "u64_sub a b < 2 ^ 64"
  by (simp add: u64_sub_def)

subsection \<open>Lists and options\<close>

lemma bind_eq_SomeD: "Option.bind m f = Some y \<Longrightarrow> \<exists>x. m = Some x \<and> f x = Some y"
  by (cases m) auto

lemma list_all_take: "list_all P xs \<Longrightarrow> list_all P (take n xs)"
  by (auto simp: list_all_iff dest: in_set_takeD)

lemma list_all_drop: "list_all P xs \<Longrightarrow> list_all P (drop n xs)"
  by (auto simp: list_all_iff dest: in_set_dropD)

lemma length_eq_Suc_last:
  "xs \<noteq> [] \<Longrightarrow> xs ! (length xs - 1) = last xs"
  by (simp add: last_conv_nth)

lemma nth_append_last [simp]: "(xs @ [x]) ! length xs = x"
  by simp

lemma drop_tl_nth: "Suc i < length xs \<Longrightarrow> tl xs ! i = xs ! Suc i"
  by (simp add: nth_tl)

text \<open>Serialisation that the matching parser undoes, the documented behaviour of protobuf messages.\<close>

definition faithful :: "('a \<Rightarrow> 'b option) \<Rightarrow> ('b \<Rightarrow> 'a option) \<Rightarrow> bool" where
  "faithful ser parse \<longleftrightarrow> (\<forall>x b. ser x = Some b \<longrightarrow> parse b = Some x)"

subsection \<open>Bytes as numbers\<close>

lemma ucast_byte_u32 [simp]: "(ucast (ucast (b :: byte) :: 32 word) :: byte) = b"
  by (rule bit_word_eqI) (simp add: bit_simps)

lemma unat_byte_less: "unat (b :: byte) < 256"
  using unsigned_less [of b, where 'a = nat] by simp

lemma unat_ucast_byte [simp]: "unat (ucast (b :: byte) :: 32 word) = unat b"
  using unat_byte_less [of b] by (simp add: unsigned_ucast_eq take_bit_nat_eq_self)

lemma byte_le_255 [simp]: "(ucast (b :: byte) :: 32 word) \<le> 255"
  using unat_byte_less [of b] by (simp add: word_le_nat_alt)

lemma byte_not_gt_255 [simp]: "\<not> 255 < (ucast (b :: byte) :: 32 word)"
  by (simp add: not_less)

lemma unat_of_nat_byte: "n < 256 \<Longrightarrow> unat (of_nat n :: byte) = n"
  by (simp add: unat_of_nat take_bit_nat_eq_self)

end
