(* ===== verification/Util.thy ===== *)
theory Util
  imports Prelude
begin

text \<open>
  The helpers of src/enclave/util: constant-time comparison (constant.h), big- and little-endian
  encodings (endian.h), array copies (bytes.h), hexadecimal (hex.cc) and base64 (base64.cc).
  Characters are bytes.  \<open>B64DecodeInline\<close> works in place as the source does: the string being read is
  the string being written, and \<^term>\<open>None\<close> is an access outside the decode table or a failed CHECK.
  The lemmas show that the comparison is equality, that the encodings round-trip, and that decoding
  in place equals decoding into a fresh string.
\<close>

unbundle bit_operations_syntax

subsection \<open>Constant-time comparison\<close>

fun ct_or :: "byte \<Rightarrow> bytes \<Rightarrow> bytes \<Rightarrow> nat \<Rightarrow> byte" where
  "ct_or out a b 0 = out"
| "ct_or out a b (Suc n) = ct_or (out OR (hd a XOR hd b)) (tl a) (tl b) n"

definition ConstantTimeEqualsBytes :: "bytes \<Rightarrow> bytes \<Rightarrow> nat \<Rightarrow> bool" where
  "ConstantTimeEqualsBytes a b n = (ct_or 0 a b n = 0)"

definition ConstantTimeEqualsPrefix :: "bytes \<Rightarrow> bytes \<Rightarrow> nat \<Rightarrow> bool" where
  "ConstantTimeEqualsPrefix a b prefix_size =
     (if length a < prefix_size \<or> length b < prefix_size then False
      else ConstantTimeEqualsBytes a b prefix_size)"

definition ConstantTimeEquals :: "bytes \<Rightarrow> bytes \<Rightarrow> bool" where
  "ConstantTimeEquals a b =
     (if length a \<noteq> length b then False else ConstantTimeEqualsPrefix a b (length a))"

subsection \<open>Endianness\<close>

definition BigEndian64FromBytes :: "bytes \<Rightarrow> 64 word" where
  "BigEndian64FromBytes b =
     push_bit (8*7) (ucast (b ! 0)) OR push_bit (8*6) (ucast (b ! 1)) OR
     push_bit (8*5) (ucast (b ! 2)) OR push_bit (8*4) (ucast (b ! 3)) OR
     push_bit (8*3) (ucast (b ! 4)) OR push_bit (8*2) (ucast (b ! 5)) OR
     push_bit (8*1) (ucast (b ! 6)) OR push_bit (8*0) (ucast (b ! 7))"

definition BigEndian32FromBytes :: "bytes \<Rightarrow> 32 word" where
  "BigEndian32FromBytes b =
     push_bit (8*3) (ucast (b ! 0)) OR push_bit (8*2) (ucast (b ! 1)) OR
     push_bit (8*1) (ucast (b ! 2)) OR push_bit (8*0) (ucast (b ! 3))"

definition BigEndian16FromBytes :: "bytes \<Rightarrow> 16 word" where
  "BigEndian16FromBytes b = push_bit (8*1) (ucast (b ! 0)) OR push_bit (8*0) (ucast (b ! 1))"

definition BigEndian64Bytes :: "64 word \<Rightarrow> bytes" where
  "BigEndian64Bytes v =
     [ucast (drop_bit (8*7) v), ucast (drop_bit (8*6) v), ucast (drop_bit (8*5) v),
      ucast (drop_bit (8*4) v), ucast (drop_bit (8*3) v), ucast (drop_bit (8*2) v),
      ucast (drop_bit (8*1) v), ucast (drop_bit (8*0) v)]"

definition BigEndian32Bytes :: "32 word \<Rightarrow> bytes" where
  "BigEndian32Bytes v =
     [ucast (drop_bit (8*3) v), ucast (drop_bit (8*2) v),
      ucast (drop_bit (8*1) v), ucast (drop_bit (8*0) v)]"

definition LittleEndian64Bytes :: "64 word \<Rightarrow> bytes" where
  "LittleEndian64Bytes v =
     [ucast (drop_bit (8*0) v), ucast (drop_bit (8*1) v), ucast (drop_bit (8*2) v),
      ucast (drop_bit (8*3) v), ucast (drop_bit (8*4) v), ucast (drop_bit (8*5) v),
      ucast (drop_bit (8*6) v), ucast (drop_bit (8*7) v)]"

subsection \<open>Arrays and strings\<close>

definition ByteArrayToString :: "nat \<Rightarrow> bytes \<Rightarrow> bytes" where
  "ByteArrayToString N arr = take N arr"

definition StringToByteArray :: "nat \<Rightarrow> bytes \<Rightarrow> bytes \<times> error" where
  "StringToByteArray N str =
     (if length str > N then (replicate N 0, E_Util Util_ArrayCopyTooBig)
      else (str @ replicate (N - length str) 0, OK))"

subsection \<open>Hexadecimal\<close>

definition HexCharToNibble :: "byte \<Rightarrow> byte" where
  "HexCharToNibble c =
     (if 48 \<le> c \<and> c \<le> 57 then c - 48
      else if 97 \<le> c \<and> c \<le> 102 then 10 + (c - 97)
      else if 65 \<le> c \<and> c \<le> 70 then 10 + (c - 65)
      else 255)"

definition nibbles :: bytes where
  "nibbles = [48, 49, 50, 51, 52, 53, 54, 55, 56, 57, 97, 98, 99, 100, 101, 102]"

fun BytesToHex :: "bytes \<Rightarrow> bytes" where
  "BytesToHex [] = []"
| "BytesToHex (x # xs) =
     nibbles ! unat (drop_bit 4 (x AND 0xf0)) # nibbles ! unat (x AND 0x0f) # BytesToHex xs"

fun hex_pairs :: "bytes \<Rightarrow> bytes \<Rightarrow> bytes \<times> error" where
  "hex_pairs out (a # b # xs) =
     (let n1 = HexCharToNibble a; n2 = HexCharToNibble b in
      if n1 = 0xFF \<or> n2 = 0xFF then (out, E_Util Util_HexCharInvalid)
      else hex_pairs (out @ [push_bit 4 n1 OR n2]) xs)"
| "hex_pairs out _ = (out, OK)"

definition HexToBytes :: "bytes \<Rightarrow> bytes \<times> error" where
  "HexToBytes s = (if length s mod 2 \<noteq> 0 then ([], E_Util Util_HexBytesSize) else hex_pairs [] s)"

definition PrefixToHex :: "bytes \<Rightarrow> nat \<Rightarrow> bytes" where
  "PrefixToHex s n = BytesToHex (take (min n (length s)) s)"

definition ToHex :: "bytes \<Rightarrow> bytes" where
  "ToHex s = PrefixToHex s (length s)"

subsection \<open>Base64\<close>

record b64_encoding =
  b64_decode :: "int list"
  b64_encode :: bytes

definition B64STD :: b64_encoding where
  "B64STD = \<lparr>b64_decode = [
     -1, -1, -1, -1, -1, -1, -1, -1, -1, -1, -1, -1, -1, -1, -1, -1,
     -1, -1, -1, -1, -1, -1, -1, -1, -1, -1, -1, -1, -1, -1, -1, -1,
     -1, -1, -1, -1, -1, -1, -1, -1, -1, -1, -1, 62, -1, -1, -1, 63,
     52, 53, 54, 55, 56, 57, 58, 59, 60, 61, -1, -1, -1, -1, -1, -1,
     -1, 0, 1, 2, 3, 4, 5, 6, 7, 8, 9, 10, 11, 12, 13, 14,
     15, 16, 17, 18, 19, 20, 21, 22, 23, 24, 25, -1, -1, -1, -1, -1,
     -1, 26, 27, 28, 29, 30, 31, 32, 33, 34, 35, 36, 37, 38, 39, 40,
     41, 42, 43, 44, 45, 46, 47, 48, 49, 50, 51, -1, -1, -1, -1, -1,
     -1, -1, -1, -1, -1, -1, -1, -1, -1, -1, -1, -1, -1, -1, -1, -1,
     -1, -1, -1, -1, -1, -1, -1, -1, -1, -1, -1, -1, -1, -1, -1, -1,
     -1, -1, -1, -1, -1, -1, -1, -1, -1, -1, -1, -1, -1, -1, -1, -1,
     -1, -1, -1, -1, -1, -1, -1, -1, -1, -1, -1, -1, -1, -1, -1, -1,
     -1, -1, -1, -1, -1, -1, -1, -1, -1, -1, -1, -1, -1, -1, -1, -1,
     -1, -1, -1, -1, -1, -1, -1, -1, -1, -1, -1, -1, -1, -1, -1, -1,
     -1, -1, -1, -1, -1, -1, -1, -1, -1, -1, -1, -1, -1, -1, -1, -1,
     -1, -1, -1, -1, -1, -1, -1, -1, -1, -1, -1, -1, -1, -1, -1, -1],
   b64_encode = [65, 66, 67, 68, 69, 70, 71, 72, 73, 74, 75, 76, 77, 78, 79, 80, 81, 82, 83, 84, 85, 86, 87, 88, 89, 90, 97, 98, 99, 100, 101, 102, 103, 104, 105, 106, 107, 108, 109, 110, 111, 112, 113, 114, 115, 116, 117, 118, 119, 120, 121, 122, 48, 49, 50, 51, 52, 53, 54, 55, 56, 57, 43, 47]\<rparr>"

definition B64URL :: b64_encoding where
  "B64URL = \<lparr>b64_decode = [
     -1, -1, -1, -1, -1, -1, -1, -1, -1, -1, -1, -1, -1, -1, -1, -1,
     -1, -1, -1, -1, -1, -1, -1, -1, -1, -1, -1, -1, -1, -1, -1, -1,
     -1, -1, -1, -1, -1, -1, -1, -1, -1, -1, -1, -1, -1, 62, -1, -1,
     52, 53, 54, 55, 56, 57, 58, 59, 60, 61, -1, -1, -1, -1, -1, -1,
     -1, 0, 1, 2, 3, 4, 5, 6, 7, 8, 9, 10, 11, 12, 13, 14,
     15, 16, 17, 18, 19, 20, 21, 22, 23, 24, 25, -1, -1, -1, -1, 63,
     -1, 26, 27, 28, 29, 30, 31, 32, 33, 34, 35, 36, 37, 38, 39, 40,
     41, 42, 43, 44, 45, 46, 47, 48, 49, 50, 51, -1, -1, -1, -1, -1,
     -1, -1, -1, -1, -1, -1, -1, -1, -1, -1, -1, -1, -1, -1, -1, -1,
     -1, -1, -1, -1, -1, -1, -1, -1, -1, -1, -1, -1, -1, -1, -1, -1,
     -1, -1, -1, -1, -1, -1, -1, -1, -1, -1, -1, -1, -1, -1, -1, -1,
     -1, -1, -1, -1, -1, -1, -1, -1, -1, -1, -1, -1, -1, -1, -1, -1,
     -1, -1, -1, -1, -1, -1, -1, -1, -1, -1, -1, -1, -1, -1, -1, -1,
     -1, -1, -1, -1, -1, -1, -1, -1, -1, -1, -1, -1, -1, -1, -1, -1,
     -1, -1, -1, -1, -1, -1, -1, -1, -1, -1, -1, -1, -1, -1, -1, -1,
     -1, -1, -1, -1, -1, -1, -1, -1, -1, -1, -1, -1, -1, -1, -1, -1],
   b64_encode = [65, 66, 67, 68, 69, 70, 71, 72, 73, 74, 75, 76, 77, 78, 79, 80, 81, 82, 83, 84, 85, 86, 87, 88, 89, 90, 97, 98, 99, 100, 101, 102, 103, 104, 105, 106, 107, 108, 109, 110, 111, 112, 113, 114, 115, 116, 117, 118, 119, 120, 121, 122, 48, 49, 50, 51, 52, 53, 54, 55, 56, 57, 45, 95]\<rparr>"

definition padding :: byte where
  "padding = 61"

function b64_decode_loop ::
  "b64_encoding \<Rightarrow> bytes \<Rightarrow> nat \<Rightarrow> nat \<Rightarrow> 16 word \<Rightarrow> nat \<Rightarrow> (error \<times> bytes) option" where
  "b64_decode_loop enc inout i j acc bits =
     (if length inout \<le> i then Some (OK, take j inout)
      else
        let next = inout ! i in
        if next = padding then
          (if list_all (\<lambda>c. c = padding) (drop (i + 1) inout) then Some (OK, take j inout)
           else Some (E_Util Util_Base64InvalidPadding, inout))
        else if 128 \<le> next then None
        else
          let c = b64_decode enc ! unat next in
          if c = -1 then Some (E_Util Util_Base64InvalidChar, inout)
          else
            let acc' = push_bit 6 acc OR of_int c; bits' = bits + 6 in
            if bits' \<ge> 8 then
              (if j \<le> i then
                 b64_decode_loop enc (inout[j := ucast (drop_bit (bits' - 8) acc')]) (i + 1) (j + 1)
                   acc' (bits' - 8)
               else None)
            else b64_decode_loop enc inout (i + 1) j acc' bits')"
  by pat_completeness auto
termination
  by (relation "measure (\<lambda>(enc, inout, i, j, acc, bits). length inout - i)") auto

declare b64_decode_loop.simps [simp del]

definition B64DecodeInline :: "b64_encoding \<Rightarrow> bytes \<Rightarrow> (error \<times> bytes) option" where
  "B64DecodeInline enc inout = b64_decode_loop enc inout 0 0 0 0"

fun b64_drain :: "b64_encoding \<Rightarrow> 16 word \<Rightarrow> nat \<Rightarrow> bytes \<times> nat" where
  "b64_drain enc work bits =
     (if bits \<ge> 6 then
        let bits' = bits - 6;
            offset = drop_bit bits' work AND 0x3f;
            (out, rest) = b64_drain enc work bits'
        in (b64_encode enc ! unat offset # out, rest)
      else ([], bits))"

declare b64_drain.simps [simp del]

fun b64_encode_loop :: "b64_encoding \<Rightarrow> bytes \<Rightarrow> 16 word \<Rightarrow> nat \<Rightarrow> bytes \<times> 16 word \<times> nat" where
  "b64_encode_loop enc [] work bits = ([], work, bits)"
| "b64_encode_loop enc (x # xs) work bits =
     (let work' = push_bit 8 work OR ucast x;
          (out, bits') = b64_drain enc work' (bits + 8);
          (outs, res) = b64_encode_loop enc xs work' bits'
      in (out @ outs, res))"

definition Base64Encode :: "b64_encoding \<Rightarrow> bool \<Rightarrow> bytes \<Rightarrow> bytes" where
  "Base64Encode enc pad s =
     (let (out, work, bits) = b64_encode_loop enc s 0 0 in
      if bits \<noteq> 0 then
        out @ [b64_encode enc ! unat (push_bit (6 - bits) work AND 0x3f)] @
        (if pad then (if bits = 2 then [padding, padding] else [padding]) else [])
      else out)"

subsection \<open>Comparison is equality\<close>

lemma length_BigEndian64Bytes [simp]: "length (BigEndian64Bytes v) = 8"
  by (simp add: BigEndian64Bytes_def)

lemma byte_or_xor_eq_0: "(out OR (x XOR y) = 0) = (out = 0 \<and> x = (y :: byte))"
proof
  assume *: "out OR (x XOR y) = 0"
  have "\<not> bit out n \<and> bit x n = bit y n" if "n < 8" for n
    using arg_cong [where f = "\<lambda>w. bit w n", OF *] that by (auto simp: bit_simps)
  then show "out = 0 \<and> x = y" by (auto intro: bit_word_eqI)
qed simp

lemma ct_or_eq_0:
  "length a \<ge> n \<Longrightarrow> length b \<ge> n \<Longrightarrow> (ct_or out a b n = 0) = (out = 0 \<and> take n a = take n b)"
proof (induction out a b n rule: ct_or.induct)
  case (2 out a b n)
  then show ?case by (cases a; cases b) (auto simp: byte_or_xor_eq_0)
qed simp

lemma ConstantTimeEqualsPrefix_iff:
  "ConstantTimeEqualsPrefix a b n = (n \<le> length a \<and> n \<le> length b \<and> take n a = take n b)"
  by (auto simp: ConstantTimeEqualsPrefix_def ConstantTimeEqualsBytes_def ct_or_eq_0)

lemma ConstantTimeEquals_eq [simp]: "ConstantTimeEquals a b = (a = b)"
  by (auto simp: ConstantTimeEquals_def ConstantTimeEqualsPrefix_iff)

subsection \<open>Endian round trips\<close>

lemma list8: "length b = 8 \<Longrightarrow> b = [b!0, b!1, b!2, b!3, b!4, b!5, b!6, b!7]"
  by (rule nth_equalityI) (auto simp: less_Suc_eq numeral_eq_Suc)

lemma bit_byte_high [simp]: "8 \<le> n \<Longrightarrow> \<not> bit (b :: byte) n"
  using bit_imp_le_length [of b n] by auto

lemma BigEndian64_decode_encode: "BigEndian64FromBytes (BigEndian64Bytes v) = v"
proof (rule bit_word_eqI)
  fix n assume "n < LENGTH(64)"
  then consider "n < 8" | "8 \<le> n \<and> n < 16" | "16 \<le> n \<and> n < 24" | "24 \<le> n \<and> n < 32"
    | "32 \<le> n \<and> n < 40" | "40 \<le> n \<and> n < 48" | "48 \<le> n \<and> n < 56" | "56 \<le> n \<and> n < 64"
    by fastforce
  then show "bit (BigEndian64FromBytes (BigEndian64Bytes v)) n = bit v n"
    unfolding BigEndian64FromBytes_def BigEndian64Bytes_def
    by cases (simp_all add: bit_simps less_diff_conv2)
qed

lemma BigEndian64_encode_decode:
  assumes "length b = 8"
  shows "BigEndian64Bytes (BigEndian64FromBytes b) = b"
proof -
  obtain b0 b1 b2 b3 b4 b5 b6 b7 where b: "b = [b0, b1, b2, b3, b4, b5, b6, b7]"
    using list8 [OF assms] by blast
  show ?thesis unfolding b BigEndian64FromBytes_def BigEndian64Bytes_def
    by (simp, intro conjI bit_word_eqI; simp add: bit_simps)
qed

subsection \<open>Hexadecimal round trip\<close>

lemma upt_16: "[0..<16] = [0, 1, 2, 3, 4, 5, 6, 7, 8, 9, 10, 11, 12, 13, 14, 15]"
  by (simp add: upt_conv_Cons)

lemma nibble_code: "n < 16 \<Longrightarrow> HexCharToNibble (nibbles ! n) = of_nat n \<and> of_nat n \<noteq> (0xFF :: byte)"
proof -
  have "list_all (\<lambda>n. HexCharToNibble (nibbles ! n) = of_nat n \<and> of_nat n \<noteq> (0xFF :: byte)) [0..<16]"
    by (simp only: upt_16 list.pred_inject) (simp add: HexCharToNibble_def nibbles_def)
  then show "n < 16 \<Longrightarrow> ?thesis" by (simp add: list_all_iff)
qed

lemma unat_and_mask4: "unat (x AND 0x0f :: byte) < 16"
proof -
  have "x AND 0x0f = take_bit 4 x" by (simp add: take_bit_eq_mask mask_eq_exp_minus_1)
  then show ?thesis using take_bit_nat_less_exp [of 4 "unat x"] by (simp add: unsigned_take_bit_eq)
qed

lemma unat_drop_mask4: "unat (drop_bit 4 (x AND 0xf0) :: byte) < 16"
  using unat_and_mask4 [of "drop_bit 4 x"] by simp

lemma nibbles_combine: "push_bit 4 (drop_bit 4 (x AND 0xf0)) OR (x AND 0x0f) = (x :: byte)"
proof -
  have m: "(0x0f :: byte) = mask 4" "(0xf0 :: byte) = push_bit 4 (mask 4)"
    by (simp_all add: mask_eq_exp_minus_1 push_bit_eq_mult)
  show ?thesis unfolding m by (rule bit_word_eqI) (auto simp: bit_simps)
qed

lemma nibble_word: "unat x < 16 \<Longrightarrow> HexCharToNibble (nibbles ! unat x) = x \<and> x \<noteq> (0xFF :: byte)"
  using nibble_code [of "unat x"] by simp

lemma hex_pairs_BytesToHex: "hex_pairs out (BytesToHex xs) = (out @ xs, OK)"
proof (induction xs arbitrary: out)
  case (Cons x xs)
  have "HexCharToNibble (nibbles ! unat (drop_bit 4 (x AND 0xf0))) = drop_bit 4 (x AND 0xf0)"
    "drop_bit 4 (x AND 0xf0) \<noteq> 0xFF"
    "HexCharToNibble (nibbles ! unat (x AND 0x0f)) = x AND 0x0f" "x AND 0x0f \<noteq> 0xFF"
    using nibble_word unat_drop_mask4 unat_and_mask4 by blast+
  then show ?case
    by (simp only: BytesToHex.simps hex_pairs.simps Let_def nibbles_combine Cons.IH if_False simp_thms)
      simp
qed simp

lemma length_BytesToHex [simp]: "length (BytesToHex xs) = 2 * length xs"
  by (induction xs) simp_all

lemma HexToBytes_BytesToHex: "HexToBytes (BytesToHex xs) = (xs, OK)"
  by (simp add: HexToBytes_def hex_pairs_BytesToHex)

lemma hex_pairs_length: "hex_pairs out s = (b, OK) \<Longrightarrow> even (length s) \<Longrightarrow> length b = length out + length s div 2"
  by (induction out s rule: hex_pairs.induct) (auto simp: Let_def split: if_splits)

subsection \<open>Base64 round trip\<close>

definition b64_valid :: "b64_encoding \<Rightarrow> bool" where
  "b64_valid enc = list_all (\<lambda>v. b64_encode enc ! v < 128 \<and> b64_encode enc ! v \<noteq> padding \<and>
     b64_decode enc ! unat (b64_encode enc ! v) = int v) [0..<64]"

fun b64_dec :: "b64_encoding \<Rightarrow> 16 word \<Rightarrow> nat \<Rightarrow> bytes \<Rightarrow> bytes option" where
  "b64_dec enc acc bits [] = Some []"
| "b64_dec enc acc bits (x # xs) =
     (if x = padding then (if list_all (\<lambda>c. c = padding) xs then Some [] else None)
      else if 128 \<le> x \<or> b64_decode enc ! unat x = -1 then None
      else
        let acc' = push_bit 6 acc OR of_int (b64_decode enc ! unat x) in
        if bits + 6 \<ge> 8
        then map_option ((#) (ucast (drop_bit (bits - 2) acc'))) (b64_dec enc acc' (bits - 2) xs)
        else b64_dec enc acc' (bits + 6) xs)"

lemma upt_64: "[0..<64] = [0, 1, 2, 3, 4, 5, 6, 7, 8, 9, 10, 11, 12, 13, 14, 15, 16, 17, 18, 19, 20, 21, 22, 23, 24, 25, 26, 27, 28, 29, 30, 31,
   32, 33, 34, 35, 36, 37, 38, 39, 40, 41, 42, 43, 44, 45, 46, 47, 48, 49, 50, 51, 52, 53, 54, 55, 56, 57, 58, 59, 60, 61, 62, 63]"
  by (simp add: upt_conv_Cons)

lemma b64_valid_STD: "b64_valid B64STD"
  by (simp only: b64_valid_def upt_64 list.pred_inject) (simp add: B64STD_def padding_def)

lemma b64_valid_URL: "b64_valid B64URL"
  by (simp only: b64_valid_def upt_64 list.pred_inject) (simp add: B64URL_def padding_def)

lemma b64_decode_loop_dec:
  "b64_dec enc acc bits (drop i inout) = Some out \<Longrightarrow> j \<le> i \<Longrightarrow>
   b64_decode_loop enc inout i j acc bits = Some (OK, take j inout @ out)"
proof (induction enc inout i j acc bits arbitrary: out rule: b64_decode_loop.induct)
  case (1 enc inout i j acc bits)
  show ?case
  proof (cases "i < length inout")
    case False
    then show ?thesis using 1 by (simp add: b64_decode_loop.simps)
  next
    case True
    define acc' where "acc' = push_bit 6 acc OR of_int (b64_decode enc ! unat (inout ! i))"
    have d: "drop i inout = inout ! i # drop (Suc i) inout"
      using True by (simp add: Cons_nth_drop_Suc)
    show ?thesis
    proof (cases "inout ! i = padding")
      case pad: True
      then show ?thesis using 1(3) True by (simp add: d b64_decode_loop.simps split: if_splits)
    next
      case False
      show ?thesis
      proof (cases "bits + 6 \<ge> 8")
        case big: True
        obtain out' where o: "b64_dec enc acc' (bits - 2) (drop (Suc i) inout) = Some out'"
            "out = ucast (drop_bit (bits - 2) acc') # out'"
          using 1(3) False big by (auto simp: d acc'_def Let_def split: if_splits)
        have "drop (i + 1) (inout[j := ucast (drop_bit (bits - 2) acc')]) = drop (Suc i) inout"
          using 1(4) by simp
        then have "b64_decode_loop enc (inout[j := ucast (drop_bit (bits + 6 - 8) acc')]) (i + 1) (j + 1)
                acc' (bits + 6 - 8)
              = Some (OK, take (j + 1) (inout[j := ucast (drop_bit (bits + 6 - 8) acc')]) @ out')"
          using 1(1) [of "inout ! i" "b64_decode enc ! unat (inout ! i)" acc' "bits + 6"] True False big 1(3,4) o
          by (auto simp: d acc'_def Let_def not_le split: if_splits)
        moreover have "take (Suc j) (inout[j := v]) = take j inout @ [v]" for v
          using True 1(4) by (simp add: take_Suc_conv_app_nth)
        ultimately show ?thesis using 1(3,4) True False big o
          by (subst b64_decode_loop.simps) (auto simp: d acc'_def Let_def split: if_splits)
      next
        case small: False
        then show ?thesis using 1(2) [of "inout ! i" "b64_decode enc ! unat (inout ! i)" acc' "bits + 6"] 1(3,4) True False
          by (subst b64_decode_loop.simps) (auto simp: d acc'_def Let_def not_le split: if_splits)
      qed
    qed
  qed
qed

lemma mask6: "(0x3f :: 16 word) = mask 6"
  by (simp add: mask_eq_exp_minus_1)

lemma unat_mask6: "unat (w AND 0x3f :: 16 word) < 64"
proof -
  have "w AND 0x3f = take_bit 6 w" by (simp add: mask6 take_bit_eq_mask)
  then show ?thesis using take_bit_nat_less_exp [of 6 "unat w"] by (simp add: unsigned_take_bit_eq)
qed

lemma b64_dec_char:
  assumes "b64_valid enc" and o: "off = w AND 0x3f"
  shows "b64_dec enc acc bits (b64_encode enc ! unat off # xs) =
     (let acc' = push_bit 6 acc OR off in
      if bits + 6 \<ge> 8
      then map_option ((#) (ucast (drop_bit (bits - 2) acc'))) (b64_dec enc acc' (bits - 2) xs)
      else b64_dec enc acc' (bits + 6) xs)"
proof -
  define v where "v = unat off"
  have "v < 64" using unat_mask6 [of w] o v_def by simp
  then have "b64_encode enc ! v < 128 \<and> b64_encode enc ! v \<noteq> padding \<and>
     b64_decode enc ! unat (b64_encode enc ! v) = int v"
    using assms(1) by (auto simp: b64_valid_def list_all_iff)
  moreover have "of_int (int v) = off" by (simp add: v_def)
  moreover have "\<not> 128 \<le> b64_encode enc ! v" using calculation by (simp add: not_le)
  ultimately show ?thesis unfolding v_def [symmetric] by (simp add: Let_def del: not_le)
qed


definition off6 :: "16 word \<Rightarrow> nat \<Rightarrow> 16 word" where
  "off6 w n = drop_bit n w AND 0x3f"

lemma b64_drain_8: "b64_drain enc w 8 = ([b64_encode enc ! unat (off6 w 2)], 2)"
  by (simp add: b64_drain.simps off6_def)

lemma b64_drain_10: "b64_drain enc w 10 = ([b64_encode enc ! unat (off6 w 4)], 4)"
  by (simp add: b64_drain.simps off6_def)

lemma b64_drain_12:
  "b64_drain enc w 12 = ([b64_encode enc ! unat (off6 w 6), b64_encode enc ! unat (off6 w 0)], 0)"
  by (simp add: b64_drain.simps [of enc w 12] b64_drain.simps [of enc w 6] b64_drain.simps [of enc w 0] off6_def)

lemmas b64_drains = b64_drain_8 b64_drain_10 b64_drain_12

lemma Suc_Suc_diff [simp]: "2 \<le> n \<Longrightarrow> Suc (Suc (n - 2)) = n"
  by simp

lemma b64_sextets_1:
  assumes "\<And>n. 8 \<le> n \<Longrightarrow> \<not> bit x n"
  shows "ucast (drop_bit 4 (push_bit 6 (push_bit 6 acc OR off6 (push_bit 8 w OR ucast a) 2) OR
     off6 (push_bit 8 (push_bit 8 w OR ucast a) OR x) 4)) = (a :: byte)"
  unfolding off6_def mask6
  by (rule bit_word_eqI) (auto simp: bit_simps assms)

lemma b64_sextets_2:
  assumes "\<And>n. 8 \<le> n \<Longrightarrow> \<not> bit x n"
  shows "ucast (drop_bit 2 (push_bit 6 (push_bit 6 acc OR off6 (push_bit 8 w OR ucast a) 4) OR
     off6 (push_bit 8 (push_bit 8 w OR ucast a) OR x) 6)) = (a :: byte)"
  unfolding off6_def mask6
  by (rule bit_word_eqI) (auto simp: bit_simps assms)

lemma b64_sextets_3:
  "ucast (push_bit 6 (push_bit 6 acc OR off6 (push_bit 8 w OR ucast a) 6) OR
     off6 (push_bit 8 w OR ucast a) 0) = (a :: byte)"
  unfolding off6_def mask6
  by (rule bit_word_eqI) (auto simp: bit_simps)

lemma b64_sextets_1_last:
  "ucast (drop_bit 4 (push_bit 6 (push_bit 6 acc OR off6 (push_bit 8 w OR ucast a) 2) OR
     off6 (push_bit 8 (push_bit 8 w OR ucast a)) 4)) = (a :: byte)"
  using b64_sextets_1 [of 0] by (simp only: or.right_neutral bit_0_eq bot_apply bot_bool_def) simp

lemma b64_sextets_2_last:
  "ucast (drop_bit 2 (push_bit 6 (push_bit 6 acc OR off6 (push_bit 8 w OR ucast a) 4) OR
     off6 (push_bit 8 (push_bit 8 w OR ucast a)) 6)) = (a :: byte)"
  using b64_sextets_2 [of 0] by (simp only: or.right_neutral bit_0_eq bot_apply bot_bool_def) simp

lemma b64_last_2:
  "push_bit 4 w AND 0x3f = off6 (push_bit 8 w) 4"
  unfolding off6_def mask6 by (rule bit_word_eqI) (auto simp: bit_simps)

lemma b64_last_4:
  "push_bit 2 w AND 0x3f = off6 (push_bit 8 w) 6"
  unfolding off6_def mask6 by (rule bit_word_eqI) (auto simp: bit_simps)

lemmas b64_sextets = b64_sextets_1 b64_sextets_2 b64_sextets_3 b64_sextets_1_last b64_sextets_2_last
  b64_last_2 b64_last_4

lemma b64_dec_off6:
  assumes "b64_valid enc"
  shows "b64_dec enc acc bits (b64_encode enc ! unat (off6 w k) # xs) =
     (let acc' = push_bit 6 acc OR off6 w k in
      if bits + 6 \<ge> 8
      then map_option ((#) (ucast (drop_bit (bits - 2) acc'))) (b64_dec enc acc' (bits - 2) xs)
      else b64_dec enc acc' (bits + 6) xs)"
  by (rule b64_dec_char [OF assms off6_def])

lemma b64_dec_pad:
  "list_all (\<lambda>c. c = padding) xs \<Longrightarrow> b64_dec enc acc bits xs = Some []"
  by (cases xs) auto

definition b64_tail :: "b64_encoding \<Rightarrow> bool \<Rightarrow> bytes \<times> 16 word \<times> nat \<Rightarrow> bytes" where
  "b64_tail enc pad = (\<lambda>(out, work, bits).
      if bits \<noteq> 0 then
        out @ [b64_encode enc ! unat (push_bit (6 - bits) work AND 0x3f)] @
        (if pad then (if bits = 2 then [padding, padding] else [padding]) else [])
      else out)"

lemma b64_tail_append:
  "b64_tail enc pad (xs @ ys, r) = xs @ b64_tail enc pad (ys, r)"
  by (cases r) (simp add: b64_tail_def)

lemma bit_ucast_byte_16: "8 \<le> n \<Longrightarrow> \<not> bit (ucast (b :: byte) :: 16 word) n"
  by (simp add: bit_simps)

lemma b64_encode_loop_3:
  "b64_encode_loop enc (a # b # c # xs) w 0 =
     (let w1 = push_bit 8 w OR ucast a; w2 = push_bit 8 w1 OR ucast b; w3 = push_bit 8 w2 OR ucast c;
          (outs, r) = b64_encode_loop enc xs w3 0
      in ([b64_encode enc ! unat (off6 w1 2), b64_encode enc ! unat (off6 w2 4),
           b64_encode enc ! unat (off6 w3 6), b64_encode enc ! unat (off6 w3 0)] @ outs, r))"
  by (simp add: Let_def b64_drains split: prod.splits)

lemma b64_dec_encode:
  assumes v: "b64_valid enc"
  shows "b64_dec enc acc 0 (b64_tail enc pad (b64_encode_loop enc xs w 0)) = Some xs"
proof (induction xs arbitrary: acc w rule: measure_induct_rule [of length])
  case (less xs)
  consider "xs = []" | a where "xs = [a]" | a b where "xs = [a, b]"
    | a b c ys where "xs = a # b # c # ys" by (metis list.exhaust)
  then show ?case
  proof cases
    case 2
    then show ?thesis
      by (simp add: b64_tail_def Let_def b64_drains b64_dec_off6 [OF v] b64_sextets bit_ucast_byte_16 b64_dec_pad del: b64_dec.simps push_bit_or drop_bit_or unsigned_or_eq)
  next
    case 3
    then show ?thesis
      by (simp add: b64_tail_def Let_def b64_drains b64_dec_off6 [OF v] b64_sextets bit_ucast_byte_16 b64_dec_pad del: b64_dec.simps push_bit_or drop_bit_or unsigned_or_eq)
  next
    case 4
    obtain outs r where "b64_encode_loop enc ys
        (push_bit 8 (push_bit 8 (push_bit 8 w OR ucast a) OR ucast b) OR ucast c) 0 = (outs, r)"
      by (rule prod.exhaust)
    moreover from less [of ys] this 4 have "b64_dec enc acc' 0 (b64_tail enc pad (outs, r)) = Some ys" for acc'
      by (metis (no_types, lifting) length_Cons less_Suc_eq less_trans)
    ultimately show ?thesis using 4
      by (simp add: b64_encode_loop_3 b64_tail_append [of _ _ "[_, _, _, _]", simplified] Let_def
          b64_dec_off6 [OF v] b64_sextets bit_ucast_byte_16 del: b64_encode_loop.simps b64_dec.simps push_bit_or drop_bit_or unsigned_or_eq)
  qed (simp add: b64_tail_def)
qed

lemma Base64Encode_tail: "Base64Encode enc pad s = b64_tail enc pad (b64_encode_loop enc s 0 0)"
  by (simp add: Base64Encode_def b64_tail_def split: prod.splits)

lemma B64Decode_Base64Encode:
  "b64_valid enc \<Longrightarrow> B64DecodeInline enc (Base64Encode enc pad s) = Some (OK, s)"
  using b64_decode_loop_dec [of enc 0 0 0 "Base64Encode enc pad s" s 0]
  by (simp add: B64DecodeInline_def Base64Encode_tail b64_dec_encode)

subsection \<open>Properties\<close>

text \<open>The constant-time comparison accumulates differences over every byte and its answer is
  exactly equality of the two strings, and the prefix variant is equality of prefixes that both
  strings have.\<close>

lemma constant_time_equality:
  "ConstantTimeEquals a b = (a = b) \<and>
   ConstantTimeEqualsPrefix a b n = (n \<le> length a \<and> n \<le> length b \<and> take n a = take n b)"
  by (simp add: ConstantTimeEqualsPrefix_iff)

text \<open>The big-endian encoding that enters the Raft hash chain loses nothing: decoding an encoded
  64-bit value gives it back, and every 8-byte string is the encoding of its value.\<close>

lemma big_endian_round_trip:
  "BigEndian64FromBytes (BigEndian64Bytes v) = v \<and>
   (length b = 8 \<longrightarrow> BigEndian64Bytes (BigEndian64FromBytes b) = b)"
  by (simp add: BigEndian64_decode_encode BigEndian64_encode_decode)

lemma big_endian_round_trip_witness:
  "length [1, 2, 3, 4, 5, 6, 7, 255 :: byte] = 8 \<and>
   BigEndian64Bytes (BigEndian64FromBytes [1, 2, 3, 4, 5, 6, 7, 255]) = [1, 2, 3, 4, 5, 6, 7, 255]"
  using big_endian_round_trip [of 0 "[1, 2, 3, 4, 5, 6, 7, 255]"] by simp

text \<open>Hexadecimal text written by BytesToHex is read back by HexToBytes as the original bytes,
  without error.\<close>

lemma hex_round_trip: "HexToBytes (BytesToHex xs) = (xs, OK)"
  by (rule HexToBytes_BytesToHex)

text \<open>C34: base64 text written with either alphabet, padded or not, is decoded in place to the original
  bytes: no read leaves the decode table, the CHECK on the write position holds, and the bytes that
  the in-place writes overwrite are never read again.\<close>

theorem base64_round_trip:
  "B64DecodeInline B64STD (Base64Encode B64STD pad s) = Some (OK, s) \<and>
   B64DecodeInline B64URL (Base64Encode B64URL pad s) = Some (OK, s)"
  by (simp add: B64Decode_Base64Encode b64_valid_STD b64_valid_URL)



end
