(* ===== verification/PeerID.thy ===== *)
theory PeerID
  imports Util
begin

text \<open>
  src/enclave/peerid: a peer is named by its 32-byte public key.  Peers are compared and ordered as
  byte arrays.
\<close>

type_synonym peer_id = bytes

definition zero_id :: peer_id where
  "zero_id = replicate 32 0"

definition PeerID_FromString :: "bytes \<Rightarrow> error + peer_id" where
  "PeerID_FromString s = (if length s \<noteq> 32 then Inl (E_Peers Peers_InvalidID) else Inr s)"

definition PeerID_Valid :: "peer_id \<Rightarrow> bool" where
  "PeerID_Valid p = (p \<noteq> zero_id)"

definition PeerID_ToString :: "peer_id \<Rightarrow> bytes" where
  "PeerID_ToString p = ByteArrayToString 32 p"

definition PeerID_DebugString :: "peer_id \<Rightarrow> bytes" where
  "PeerID_DebugString p = PrefixToHex p 4"

lemma PeerID_FromString_Inr: "PeerID_FromString s = Inr p \<longleftrightarrow> p = s \<and> length s = 32"
  by (auto simp: PeerID_FromString_def)

lemma PeerID_FromString_ToString:
  "length p = 32 \<Longrightarrow> PeerID_FromString (PeerID_ToString p) = Inr p"
  by (simp add: PeerID_FromString_def PeerID_ToString_def ByteArrayToString_def)

end
