(* ===== verification/OrdMap.thy ===== *)
theory OrdMap
  imports Prelude
begin

text \<open>
  \<^verbatim>\<open>std::map\<close> and \<^verbatim>\<open>std::set\<close> as lists in strictly ascending key order: the order is what the code
  observes when it iterates.  \<open>map_of\<close> is \<^verbatim>\<open>find\<close>, \<open>om_put\<close> is \<^verbatim>\<open>insert_or_assign\<close> (and the assignment
  \<^verbatim>\<open>m[k] = v\<close>), \<open>om_del\<close> is \<^verbatim>\<open>erase\<close>, \<open>upper_bound\<close> and \<open>lower_bound\<close> are the suffixes from which the
  iterators of that name start.  The locale \<open>ordered_map\<close> is the contract the components rely on.
\<close>

type_synonym ('k, 'v) omap = "('k \<times> 'v) list"

fun om_put :: "'k::linorder \<Rightarrow> 'v \<Rightarrow> ('k, 'v) omap \<Rightarrow> ('k, 'v) omap" where
  "om_put k v [] = [(k, v)]"
| "om_put k v ((a, b) # xs) =
     (if k < a then (k, v) # (a, b) # xs
      else if k = a then (k, v) # xs
      else (a, b) # om_put k v xs)"

fun om_del :: "'k::linorder \<Rightarrow> ('k, 'v) omap \<Rightarrow> ('k, 'v) omap" where
  "om_del k [] = []"
| "om_del k ((a, b) # xs) = (if k = a then xs else (a, b) # om_del k xs)"

definition om_keys :: "('k, 'v) omap \<Rightarrow> 'k list" where
  "om_keys m = map fst m"

definition om_inv :: "('k::linorder, 'v) omap \<Rightarrow> bool" where
  "om_inv m = sorted_wrt (<) (map fst m)"

definition om_upper_bound :: "'k::linorder \<Rightarrow> ('k, 'v) omap \<Rightarrow> ('k, 'v) omap" where
  "om_upper_bound k m = dropWhile (\<lambda>p. fst p \<le> k) m"

definition om_lower_bound :: "'k::linorder \<Rightarrow> ('k, 'v) omap \<Rightarrow> ('k, 'v) omap" where
  "om_lower_bound k m = dropWhile (\<lambda>p. fst p < k) m"

fun os_insert :: "'k::linorder \<Rightarrow> 'k list \<Rightarrow> 'k list" where
  "os_insert k [] = [k]"
| "os_insert k (a # xs) = (if k < a then k # a # xs else if k = a then a # xs else a # os_insert k xs)"

definition os_inv :: "'k::linorder list \<Rightarrow> bool" where
  "os_inv s = sorted_wrt (<) s"

subsection \<open>Sets\<close>

lemma set_os_insert [simp]: "set (os_insert k s) = insert k (set s)"
  by (induction k s rule: os_insert.induct) auto

lemma os_inv_insert [inv_intros]: "os_inv s \<Longrightarrow> os_inv (os_insert k s)"
  by (induction k s rule: os_insert.induct) (auto simp: os_inv_def)

lemma os_inv_Nil [simp]: "os_inv []"
  by (simp add: os_inv_def)

lemma os_inv_distinct: "os_inv s \<Longrightarrow> distinct s"
  by (simp add: os_inv_def strict_sorted_iff)

lemma os_inv_card: "os_inv s \<Longrightarrow> card (set s) = length s"
  by (simp add: distinct_card os_inv_distinct)

lemma os_inv_eqI: "os_inv s \<Longrightarrow> os_inv t \<Longrightarrow> set s = set t \<Longrightarrow> s = t"
  by (simp add: os_inv_def strict_sorted_equal)

subsection \<open>Maps\<close>

lemma om_inv_Nil [simp]: "om_inv []"
  by (simp add: om_inv_def)

lemma om_inv_Cons: "om_inv ((a, b) # xs) \<longleftrightarrow> (\<forall>k \<in> fst ` set xs. a < k) \<and> om_inv xs"
  by (simp add: om_inv_def)

lemma fst_om_put: "fst ` set (om_put k v m) = insert k (fst ` set m)"
  by (induction k v m rule: om_put.induct) auto

lemma fst_om_del: "fst ` set (om_del k m) \<subseteq> fst ` set m"
  by (induction k m rule: om_del.induct) auto

lemma set_om_del: "set (om_del k m) \<subseteq> set m"
  by (induction k m rule: om_del.induct) auto

lemma om_inv_put [inv_intros]: "om_inv m \<Longrightarrow> om_inv (om_put k v m)"
  by (induction k v m rule: om_put.induct) (auto simp: om_inv_Cons fst_om_put)

lemma om_inv_del [inv_intros]: "om_inv m \<Longrightarrow> om_inv (om_del k m)"
proof (induction k m rule: om_del.induct)
  case (2 k a b xs)
  then show ?case using set_om_del [of k xs] by (auto simp: om_inv_Cons)
qed simp

lemma map_of_om_put: "om_inv m \<Longrightarrow> map_of (om_put k v m) = (map_of m)(k \<mapsto> v)"
  by (induction k v m rule: om_put.induct) (auto simp: om_inv_Cons fun_eq_iff)

lemma map_of_om_del: "om_inv m \<Longrightarrow> map_of (om_del k m) = (map_of m)(k := None)"
proof (induction k m rule: om_del.induct)
  case (2 k a b xs)
  then have "a \<notin> fst ` set xs" by (auto simp: om_inv_Cons)
  then have "map_of xs a = None" by (simp add: map_of_eq_None_iff)
  with 2 show ?case by (auto simp: om_inv_Cons fun_eq_iff)
qed (simp add: fun_eq_iff)

lemma om_inv_distinct: "om_inv m \<Longrightarrow> distinct (map fst m)"
  by (simp add: om_inv_def strict_sorted_iff)

lemma om_eqI:
  assumes "om_inv m" "om_inv n" "map_of m = map_of n"
  shows "m = n"
proof -
  have d: "distinct (map fst m)" "distinct (map fst n)" using assms om_inv_distinct by auto
  then have "set m = set n" using assms(3) map_of_inject_set by blast
  moreover have "sorted (map fst m)" "sorted (map fst n)"
    using assms by (simp_all add: om_inv_def strict_sorted_iff)
  ultimately show ?thesis using d
    by (metis map_sorted_distinct_set_unique distinct_map inj_on_Un sup.idem)
qed

lemma om_upper_bound_filter:
  "om_inv m \<Longrightarrow> om_upper_bound k m = filter (\<lambda>p. k < fst p) m"
proof (induction m)
  case (Cons p m)
  show ?case
  proof (cases "fst p \<le> k")
    case True
    with Cons show ?thesis by (cases p) (auto simp: om_upper_bound_def om_inv_Cons)
  next
    case False
    then have "\<forall>q \<in> set m. k < fst q"
      using Cons.prems by (cases p) (force simp: om_inv_Cons)
    with False show ?thesis by (simp add: om_upper_bound_def not_le)
  qed
qed (simp add: om_upper_bound_def)

subsection \<open>The contract\<close>

locale ordered_map =
  fixes lookup :: "'m \<Rightarrow> 'k \<Rightarrow> 'v option"
    and put :: "'k \<Rightarrow> 'v \<Rightarrow> 'm \<Rightarrow> 'm"
    and del :: "'k \<Rightarrow> 'm \<Rightarrow> 'm"
    and inv :: "'m \<Rightarrow> bool"
  assumes inv_put: "inv m \<Longrightarrow> inv (put k v m)"
    and inv_del: "inv m \<Longrightarrow> inv (del k m)"
    and lookup_put: "inv m \<Longrightarrow> lookup (put k v m) = (lookup m)(k \<mapsto> v)"
    and lookup_del: "inv m \<Longrightarrow> lookup (del k m) = (lookup m)(k := None)"
    and extensional: "inv m \<Longrightarrow> inv n \<Longrightarrow> lookup m = lookup n \<Longrightarrow> m = n"
begin

lemma lookup_put_same: "inv m \<Longrightarrow> lookup (put k v m) k = Some v"
  by (simp add: lookup_put)

lemma lookup_put_other: "inv m \<Longrightarrow> k \<noteq> j \<Longrightarrow> lookup (put k v m) j = lookup m j"
  by (simp add: lookup_put)

lemma lookup_del_same: "inv m \<Longrightarrow> lookup (del k m) k = None"
  by (simp add: lookup_del)

lemma lookup_del_other: "inv m \<Longrightarrow> k \<noteq> j \<Longrightarrow> lookup (del k m) j = lookup m j"
  by (simp add: lookup_del)

lemma put_put_same: "inv m \<Longrightarrow> put k v (put k w m) = put k v m"
  by (rule extensional) (simp_all add: inv_put lookup_put)

lemma put_put_commute: "inv m \<Longrightarrow> j \<noteq> k \<Longrightarrow> put j v (put k w m) = put k w (put j v m)"
  by (rule extensional) (simp_all add: inv_put lookup_put fun_upd_twist)

lemma del_put_same: "inv m \<Longrightarrow> lookup m k = None \<Longrightarrow> del k (put k v m) = m"
  by (rule extensional) (auto simp: inv_put inv_del lookup_put lookup_del fun_upd_idem)

lemma put_lookup_idem: "inv m \<Longrightarrow> lookup m k = Some v \<Longrightarrow> put k v m = m"
  by (rule extensional) (auto simp: inv_put lookup_put)

end

interpretation om: ordered_map map_of om_put om_del om_inv
  by unfold_locales (auto simp: inv_intros map_of_om_put map_of_om_del intro: om_eqI)

lemma length_om_del: "k \<in> fst ` set m \<Longrightarrow> Suc (length (om_del k m)) = length m"
  by (induction k m rule: om_del.induct) auto

lemma om_put_snd: "p \<in> set (om_put k v m) \<Longrightarrow> p = (k, v) \<or> p \<in> set m"
  by (induction k v m rule: om_put.induct) (auto split: if_splits)

lemma om_put_all:
  assumes "\<forall>v \<in> snd ` set m. P v" "P v"
  shows "\<forall>v \<in> snd ` set (om_put k v m). P v"
proof
  fix w assume "w \<in> snd ` set (om_put k v m)"
  then obtain a where "(a, w) \<in> set (om_put k v m)" by auto
  then show "P w" using om_put_snd [of "(a, w)" k v m] assms by auto
qed

lemma om_put_last: "om_inv m \<Longrightarrow> (m \<noteq> [] \<Longrightarrow> fst (last m) < k) \<Longrightarrow> om_put k v m = m @ [(k, v)]"
proof (induction k v m rule: om_put.induct)
  case (2 k v a b xs)
  have "a < k"
  proof (cases "xs = []")
    case False
    then have "a < fst (last xs)" using 2(2) last_in_set [OF False] by (force simp: om_inv_Cons)
    then show ?thesis using 2(3) False by simp
  qed (use 2(3) in simp)
  then show ?case using 2 by (auto simp: om_inv_Cons split: if_splits)
qed simp

lemma sorted_prefix:
  assumes "om_inv (a @ b)" "b \<noteq> []"
  shows "filter (\<lambda>(k, v). k \<le> fst (last b)) (a @ b @ c) = a @ b @ filter (\<lambda>(k, v). k \<le> fst (last b)) c"
proof -
  have "\<forall>x \<in> set a. fst x \<le> fst (last b)"
    using assms last_in_set [OF assms(2)] by (auto simp: om_inv_def sorted_wrt_append intro!: less_imp_le)
  moreover have "fst x \<le> fst (last b)" if "x \<in> set b" for x
  proof -
    obtain b' z where b: "b = b' @ [z]" using assms(2) by (metis append_butlast_last_id)
    then show ?thesis using that assms(1) by (auto simp: om_inv_def sorted_wrt_append less_imp_le)
  qed
  ultimately show ?thesis by (simp add: case_prod_unfold)
qed

lemma om_split:
  "om_inv m \<Longrightarrow> m = filter (\<lambda>(k, v). k \<le> s) m @ om_upper_bound s m"
proof (induction m)
  case (Cons p m)
  show ?case
  proof (cases "fst p \<le> s")
    case True
    with Cons show ?thesis by (cases p) (auto simp: om_upper_bound_def om_inv_Cons)
  next
    case False
    then have "\<forall>q \<in> set m. \<not> fst q \<le> s" using Cons.prems by (cases p) (force simp: om_inv_Cons)
    then have "filter (\<lambda>(k, v). k \<le> s) m = []" by (auto simp: filter_empty_conv)
    then show ?thesis using False by (cases p) (simp add: om_upper_bound_def)
  qed
qed (simp add: om_upper_bound_def)

end
