(* ===== verification/Membership.thy ===== *)
theory Membership
  imports PeerID OrdMap
begin

text \<open>
  src/enclave/raft/membership.cc: the replica sets of a Raft group and the rule by which a leader may
  change them.  The two \<^verbatim>\<open>std::set\<close>s are strictly ascending lists.
\<close>

record replica =
  replica_peer_id :: bytes
  replica_voting :: bool

type_synonym replica_group = "replica list"

record membership =
  all_replicas :: "peer_id list"
  voting_replicas :: "peer_id list"

definition empty_membership :: membership where
  "empty_membership = \<lparr>all_replicas = [], voting_replicas = []\<rparr>"

subsection \<open>Construction\<close>

fun from_replicas :: "membership \<Rightarrow> replica_group \<Rightarrow> error + membership" where
  "from_replicas out [] = Inr out"
| "from_replicas out (r # rs) =
     (case PeerID_FromString (replica_peer_id r) of
        Inl peer_err \<Rightarrow> Inl peer_err
      | Inr p \<Rightarrow>
          if p \<in> set (all_replicas out) then Inl (E_Membership Membership_DuplicateReplicaInReplicaGroup)
          else
            let out1 = out\<lparr>all_replicas := os_insert p (all_replicas out)\<rparr>;
                out2 = (if replica_voting r
                        then out1\<lparr>voting_replicas := os_insert p (voting_replicas out1)\<rparr> else out1)
            in from_replicas out2 rs)"

definition Membership_FromProto :: "replica_group \<Rightarrow> error + membership" where
  "Membership_FromProto g = from_replicas empty_membership g"

definition Membership_First :: "peer_id \<Rightarrow> membership" where
  "Membership_First me = \<lparr>all_replicas = [me], voting_replicas = [me]\<rparr>"

definition Membership_AsProto :: "membership \<Rightarrow> replica_group" where
  "Membership_AsProto m =
     map (\<lambda>peer. \<lparr>replica_peer_id = PeerID_ToString peer,
                   replica_voting = (peer \<in> set (voting_replicas m))\<rparr>) (all_replicas m)"

subsection \<open>Progression\<close>

text \<open>The two-iterator loop: the lists are what is left in front of each iterator.\<close>

fun set_diff_loop :: "nat \<Rightarrow> peer_id list \<Rightarrow> peer_id list \<Rightarrow> nat" where
  "set_diff_loop out [] b = out"
| "set_diff_loop out (x # a) [] = set_diff_loop (out + 1) a []"
| "set_diff_loop out (x # a) (y # b) =
     (if x < y then set_diff_loop (out + 1) a (y # b)
      else if y < x then set_diff_loop out (x # a) b
      else set_diff_loop out a b)"

definition SetDiffSize :: "peer_id list \<Rightarrow> peer_id list \<Rightarrow> nat" where
  "SetDiffSize a b = set_diff_loop 0 a b"

text \<open>\<^verbatim>\<open>std::set_difference\<close> of the standard library, on ascending ranges.\<close>

fun set_difference :: "peer_id list \<Rightarrow> peer_id list \<Rightarrow> peer_id list" where
  "set_difference [] b = []"
| "set_difference (x # a) [] = x # a"
| "set_difference (x # a) (y # b) =
     (if x < y then x # set_difference a (y # b)
      else if y < x then set_difference (x # a) b
      else set_difference a b)"

definition ValidProgressionForLeader ::
  "peer_id \<Rightarrow> membership \<Rightarrow> membership \<Rightarrow> nat \<Rightarrow> error" where
  "ValidProgressionForLeader leader from to super_majority =
     (if length (voting_replicas from) > super_majority \<and> length (voting_replicas to) \<le> super_majority
      then E_Membership Membership_SuperMajorityLost
      else
        let voting_additions = SetDiffSize (voting_replicas to) (voting_replicas from);
            voting_removals = set_difference (voting_replicas from) (voting_replicas to);
            all_additions = SetDiffSize (all_replicas to) (all_replicas from);
            all_removals = set_difference (all_replicas from) (all_replicas to);
            all_changes = voting_additions + length voting_removals + all_additions + length all_removals
        in
        if length (voting_replicas to) = 0 \<or> length (all_replicas to) = 0
        then E_Membership Membership_EmptySet
        else if \<not> (all_changes = 2 \<and> length voting_removals = 1 \<and> length all_removals = 1 \<and>
                    voting_removals ! 0 = all_removals ! 0) \<and> all_changes > 1
        then E_Membership Membership_TooManyMembershipChanges
        else if all_changes = 0 then E_Membership Membership_NoMembershipChanges
        else if leader \<notin> set (voting_replicas to) then E_Membership Membership_LeaderRemovedFromVoting
        else if leader \<notin> set (all_replicas to) then E_Membership Membership_LeaderRemovedFromAll
        else if SetDiffSize (all_replicas to) (voting_replicas to) \<noteq>
                u64_sub (length (all_replicas to)) (length (voting_replicas to))
        then E_Membership Membership_VotingNotSubset
        else OK)"

subsection \<open>Invariant\<close>

definition membership_inv :: "membership \<Rightarrow> bool" where
  "membership_inv m = (os_inv (all_replicas m) \<and> os_inv (voting_replicas m) \<and>
     set (voting_replicas m) \<subseteq> set (all_replicas m) \<and> list_all (\<lambda>p. length p = 32) (all_replicas m))"

lemma membership_inv_add:
  assumes "membership_inv out" "length p = 32"
  shows "membership_inv (out\<lparr>all_replicas := os_insert p (all_replicas out)\<rparr>)"
    and "membership_inv (out\<lparr>all_replicas := os_insert p (all_replicas out),
                              voting_replicas := os_insert p (voting_replicas out)\<rparr>)"
  using assms by (auto simp: membership_inv_def os_inv_insert list_all_iff)

lemma from_replicas_inv:
  "membership_inv out \<Longrightarrow> from_replicas out rs = Inr m \<Longrightarrow> membership_inv m"
proof (induction rs arbitrary: out)
  case (Cons r rs)
  then obtain p where "PeerID_FromString (replica_peer_id r) = Inr p" "p \<notin> set (all_replicas out)"
    by (auto split: sum.splits if_splits)
  with Cons.prems Cons.IH membership_inv_add [OF Cons.prems(1), of p] show ?case
    by (auto simp: PeerID_FromString_Inr Let_def split: if_splits)
qed simp

lemma membership_inv_FromProto [inv_intros]:
  "Membership_FromProto g = Inr m \<Longrightarrow> membership_inv m"
  using from_replicas_inv [of empty_membership g m]
  by (simp add: Membership_FromProto_def membership_inv_def empty_membership_def)

lemma membership_inv_First [inv_intros]: "length me = 32 \<Longrightarrow> membership_inv (Membership_First me)"
  by (simp add: membership_inv_def Membership_First_def os_inv_def)

subsection \<open>Round trip through the protobuf\<close>

lemma os_insert_last:
  "\<forall>x \<in> set s. x < k \<Longrightarrow> os_insert k s = s @ [k]"
  by (induction k s rule: os_insert.induct) (auto simp: not_less_iff_gr_or_eq)

lemma from_replicas_AsProto:
  assumes "os_inv (ps @ qs)" "list_all (\<lambda>p. length p = 32) qs"
  shows "from_replicas \<lparr>all_replicas = ps, voting_replicas = filter P ps\<rparr>
           (map (\<lambda>p. \<lparr>replica_peer_id = PeerID_ToString p, replica_voting = P p\<rparr>) qs) =
         Inr \<lparr>all_replicas = ps @ qs, voting_replicas = filter P (ps @ qs)\<rparr>"
  using assms
proof (induction qs arbitrary: ps)
  case (Cons q qs)
  have lt: "\<forall>x \<in> set ps. x < q" using Cons.prems by (auto simp: os_inv_def sorted_wrt_append)
  then have "os_insert q ps = ps @ [q]" "P q \<Longrightarrow> os_insert q (filter P ps) = filter P ps @ [q]" "q \<notin> set ps"
    by (auto simp: os_insert_last)
  then show ?case using Cons.IH [of "ps @ [q]"] Cons.prems
    by (auto simp: PeerID_FromString_ToString Let_def)
qed simp

lemma os_inv_filter: "os_inv s \<Longrightarrow> os_inv (filter P s)"
  by (simp add: os_inv_def sorted_wrt_filter)

lemma membership_FromProto_AsProto:
  assumes "membership_inv m"
  shows "Membership_FromProto (Membership_AsProto m) = Inr m"
proof -
  let ?P = "\<lambda>p. p \<in> set (voting_replicas m)"
  have "filter ?P (all_replicas m) = voting_replicas m"
    using assms by (intro os_inv_eqI) (auto simp: membership_inv_def os_inv_filter)
  then show ?thesis using assms from_replicas_AsProto [of "[]" "all_replicas m" ?P]
    by (simp add: Membership_FromProto_def Membership_AsProto_def empty_membership_def membership_inv_def)
qed

subsection \<open>The set operations compute set difference\<close>

lemma os_inv_Cons: "os_inv (x # s) \<longleftrightarrow> (\<forall>y \<in> set s. x < y) \<and> os_inv s"
  by (simp add: os_inv_def)

lemma set_set_difference:
  "os_inv a \<Longrightarrow> os_inv b \<Longrightarrow> set (set_difference a b) = set a - set b"
proof (induction a b rule: set_difference.induct)
  case (3 x a y b)
  consider "x < y" | "y < x" | "x = y" by force
  then show ?case using 3 by cases (auto simp: os_inv_Cons)
qed auto

lemma os_inv_set_difference: "os_inv a \<Longrightarrow> os_inv b \<Longrightarrow> os_inv (set_difference a b)"
  by (induction a b rule: set_difference.induct) (auto simp: os_inv_Cons set_set_difference)

lemma length_set_difference:
  "os_inv a \<Longrightarrow> os_inv b \<Longrightarrow> length (set_difference a b) = card (set a - set b)"
  by (metis os_inv_card os_inv_set_difference set_set_difference)

lemma set_diff_loop_eq: "set_diff_loop out a b = out + length (set_difference a b)"
proof (induction out a b rule: set_diff_loop.induct)
  case (2 out x a)
  then show ?case by (cases a) auto
qed auto

lemma SetDiffSize_length: "SetDiffSize a b = length (set_difference a b)"
  by (simp add: SetDiffSize_def set_diff_loop_eq)

lemma SetDiffSize_card: "os_inv a \<Longrightarrow> os_inv b \<Longrightarrow> SetDiffSize a b = card (set a - set b)"
  by (simp add: SetDiffSize_length length_set_difference)

subsection \<open>Properties\<close>

text \<open>The two-iterator loop computes the size of the set difference, and the library algorithm used
  for removals returns exactly the removed peers in ascending order.\<close>

lemma SetDiffSize_is_set_difference:
  assumes "os_inv a" "os_inv b"
  shows "SetDiffSize a b = card (set a - set b) \<and>
    set (set_difference a b) = set a - set b \<and> os_inv (set_difference a b)"
  using assms by (simp add: SetDiffSize_card set_set_difference os_inv_set_difference)

lemma SetDiffSize_is_set_difference_witness:
  "os_inv [[1], [2], [5 :: byte]] \<and> os_inv [[2], [7 :: byte]] \<and>
   SetDiffSize [[1], [2], [5]] [[2], [7]] = card (set [[1], [2], [5 :: byte]] - set [[2], [7]])"
  using SetDiffSize_is_set_difference [of "[[1], [2], [5]]" "[[2], [7]]"] by (simp add: os_inv_def)

text \<open>C33: a membership written to a ReplicaGroup and read back is the same membership, so a
  membership change carried by the log means the same on every replica.\<close>

theorem membership_proto_round_trip:
  "membership_inv m \<Longrightarrow> Membership_FromProto (Membership_AsProto m) = Inr m"
  by (rule membership_FromProto_AsProto)

theorem membership_proto_round_trip_witness:
  "membership_inv (Membership_First zero_id) \<and>
   Membership_FromProto (Membership_AsProto (Membership_First zero_id)) = Inr (Membership_First zero_id)"
  using membership_proto_round_trip [of "Membership_First zero_id"]
    membership_inv_First [of zero_id] by (simp add: zero_id_def)

end
