(* ===== verification/Minimums.thy ===== *)
theory Minimums
  imports OrdMap Util
begin

text \<open>
  src/enclave/minimums: the lower limits that attestations of peers have to meet.  Both protobuf maps (limits and
  values, src/shared/proto/minimums.proto) are ordered maps; the iteration order of a protobuf map is unspecified, and
  it only affects which of several errors is reported.  The mutex and the log lines are left out.
\<close>

type_synonym minimum_limits = "(bytes, bytes) omap"
type_synonym minimum_values = "(bytes, bytes) omap"

fun keys_kept :: "minimum_limits \<Rightarrow> minimum_limits \<Rightarrow> error" where
  "keys_kept [] s = OK"
| "keys_kept ((k, v) # old) s = (if map_of s k = None then E_Minimums Minimums_KeyMissing else keys_kept old s)"

fun limits_grow :: "minimum_limits \<Rightarrow> minimum_limits \<Rightarrow> error" where
  "limits_grow old [] = OK"
| "limits_grow old ((k, v_new) # s) =
     (if length v_new = 0 then E_Minimums Minimums_EntryEmpty
      else if k = [] then E_Minimums Minimums_KeyEmpty
      else case map_of old k of
          None \<Rightarrow> limits_grow old s
        | Some v_old \<Rightarrow>
            if v_old > v_new then E_Minimums Minimums_LimitDecreased
            else if length v_old \<noteq> length v_new then E_Minimums Minimums_SizeMismatch
            else limits_grow old s)"

definition UpdateLimits :: "minimum_limits \<Rightarrow> minimum_limits \<Rightarrow> error \<times> minimum_limits" where
  "UpdateLimits s cur =
     (let err = keys_kept cur s in
      if err \<noteq> OK then (err, cur)
      else let err2 = limits_grow cur s in if err2 \<noteq> OK then (err2, cur) else (OK, s))"

definition CheckValueAgainstSet :: "minimum_limits \<Rightarrow> bytes \<Rightarrow> bytes \<Rightarrow> error" where
  "CheckValueAgainstSet s key value =
     (case map_of s key of
        None \<Rightarrow> OK
      | Some limit \<Rightarrow>
          if value < limit then E_Minimums Minimums_ValueTooLow
          else if length value \<noteq> length limit then E_Minimums Minimums_ValueSize
          else OK)"

fun CheckValuesAgainstSet :: "minimum_limits \<Rightarrow> minimum_values \<Rightarrow> error" where
  "CheckValuesAgainstSet s [] = OK"
| "CheckValuesAgainstSet s ((k, v) # vs) =
     (let err = CheckValueAgainstSet s k v in if err \<noteq> OK then err else CheckValuesAgainstSet s vs)"

definition CheckValues :: "minimum_values \<Rightarrow> minimum_limits \<Rightarrow> error" where
  "CheckValues v cur = CheckValuesAgainstSet cur v"

fun CombineValues :: "minimum_values \<Rightarrow> minimum_values \<Rightarrow> minimum_values" where
  "CombineValues v [] = v"
| "CombineValues v ((k, x) # b) =
     CombineValues (case map_of v k of
                      None \<Rightarrow> om_put k x v
                    | Some y \<Rightarrow> if y > x then om_put k x v else v) b"

definition Minimums_U64 :: "64 word \<Rightarrow> bytes" where
  "Minimums_U64 value = BigEndian64Bytes value"

subsection \<open>Acceptance\<close>

lemma keys_kept_OK: "keys_kept old s = OK \<longleftrightarrow> fst ` set old \<subseteq> fst ` set s"
  by (induction old s rule: keys_kept.induct) (auto simp: map_of_eq_None_iff)

lemma limits_grow_OK:
  "limits_grow old s = OK \<longleftrightarrow> (\<forall>(k, v) \<in> set s. v \<noteq> [] \<and> k \<noteq> [] \<and> (\<forall>w. map_of old k = Some w \<longrightarrow> w \<le> v \<and> length w = length v))"
  by (induction old s rule: limits_grow.induct) (auto split: option.splits)

lemma UpdateLimits_OK:
  "UpdateLimits s old = (OK, s') \<longleftrightarrow> s' = s \<and> fst ` set old \<subseteq> fst ` set s \<and>
     (\<forall>(k, v) \<in> set s. v \<noteq> [] \<and> k \<noteq> [] \<and> (\<forall>w. map_of old k = Some w \<longrightarrow> w \<le> v \<and> length w = length v))"
  unfolding UpdateLimits_def Let_def keys_kept_OK [symmetric] limits_grow_OK [symmetric] by auto

lemma CheckValueAgainstSet_OK:
  "CheckValueAgainstSet s k v = OK \<longleftrightarrow> (\<forall>w. map_of s k = Some w \<longrightarrow> w \<le> v \<and> length v = length w)"
  by (auto simp: CheckValueAgainstSet_def split: option.splits)

lemma CheckValues_OK:
  "CheckValues vs s = OK \<longleftrightarrow> (\<forall>(k, v) \<in> set vs. \<forall>w. map_of s k = Some w \<longrightarrow> w \<le> v \<and> length v = length w)"
  unfolding CheckValues_def
  by (induction s vs rule: CheckValuesAgainstSet.induct) (auto simp: Let_def CheckValueAgainstSet_OK)

lemma om_inv_CombineValues: "om_inv a \<Longrightarrow> om_inv (CombineValues a b)"
  by (induction a b rule: CombineValues.induct) (auto simp: om_inv_put split: option.splits)

subsection \<open>The order of encoded numbers\<close>

definition be_value :: "bytes \<Rightarrow> nat" where
  "be_value bs = foldl (\<lambda>a b. a * 256 + unat b) 0 bs"

lemma be_value_Cons: "be_value (b # bs) = unat b * 256 ^ length bs + be_value bs"
proof -
  have "foldl (\<lambda>a b. a * 256 + unat b) (x :: nat) bs = x * 256 ^ length bs + foldl (\<lambda>a b. a * 256 + unat b) 0 bs" for x
  proof (induction bs arbitrary: x)
    case (Cons c cs)
    show ?case using Cons [of "x * 256 + unat c"] Cons [of "unat c"] by (simp add: algebra_simps)
  qed simp
  from this [of "unat b"] show ?thesis unfolding be_value_def by simp
qed

lemma be_value_bound: "be_value bs < 256 ^ length bs"
proof (induction bs)
  case (Cons b bs)
  have "unat b < 256" using unsigned_less [of b] by simp
  then have "unat b * 256 ^ length bs + be_value bs < (unat b + 1) * 256 ^ length bs" using Cons by simp
  also have "\<dots> \<le> 256 * 256 ^ length bs" using \<open>unat b < 256\<close> by (intro mult_right_mono) simp_all
  finally show ?case by (simp add: be_value_Cons)
qed (simp add: be_value_def)

lemma be_value_less:
  "length xs = length ys \<Longrightarrow> xs < ys \<longleftrightarrow> be_value xs < be_value ys"
proof (induction xs ys rule: list_induct2)
  case (Cons x xs y ys)
  have bx: "be_value xs < 256 ^ length ys" "be_value ys < 256 ^ length ys" using be_value_bound [of xs] be_value_bound [of ys] Cons(1) by simp_all
  have mono: "unat a * 256 ^ length ys + p < unat b * 256 ^ length ys + q" if "a < b" "p < 256 ^ length ys" for a b :: byte and p q
  proof -
    have "unat a + 1 \<le> unat b" using that(1) by (simp add: word_less_nat_alt)
    then have "(unat a + 1) * 256 ^ length ys \<le> unat b * 256 ^ length ys" by (rule mult_right_mono) simp
    then show ?thesis using that(2) by simp
  qed
  show ?case
  proof (cases x y rule: linorder_cases)
    case less
    then show ?thesis using mono [OF less bx(1)] Cons(1) by (simp add: be_value_Cons)
  next
    case equal
    then show ?thesis using Cons by (simp add: be_value_Cons)
  next
    case greater
    then show ?thesis using mono [OF greater bx(2), of "be_value xs"] Cons(1) by (auto simp: be_value_Cons)
  qed
qed simp

lemma be_value_digits:
  "be_value (map (\<lambda>k. word_of_nat (m div 256 ^ k)) (rev [0..<n])) = m mod 256 ^ n"
proof (induction n)
  case (Suc n)
  have "unat (word_of_nat (m div 256 ^ n) :: byte) = m div 256 ^ n mod 256"
    by (simp add: unsigned_of_nat take_bit_eq_mod)
  then show ?case using Suc mod_mult2_eq [of m "256 ^ n" 256] by (simp add: be_value_Cons mult.commute)
qed (simp add: be_value_def)

lemma be_value_BigEndian64Bytes: "be_value (BigEndian64Bytes v) = unat v"
proof -
  have b: "unat v < 2 ^ 64" using unsigned_less [where 'a = nat, of v] by simp
  then have "take_bit 64 (unat v) = unat v" by (rule take_bit_nat_eq_self)
  then have "unat (drop_bit n v) = unat v div 2 ^ n" for n
    by (simp add: unsigned_drop_bit_eq flip: drop_bit_eq_div)
  then have "ucast (drop_bit n v) = (word_of_nat (unat v div 2 ^ n) :: byte)" for n
    by (simp add: word_unat_eq_iff unsigned_of_nat unsigned_ucast_eq take_bit_eq_mod)
  then have "BigEndian64Bytes v = map (\<lambda>k. word_of_nat (unat v div 256 ^ k)) (rev [0..<8])"
    by (simp add: BigEndian64Bytes_def upt_rec)
  then show ?thesis using be_value_digits [of "unat v" 8] b by simp
qed

lemma Minimums_U64_less: "Minimums_U64 a < Minimums_U64 b \<longleftrightarrow> a < b"
  by (simp add: Minimums_U64_def be_value_less be_value_BigEndian64Bytes word_less_nat_alt)

subsection \<open>Properties\<close>

text \<open>C24: the limits only tighten.  An accepted update replaces the limits as a whole, keeps every limited key, and rejects whatever
  the old limits rejected; a rejected update changes nothing.\<close>

theorem minimums_only_tighten:
  assumes "UpdateLimits s old = (err, new)"
  shows "(err \<noteq> OK \<longrightarrow> new = old) \<and>
    (err = OK \<longrightarrow> new = s \<and> (\<forall>vs. CheckValues vs new = OK \<longrightarrow> CheckValues vs old = OK))"
proof (cases "err = OK")
  case False
  then show ?thesis using assms by (auto simp: UpdateLimits_def Let_def split: if_splits)
next
  case True
  then have u: "new = s" "fst ` set old \<subseteq> fst ` set s"
    "\<forall>(k, v) \<in> set s. v \<noteq> [] \<and> k \<noteq> [] \<and> (\<forall>w. map_of old k = Some w \<longrightarrow> w \<le> v \<and> length w = length v)"
    using assms UpdateLimits_OK [of s old new] by simp_all
  have "w \<le> v \<and> length v = length w"
    if c: "CheckValues vs s = OK" "(k, v) \<in> set vs" and w: "map_of old k = Some w" for vs k v w
  proof -
    have "k \<in> fst ` set s" using u(2) map_of_SomeD [OF w] by force
    then obtain x where x: "map_of s k = Some x" by (cases "map_of s k") (auto simp: map_of_eq_None_iff)
    have "w \<le> x \<and> length w = length x" using bspec [OF u(3) map_of_SomeD [OF x]] w by simp
    moreover have "x \<le> v \<and> length v = length x" using bspec [OF c(1) [unfolded CheckValues_OK] c(2)] x by simp
    ultimately show ?thesis by auto
  qed
  then have "CheckValues vs old = OK" if "CheckValues vs s = OK" for vs
    using that unfolding CheckValues_OK [of vs old] by blast
  then show ?thesis using True u(1) by blast
qed

theorem minimums_only_tighten_witness:
  "UpdateLimits [([1], [5]), ([2], [9])] [([1], [3 :: byte])] = (OK, [([1], [5]), ([2], [9])]) \<and>
   CheckValues [([1], [7])] [([1], [5]), ([2], [9])] = OK \<and> CheckValues [([1], [7])] [([1], [3 :: byte])] = OK"
proof -
  have u: "UpdateLimits [([1], [5]), ([2], [9])] [([1], [3 :: byte])] = (OK, [([1], [5]), ([2], [9])])" by code_simp
  have "CheckValues [([1], [7])] [([1], [5]), ([2], [9 :: byte])] = OK" by code_simp
  then show ?thesis using minimums_only_tighten [OF u] u by blast
qed

text \<open>Numbers are limited as numbers.  The 8-byte encoding of counters and dates that the limits use keeps their order, so a value
  is rejected as too low exactly when the number is below the limit.\<close>

lemma minimums_numeric_order:
  "CheckValueAgainstSet [(key, Minimums_U64 limit)] key (Minimums_U64 value) = (if value < limit then E_Minimums Minimums_ValueTooLow else OK)"
  by (simp add: CheckValueAgainstSet_def Minimums_U64_less) (simp add: Minimums_U64_def)

end
