(* ===== verification/RaftLog.thy ===== *)
theory RaftLog
  imports Membership Minimums
begin

text \<open>
  src/enclave/raft/log.cc: the in-memory Raft log, a deque of entries of which the first has index
  \<open>log_oldest\<close>, with its byte accounting and the truncation of applied entries.  The sizes of
  protobuf objects come from generated code and the C++ ABI, so they are the parameter \<open>sizes\<close>.
  \<open>Append\<close> and \<open>RemoveOldestLogOlderThan\<close> return \<^term>\<open>None\<close> where the code reads the front of an empty deque.
\<close>

datatype log_inner =
    INNER_NOT_SET
  | Data bytes
  | MembershipChange replica_group
  | Minimums minimum_limits

record log_entry =
  le_term :: nat
  le_inner :: log_inner
  le_hash_chain :: bytes

definition default_entry :: log_entry where
  "default_entry = \<lparr>le_term = 0, le_inner = INNER_NOT_SET, le_hash_chain = []\<rparr>"

record log_location =
  loc_term :: nat
  loc_idx :: nat
  loc_hash_chain :: bytes

definition default_location :: log_location where
  "default_location = \<lparr>loc_term = 0, loc_idx = 0, loc_hash_chain = []\<rparr>"

record sizes =
  sizeof_ReplicaGroup :: nat
  sizeof_Replica :: nat
  sizeof_LogEntry :: nat
  sizeof_string :: nat
  ByteSizeLong :: "log_entry \<Rightarrow> nat"

record raft_log =
  log_entries :: "log_entry list"
  log_oldest :: nat
  log_curr_bytes :: nat
  log_max_bytes :: nat

definition INT_MAX :: nat where
  "INT_MAX = 2147483647"

definition le_data :: "log_entry \<Rightarrow> bytes" where
  "le_data e = (case le_inner e of Data d \<Rightarrow> d | _ \<Rightarrow> [])"

definition logentry_bytes_in_log :: "sizes \<Rightarrow> log_entry \<Rightarrow> nat" where
  "logentry_bytes_in_log sz e =
     (let mem_change =
            (case le_inner e of
               MembershipChange g \<Rightarrow> sizeof_ReplicaGroup sz + length g * (32 + sizeof_Replica sz)
             | _ \<Rightarrow> 0);
          mem_change' =
            (if length (le_hash_chain e) \<noteq> 0
             then mem_change + length (le_hash_chain e) + sizeof_string sz else mem_change)
      in mem_change' + sizeof_LogEntry sz + sizeof_string sz + length (le_data e))"

definition Log_init :: "nat \<Rightarrow> raft_log" where
  "Log_init max_bytes = \<lparr>log_entries = [], log_oldest = 1, log_curr_bytes = 0, log_max_bytes = max_bytes\<rparr>"

text \<open>\<^verbatim>\<open>std::deque::resize\<close> drops entries behind the new size, or adds default ones up to it.\<close>

definition resize_entries :: "nat \<Rightarrow> log_entry list \<Rightarrow> log_entry list" where
  "resize_entries n es = take n es @ replicate (n - length es) default_entry"

definition CancelFrom :: "nat \<Rightarrow> raft_log \<Rightarrow> error \<times> raft_log" where
  "CancelFrom from_log_idx lg =
     (if from_log_idx < log_oldest lg then (E_Raft Raft_CancelingBeforeFirst, lg)
      else (OK, lg\<lparr>log_entries := resize_entries (from_log_idx - log_oldest lg) (log_entries lg)\<rparr>))"

subsection \<open>Iterators\<close>

text \<open>An iterator is a position in the deque; the positions at or past its end are invalid.\<close>

definition At :: "raft_log \<Rightarrow> nat \<Rightarrow> nat" where
  "At lg idx = (if idx < log_oldest lg then length (log_entries lg) else idx - log_oldest lg)"

definition Iter_Valid :: "raft_log \<Rightarrow> nat \<Rightarrow> bool" where
  "Iter_Valid lg di = (di < length (log_entries lg))"

definition Iter_Index :: "raft_log \<Rightarrow> nat \<Rightarrow> nat" where
  "Iter_Index lg di = (if \<not> Iter_Valid lg di then 0 else u64_add (log_oldest lg) di)"

definition Iter_Entry :: "raft_log \<Rightarrow> nat \<Rightarrow> log_entry option" where
  "Iter_Entry lg di = (if \<not> Iter_Valid lg di then None else Some (log_entries lg ! di))"

definition Iter_Term :: "raft_log \<Rightarrow> nat \<Rightarrow> nat" where
  "Iter_Term lg di = (case Iter_Entry lg di of None \<Rightarrow> 0 | Some e \<Rightarrow> le_term e)"

definition Iter_SerializedSize :: "sizes \<Rightarrow> raft_log \<Rightarrow> nat \<Rightarrow> nat" where
  "Iter_SerializedSize sz lg di = (case Iter_Entry lg di of None \<Rightarrow> 0 | Some e \<Rightarrow> ByteSizeLong sz e)"

definition Iter_MemSize :: "sizes \<Rightarrow> raft_log \<Rightarrow> nat \<Rightarrow> nat" where
  "Iter_MemSize sz lg di =
     (case Iter_Entry lg di of None \<Rightarrow> 0 | Some e \<Rightarrow> logentry_bytes_in_log sz e)"

definition Iter_Next :: "raft_log \<Rightarrow> nat \<Rightarrow> nat" where
  "Iter_Next lg di = (if Iter_Valid lg di then u64_add di 1 else di)"

definition Iter_Prev :: "raft_log \<Rightarrow> nat \<Rightarrow> nat" where
  "Iter_Prev lg di = (if Iter_Valid lg di then u64_sub di 1 else di)"

definition oldest_stored_idx :: "raft_log \<Rightarrow> nat" where
  "oldest_stored_idx lg = (if length (log_entries lg) = 0 then 0 else log_oldest lg)"

definition last_idx :: "raft_log \<Rightarrow> nat" where
  "last_idx lg =
     (if length (log_entries lg) = 0 then 0
      else u64_sub (u64_add (log_oldest lg) (length (log_entries lg))) 1)"

definition next_idx :: "raft_log \<Rightarrow> nat" where
  "next_idx lg = u64_add (last_idx lg) 1"

definition last_term :: "raft_log \<Rightarrow> nat" where
  "last_term lg = (if length (log_entries lg) = 0 then 0 else Iter_Term lg (At lg (last_idx lg)))"

definition log_empty :: "raft_log \<Rightarrow> bool" where
  "log_empty lg = (length (log_entries lg) = 0)"

subsection \<open>Appending and truncating\<close>

definition RemoveOldestLogOlderThan :: "sizes \<Rightarrow> nat \<Rightarrow> raft_log \<Rightarrow> (bool \<times> raft_log) option" where
  "RemoveOldestLogOlderThan sz truncate_to lg =
     (if log_oldest lg \<ge> truncate_to then Some (False, lg)
      else
        case log_entries lg of
          [] \<Rightarrow> None
        | e # es \<Rightarrow>
            Some (True, lg\<lparr>log_entries := es,
                           log_oldest := u64_add (log_oldest lg) 1,
                           log_curr_bytes := u64_sub (log_curr_bytes lg) (logentry_bytes_in_log sz e)\<rparr>))"

text \<open>The loop of \<^verbatim>\<open>Append\<close>: whether room for \<open>mem\<close> bytes was made, and the log after it.\<close>

function append_make_room :: "sizes \<Rightarrow> nat \<Rightarrow> nat \<Rightarrow> raft_log \<Rightarrow> (bool \<times> raft_log) option" where
  "append_make_room sz mem maybe_truncate_to lg =
     (if u64_add (log_curr_bytes lg) mem > log_max_bytes lg then
        (case RemoveOldestLogOlderThan sz maybe_truncate_to lg of
           None \<Rightarrow> None
         | Some (removed, lg') \<Rightarrow>
             if \<not> removed then Some (False, lg') else append_make_room sz mem maybe_truncate_to lg')
      else Some (True, lg))"
  by pat_completeness auto
termination
  by (relation "measure (\<lambda>(sz, mem, trunc, lg). length (log_entries lg))")
    (auto simp: RemoveOldestLogOlderThan_def split: if_splits list.splits)

declare append_make_room.simps [simp del]

definition Append :: "sizes \<Rightarrow> log_entry \<Rightarrow> nat \<Rightarrow> raft_log \<Rightarrow> (error \<times> raft_log) option" where
  "Append sz e maybe_truncate_to lg =
     (if le_term e = 0 then Some (E_Raft Raft_AppendWithoutTerm, lg)
      else if length (le_hash_chain e) \<noteq> 32 then Some (E_Raft Raft_NoHashChainInAppend, lg)
      else
        let mem = logentry_bytes_in_log sz e in
        case append_make_room sz mem maybe_truncate_to lg of
          None \<Rightarrow> None
        | Some (False, lg') \<Rightarrow> Some (E_Raft Raft_LogOutOfSpace, lg')
        | Some (True, lg') \<Rightarrow>
            if ByteSizeLong sz e > INT_MAX then Some (E_Raft Raft_LogEntryTooLarge, lg')
            else Some (OK, lg'\<lparr>log_entries := log_entries lg' @ [e],
                                log_curr_bytes := u64_add (log_curr_bytes lg') mem\<rparr>))"

text \<open>The backwards scan of \<^verbatim>\<open>MostRecentHash\<close>; stepping back from position 0 makes the iterator invalid.\<close>

fun most_recent_hash_from :: "raft_log \<Rightarrow> nat \<Rightarrow> bytes option" where
  "most_recent_hash_from lg di =
     (case Iter_Entry lg di of
        None \<Rightarrow> None
      | Some e \<Rightarrow>
          if length (le_hash_chain e) = 32 then Some (le_hash_chain e)
          else if di = 0 then None
          else most_recent_hash_from lg (di - 1))"

declare most_recent_hash_from.simps [simp del]

definition MostRecentHash :: "raft_log \<Rightarrow> bytes option" where
  "MostRecentHash lg = most_recent_hash_from lg (At lg (last_idx lg))"

definition SetNextIdx :: "nat \<Rightarrow> raft_log \<Rightarrow> error \<times> raft_log" where
  "SetNextIdx idx lg =
     (if length (log_entries lg) \<noteq> 0 then (E_Raft Raft_SetNextOnNonemptyLog, lg)
      else (OK, lg\<lparr>log_oldest := idx\<rparr>))"

subsection \<open>Abstraction: a log is a partial map from indices to entries\<close>

definition entry_at :: "raft_log \<Rightarrow> nat \<Rightarrow> log_entry option" where
  "entry_at lg idx = Iter_Entry lg (At lg idx)"

definition log_end :: "raft_log \<Rightarrow> nat" where
  "log_end lg = log_oldest lg + length (log_entries lg)"

definition bytes_used :: "sizes \<Rightarrow> log_entry list \<Rightarrow> nat" where
  "bytes_used sz es = sum_list (map (logentry_bytes_in_log sz) es)"

definition entry_ok :: "log_entry \<Rightarrow> bool" where
  "entry_ok e = (le_term e \<noteq> 0 \<and> length (le_hash_chain e) = 32)"

definition log_inv :: "sizes \<Rightarrow> raft_log \<Rightarrow> bool" where
  "log_inv sz lg = (1 \<le> log_oldest lg \<and> log_end lg < 2 ^ 64 \<and> log_max_bytes lg < 2 ^ 64 \<and>
     bytes_used sz (log_entries lg) \<le> log_curr_bytes lg \<and> log_curr_bytes lg \<le> log_max_bytes lg \<and>
     list_all entry_ok (log_entries lg))"

lemma entry_at_eq:
  "entry_at lg idx =
     (if log_oldest lg \<le> idx \<and> idx < log_end lg then Some (log_entries lg ! (idx - log_oldest lg)) else None)"
  by (auto simp: entry_at_def Iter_Entry_def Iter_Valid_def At_def log_end_def)

lemma Iter_Valid_At: "Iter_Valid lg (At lg idx) = (entry_at lg idx \<noteq> None)"
  by (simp add: entry_at_def Iter_Entry_def)

lemma Iter_Term_At: "Iter_Term lg (At lg idx) = (case entry_at lg idx of None \<Rightarrow> 0 | Some e \<Rightarrow> le_term e)"
  by (simp add: entry_at_def Iter_Term_def)

lemma log_inv_entry_ok: "log_inv sz lg \<Longrightarrow> entry_at lg idx = Some e \<Longrightarrow> entry_ok e"
  by (auto simp: log_inv_def entry_at_eq log_end_def list_all_length split: if_splits)

lemma last_idx_eq:
  "log_inv sz lg \<Longrightarrow> last_idx lg = (if log_entries lg = [] then 0 else log_end lg - 1)"
  by (auto simp: last_idx_def log_inv_def log_end_def u64_simps)

lemma next_idx_eq: "log_inv sz lg \<Longrightarrow> log_entries lg \<noteq> [] \<Longrightarrow> next_idx lg = log_end lg"
  by (auto simp: next_idx_def last_idx_eq log_inv_def u64_simps) (simp add: log_end_def)

lemma entry_at_last:
  "log_inv sz lg \<Longrightarrow> log_entries lg \<noteq> [] \<Longrightarrow> entry_at lg (last_idx lg) = Some (last (log_entries lg))"
  using last_idx_eq [of sz lg] by (cases "log_entries lg") (auto simp: entry_at_eq log_end_def last_conv_nth)

lemma entry_at_last_iff:
  "log_inv sz lg \<Longrightarrow> entry_at lg (last_idx lg) = None \<longleftrightarrow> log_entries lg = []"
  using entry_at_last [of sz lg] by (cases "log_entries lg = []") (auto simp: entry_at_eq log_end_def)

lemma last_term_eq:
  "log_inv sz lg \<Longrightarrow> last_term lg = (if log_entries lg = [] then 0 else le_term (last (log_entries lg)))"
  by (simp add: last_term_def Iter_Term_At entry_at_last)

lemma entry_at_le_last: "log_inv sz lg \<Longrightarrow> entry_at lg idx = Some e \<Longrightarrow> 1 \<le> idx \<and> idx \<le> last_idx lg"
  by (auto simp: entry_at_eq last_idx_eq log_inv_def log_end_def split: if_splits)

lemma MostRecentHash_last:
  "log_inv sz lg \<Longrightarrow>
   MostRecentHash lg = (if log_entries lg = [] then None else Some (le_hash_chain (last (log_entries lg))))"
  using entry_at_last [of sz lg] log_inv_entry_ok [of sz lg "last_idx lg"] entry_at_last_iff [of sz lg]
  by (auto simp: MostRecentHash_def most_recent_hash_from.simps [of lg "At lg (last_idx lg)"]
      entry_at_def [symmetric] entry_ok_def split: option.splits)

lemma log_inv_init [inv_intros]: "m < 2 ^ 64 \<Longrightarrow> log_inv sz (Log_init m)"
  by (simp add: log_inv_def Log_init_def log_end_def bytes_used_def)

subsection \<open>Truncation\<close>

definition drop_oldest :: "sizes \<Rightarrow> nat \<Rightarrow> raft_log \<Rightarrow> raft_log" where
  "drop_oldest sz k lg = lg\<lparr>log_entries := drop k (log_entries lg), log_oldest := log_oldest lg + k,
     log_curr_bytes := log_curr_bytes lg - bytes_used sz (take k (log_entries lg))\<rparr>"

lemma bytes_used_append [simp]: "bytes_used sz (xs @ ys) = bytes_used sz xs + bytes_used sz ys"
  by (simp add: bytes_used_def)

lemma bytes_used_simps [simp]:
  "bytes_used sz [] = 0" "bytes_used sz (x # xs) = logentry_bytes_in_log sz x + bytes_used sz xs"
  by (simp_all add: bytes_used_def)

lemma bytes_used_take_drop: "bytes_used sz (take k es) + bytes_used sz (drop k es) = bytes_used sz es"
  by (metis append_take_drop_id bytes_used_append)

lemma drop_oldest_0 [simp]: "drop_oldest sz 0 lg = lg"
  by (simp add: drop_oldest_def)

lemma drop_oldest_simps [simp]:
  "log_entries (drop_oldest sz k lg) = drop k (log_entries lg)"
  "log_oldest (drop_oldest sz k lg) = log_oldest lg + k"
  "log_max_bytes (drop_oldest sz k lg) = log_max_bytes lg"
  "log_curr_bytes (drop_oldest sz k lg) = log_curr_bytes lg - bytes_used sz (take k (log_entries lg))"
  "k \<le> length (log_entries lg) \<Longrightarrow> log_end (drop_oldest sz k lg) = log_end lg"
  by (simp_all add: drop_oldest_def log_end_def)

lemma log_inv_drop_oldest [inv_intros]:
  "log_inv sz lg \<Longrightarrow> k \<le> length (log_entries lg) \<Longrightarrow> log_inv sz (drop_oldest sz k lg)"
  using bytes_used_take_drop [of sz k "log_entries lg"]
  by (auto simp: log_inv_def list_all_iff dest: in_set_dropD)

lemma entry_at_drop_oldest:
  "k \<le> length (log_entries lg) \<Longrightarrow>
   entry_at (drop_oldest sz k lg) idx = (if idx < log_oldest lg + k then None else entry_at lg idx)"
  by (auto simp: entry_at_eq)

lemma drop_oldest_Suc:
  assumes "log_entries lg = e # es"
  shows "drop_oldest sz k (drop_oldest sz 1 lg) = drop_oldest sz (Suc k) lg"
  using assms by (simp add: drop_oldest_def)

lemma RemoveOldest_eq:
  assumes "log_inv sz lg" "t \<le> log_end lg"
  shows "RemoveOldestLogOlderThan sz t lg =
    (if log_oldest lg \<ge> t then Some (False, lg) else Some (True, drop_oldest sz 1 lg))"
proof (cases "log_entries lg")
  case Nil
  then show ?thesis using assms by (simp add: RemoveOldestLogOlderThan_def log_end_def)
next
  case (Cons e es)
  then have "u64_sub (log_curr_bytes lg) (logentry_bytes_in_log sz e) =
      log_curr_bytes lg - logentry_bytes_in_log sz e" "u64_add (log_oldest lg) 1 = log_oldest lg + 1"
    using assms by (auto simp: log_inv_def log_end_def u64_simps)
  then show ?thesis using Cons by (simp add: RemoveOldestLogOlderThan_def drop_oldest_def)
qed

lemma append_make_room_spec:
  assumes "log_inv sz lg" "t \<le> log_end lg" "mem + log_max_bytes lg < 2 ^ 64"
  shows "\<exists>k b. append_make_room sz mem t lg = Some (b, drop_oldest sz k lg) \<and>
    k \<le> length (log_entries lg) \<and> (k = 0 \<or> log_oldest lg + k \<le> t) \<and>
    (b \<longrightarrow> log_curr_bytes (drop_oldest sz k lg) + mem \<le> log_max_bytes lg) \<and>
    (\<not> b \<longrightarrow> t \<le> log_oldest lg + k \<and> log_curr_bytes (drop_oldest sz k lg) + mem > log_max_bytes lg)"
  using assms
proof (induction "length (log_entries lg)" arbitrary: lg rule: less_induct)
  case less
  have add: "u64_add (log_curr_bytes lg) mem = log_curr_bytes lg + mem"
    using less.prems by (auto simp: log_inv_def u64_simps)
  show ?case
  proof (cases "log_curr_bytes lg + mem > log_max_bytes lg \<and> log_oldest lg < t")
    case True
    then obtain e es where e: "log_entries lg = e # es"
      using less.prems by (cases "log_entries lg") (auto simp: log_end_def)
    let ?lg = "drop_oldest sz 1 lg"
    have "log_inv sz ?lg" "log_end ?lg = log_end lg" using less.prems e by (auto intro: inv_intros)
    with less.hyps [of ?lg] less.prems e obtain k b where
      k: "append_make_room sz mem t ?lg = Some (b, drop_oldest sz k ?lg)" "k \<le> length es"
         "k = 0 \<or> log_oldest ?lg + k \<le> t"
         "b \<longrightarrow> log_curr_bytes (drop_oldest sz k ?lg) + mem \<le> log_max_bytes lg"
         "\<not> b \<longrightarrow> t \<le> log_oldest ?lg + k \<and> log_curr_bytes (drop_oldest sz k ?lg) + mem > log_max_bytes lg"
      by auto
    have d: "drop_oldest sz k ?lg = drop_oldest sz (Suc k) lg" using drop_oldest_Suc [OF e] .
    have "append_make_room sz mem t lg = Some (b, drop_oldest sz (Suc k) lg)"
      using True less.prems k(1) d
      by (subst append_make_room.simps) (simp add: add RemoveOldest_eq)
    with k True e d show ?thesis
      by (intro exI [of _ "Suc k"] exI [of _ b]) auto
  next
    case False
    then have "append_make_room sz mem t lg = Some (log_curr_bytes lg + mem \<le> log_max_bytes lg, lg)"
      using less.prems by (subst append_make_room.simps) (auto simp: add RemoveOldest_eq not_less)
    with False show ?thesis
      by (intro exI [of _ 0] exI [of _ "log_curr_bytes lg + mem \<le> log_max_bytes lg"]) auto
  qed
qed

lemma Append_spec:
  assumes "log_inv sz lg" "t \<le> log_end lg"
    and mem: "logentry_bytes_in_log sz e + log_max_bytes lg < 2 ^ 64"
  shows "\<exists>k err lg'. Append sz e t lg = Some (err, lg') \<and>
    k \<le> length (log_entries lg) \<and> (k = 0 \<or> log_oldest lg + k \<le> t) \<and>
    (err \<noteq> OK \<longrightarrow> lg' = drop_oldest sz k lg) \<and>
    (err = OK \<longrightarrow> entry_ok e \<and>
       log_curr_bytes (drop_oldest sz k lg) + logentry_bytes_in_log sz e \<le> log_max_bytes lg \<and>
       lg' = (drop_oldest sz k lg)\<lparr>log_entries := drop k (log_entries lg) @ [e],
         log_curr_bytes := log_curr_bytes (drop_oldest sz k lg) + logentry_bytes_in_log sz e\<rparr>)"
proof (cases "entry_ok e")
  case False
  then show ?thesis
    by (auto simp: Append_def entry_ok_def intro!: exI [of _ 0])
next
  case True
  obtain k b where k: "append_make_room sz (logentry_bytes_in_log sz e) t lg = Some (b, drop_oldest sz k lg)"
    "k \<le> length (log_entries lg)" "k = 0 \<or> log_oldest lg + k \<le> t"
    "b \<longrightarrow> log_curr_bytes (drop_oldest sz k lg) + logentry_bytes_in_log sz e \<le> log_max_bytes lg"
    using append_make_room_spec [OF assms(1,2), of "logentry_bytes_in_log sz e"] mem by auto
  have "b \<longrightarrow> u64_add (log_curr_bytes (drop_oldest sz k lg)) (logentry_bytes_in_log sz e) =
     log_curr_bytes (drop_oldest sz k lg) + logentry_bytes_in_log sz e"
    using k(4) assms(1) by (auto simp: log_inv_def u64_simps simp del: drop_oldest_simps)
  then show ?thesis using k True
    by (intro exI [of _ k]) (auto simp: Append_def entry_ok_def Let_def split: bool.splits)
qed

lemma log_inv_Append:
  assumes "log_inv sz lg" "t \<le> log_end lg" "logentry_bytes_in_log sz e + log_max_bytes lg < 2 ^ 64"
    and "Append sz e t lg = Some (err, lg')" "log_end lg + 1 < 2 ^ 64"
  shows "log_inv sz lg'"
proof -
  obtain k where k: "k \<le> length (log_entries lg)"
     "err \<noteq> OK \<longrightarrow> lg' = drop_oldest sz k lg"
     "err = OK \<longrightarrow> entry_ok e \<and>
       log_curr_bytes (drop_oldest sz k lg) + logentry_bytes_in_log sz e \<le> log_max_bytes lg \<and>
       lg' = (drop_oldest sz k lg)\<lparr>log_entries := drop k (log_entries lg) @ [e],
         log_curr_bytes := log_curr_bytes (drop_oldest sz k lg) + logentry_bytes_in_log sz e\<rparr>"
    using Append_spec [OF assms(1-3)] assms(4) by auto
  then have "log_inv sz (drop_oldest sz k lg)" using assms(1) by (intro inv_intros)
  with k assms(5) show ?thesis
    by (cases "err = OK") (auto simp: log_inv_def log_end_def)
qed

lemma Append_entry_at:
  assumes "log_inv sz lg" "t \<le> log_end lg" "logentry_bytes_in_log sz e + log_max_bytes lg < 2 ^ 64"
    and "Append sz e t lg = Some (err, lg')"
  shows "log_oldest lg \<le> log_oldest lg'" "log_oldest lg' \<le> max (log_oldest lg) t"
    "entry_at lg' = (\<lambda>idx. if err = OK \<and> idx = log_end lg then Some e
                            else if idx < log_oldest lg' then None else entry_at lg idx)"
    "log_end lg' = log_end lg + (if err = OK then 1 else 0)"
proof -
  obtain k where k: "k \<le> length (log_entries lg)" "k = 0 \<or> log_oldest lg + k \<le> t"
     "err \<noteq> OK \<longrightarrow> lg' = drop_oldest sz k lg"
     "err = OK \<longrightarrow>
       lg' = (drop_oldest sz k lg)\<lparr>log_entries := drop k (log_entries lg) @ [e],
         log_curr_bytes := log_curr_bytes (drop_oldest sz k lg) + logentry_bytes_in_log sz e\<rparr>"
    using Append_spec [OF assms(1-3)] assms(4) by auto
  show "log_oldest lg \<le> log_oldest lg'" "log_oldest lg' \<le> max (log_oldest lg) t"
    "log_end lg' = log_end lg + (if err = OK then 1 else 0)"
    using k by (cases "err = OK"; auto simp: log_end_def)+
  show "entry_at lg' = (\<lambda>idx. if err = OK \<and> idx = log_end lg then Some e
                            else if idx < log_oldest lg' then None else entry_at lg idx)"
    using k by (cases "err = OK") (auto simp: fun_eq_iff entry_at_eq log_end_def nth_append)
qed

subsection \<open>Cancellation\<close>

lemma CancelFrom_spec:
  assumes "log_oldest lg \<le> i" "i \<le> log_end lg"
  shows "CancelFrom i lg = (OK, lg\<lparr>log_entries := take (i - log_oldest lg) (log_entries lg)\<rparr>)"
  using assms by (simp add: CancelFrom_def resize_entries_def log_end_def)

lemma entry_at_CancelFrom:
  assumes "log_oldest lg \<le> i" "i \<le> log_end lg" "CancelFrom i lg = (err, lg')"
  shows "entry_at lg' = (\<lambda>idx. if idx < i then entry_at lg idx else None)" "log_end lg' = i"
    "log_oldest lg' = log_oldest lg" "err = OK"
  using assms by (auto simp: CancelFrom_spec entry_at_eq fun_eq_iff log_end_def)

lemma log_inv_CancelFrom:
  assumes "log_inv sz lg" "log_oldest lg \<le> i" "i \<le> log_end lg" "CancelFrom i lg = (err, lg')"
  shows "log_inv sz lg'"
  using assms bytes_used_take_drop [of sz "i - log_oldest lg" "log_entries lg"]
  by (auto simp: CancelFrom_spec log_inv_def log_end_def list_all_take)

end
