(* ===== verification/Quorum.thy ===== *)
theory Quorum
  imports Membership
begin

text \<open>
  \<^verbatim>\<open>Raft::quorum_size\<close> of src/enclave/raft/raft.cc and why it is a quorum: two quorums of one
  membership share more than \<open>super_majority\<close> voters, and a quorum of a membership shares a voter with
  every quorum of a membership that \<^verbatim>\<open>ValidProgressionForLeader\<close> accepts as its successor.  The
  locale \<open>quorum_system\<close> is what elections and commits rely on.
\<close>

definition quorum_size :: "nat \<Rightarrow> nat \<Rightarrow> nat" where
  "quorum_size voting_n super_majority =
     min voting_n (u64_add (u64_add (u64_sub voting_n super_majority div 2) 1) super_majority)"

text \<open>Membership sizes and the configured super majority are 32-bit quantities.\<close>

abbreviation quorum_bounds :: "nat \<Rightarrow> nat \<Rightarrow> bool" where
  "quorum_bounds n s \<equiv> n < 2 ^ 32 \<and> s < 2 ^ 32"

definition voting_quorum :: "membership \<Rightarrow> nat \<Rightarrow> peer_id set \<Rightarrow> bool" where
  "voting_quorum m s A \<longleftrightarrow>
     os_inv (voting_replicas m) \<and> voting_replicas m \<noteq> [] \<and>
     quorum_bounds (length (voting_replicas m)) s \<and> A \<subseteq> set (voting_replicas m) \<and>
     quorum_size (length (voting_replicas m)) s \<le> card A"

lemma quorum_size_eq:
  assumes "quorum_bounds n s"
  shows "quorum_size n s = (if s < n then min n ((n - s) div 2 + 1 + s) else n)"
proof (cases "s \<le> n")
  case True
  then have "u64_sub n s = n - s" using assms by (intro u64_sub_exact) auto
  moreover have "(n - s) div 2 + 1 + s < 2 ^ 64" using assms by auto
  ultimately show ?thesis using True by (auto simp: quorum_size_def u64_simps)
next
  case False
  have "u64_sub n s = n + 2 ^ 64 - s" using False assms by (simp add: u64_sub_def)
  moreover have "(n + 2 ^ 64 - s) div 2 \<le> 2 ^ 63"
    using False div_le_mono [of "n + 2 ^ 64 - s" "2 ^ 64" 2] by simp
  moreover from this have "(n + 2 ^ 64 - s) div 2 + 1 + s < 2 ^ 64" using assms by simp
  ultimately have "quorum_size n s = min n ((n + 2 ^ 64 - s) div 2 + 1 + s)"
    unfolding quorum_size_def by (simp add: u64_add_exact)
  then show ?thesis using False by simp
qed

lemma quorum_size_le: "quorum_size n s \<le> n"
  by (simp add: quorum_size_def)

lemma quorum_size_pos: "quorum_bounds n s \<Longrightarrow> 0 < n \<Longrightarrow> 0 < quorum_size n s"
  by (auto simp: quorum_size_eq)

lemma quorum_size_twice:
  "quorum_bounds n s \<Longrightarrow> n + min n (s + 1) \<le> 2 * quorum_size n s"
  by (auto simp: quorum_size_eq min_def)

lemma quorum_size_step:
  assumes "quorum_bounds n s" "quorum_bounds (Suc n) s" "0 < n"
  shows "Suc n < quorum_size n s + quorum_size (Suc n) s"
  using assms by (auto simp: quorum_size_eq min_def)

lemma card_inter_ge:
  assumes "finite V" "A \<subseteq> V" "B \<subseteq> V"
  shows "card A + card B \<le> card V + card (A \<inter> B)"
proof -
  have fin: "finite A" "finite B" using assms finite_subset by auto
  have "card A + card B = card (A \<union> B) + card (A \<inter> B)" using fin by (rule card_Un_Int)
  moreover have "card (A \<union> B) \<le> card V" using assms by (simp add: card_mono)
  ultimately show ?thesis by simp
qed

lemma voting_quorum_inter_card:
  assumes "voting_quorum m s A" "voting_quorum m s B"
  shows "min (length (voting_replicas m)) (s + 1) \<le> card (A \<inter> B)"
proof -
  let ?n = "length (voting_replicas m)"
  have n: "card (set (voting_replicas m)) = ?n" using assms by (simp add: voting_quorum_def os_inv_card)
  have "card A + card B \<le> ?n + card (A \<inter> B)"
    using card_inter_ge [of "set (voting_replicas m)" A B] assms n by (auto simp: voting_quorum_def)
  moreover have "?n + min ?n (s + 1) \<le> 2 * quorum_size ?n s"
    using assms by (intro quorum_size_twice) (auto simp: voting_quorum_def)
  ultimately show ?thesis using assms by (auto simp: voting_quorum_def)
qed

subsection \<open>The quorum contract\<close>

locale quorum_system =
  fixes Quorum :: "'a set \<Rightarrow> bool"
  assumes quorum_inter: "Quorum A \<Longrightarrow> Quorum B \<Longrightarrow> A \<inter> B \<noteq> {}"
begin

lemma quorum_member: "Quorum A \<Longrightarrow> Quorum B \<Longrightarrow> \<exists>p. p \<in> A \<and> p \<in> B"
  using quorum_inter by blast

lemma unique_choice:
  assumes "Quorum A" "Quorum B" "\<And>p. p \<in> A \<Longrightarrow> choice p = Some x" "\<And>p. p \<in> B \<Longrightarrow> choice p = Some y"
  shows "x = y"
  using quorum_member [OF assms(1,2)] assms(3,4) by fastforce

end

interpretation vq: quorum_system "voting_quorum m s" for m s
proof
  fix A B assume "voting_quorum m s A" "voting_quorum m s B"
  moreover from this have "0 < min (length (voting_replicas m)) (s + 1)"
    by (auto simp: voting_quorum_def)
  ultimately have "0 < card (A \<inter> B)" using voting_quorum_inter_card [of m s A B] by linarith
  then show "A \<inter> B \<noteq> {}" by auto
qed

subsection \<open>Membership changes\<close>

lemma ValidProgression_OK:
  assumes "ValidProgressionForLeader leader from to s = OK" "membership_inv from" "membership_inv to"
  shows "voting_replicas to \<noteq> []" "leader \<in> set (voting_replicas to)"
    "card (set (voting_replicas to) - set (voting_replicas from)) +
     card (set (voting_replicas from) - set (voting_replicas to)) \<le> 1"
    "length (voting_replicas from) > s \<longrightarrow> length (voting_replicas to) > s"
  using assms
  by (auto simp: ValidProgressionForLeader_def Let_def SetDiffSize_card length_set_difference
      membership_inv_def split: if_splits)

lemma progression_subset:
  assumes "card (T - F) + card (F - T) \<le> 1" "finite T" "finite F"
  shows "F \<subseteq> T \<and> card T \<le> Suc (card F) \<or> T \<subseteq> F \<and> card F \<le> Suc (card T)"
proof (cases "F \<subseteq> T")
  case True
  then have "card T = card F + card (T - F)" using assms by (simp add: card_Diff_subset card_mono)
  then show ?thesis using True assms by simp
next
  case False
  then have "F - T \<noteq> {}" by auto
  then have "card (F - T) \<noteq> 0" using assms by simp
  then have "card (T - F) = 0" and 1: "card (F - T) = 1" using assms(1) by linarith+
  then have "T - F = {}" using assms(2) card_eq_0_iff [of "T - F"] by simp
  then have "T \<subseteq> F" by simp
  then have "card F = card T + card (F - T)" using assms by (simp add: card_Diff_subset card_mono)
  then show ?thesis using \<open>T \<subseteq> F\<close> 1 by simp
qed

lemma quorums_of_sizes_inter:
  assumes "finite V" "A \<subseteq> V" "B \<subseteq> V" "card V < card A + card B"
  shows "A \<inter> B \<noteq> {}"
  using card_inter_ge [OF assms(1-3)] assms(4) by auto

lemma nested_quorum_inter:
  assumes "F \<subseteq> T" "finite T" "card T \<le> Suc (card F)" "0 < card F"
    and "quorum_bounds (card F) s" "quorum_bounds (card T) s"
    and "A \<subseteq> F" "B \<subseteq> T" "quorum_size (card F) s \<le> card A" "quorum_size (card T) s \<le> card B"
  shows "A \<inter> B \<noteq> {}"
proof (rule quorums_of_sizes_inter [of T])
  have "card F \<le> card T" using assms by (simp add: card_mono)
  then consider "card T = card F" | "card T = Suc (card F)" using assms by linarith
  then have "card T < quorum_size (card F) s + quorum_size (card T) s"
    using quorum_size_step [of "card F" s] quorum_size_twice [of "card F" s] assms(4-6)
    by cases (auto simp: min_def split: if_splits)
  then show "card T < card A + card B" using assms by linarith
qed (use assms in auto)

lemma progression_quorums_inter:
  assumes "ValidProgressionForLeader leader from to s = OK" "membership_inv from" "membership_inv to"
    and A: "voting_quorum from s A" and B: "voting_quorum to s B"
  shows "A \<inter> B \<noteq> {}"
proof -
  let ?F = "set (voting_replicas from)" and ?T = "set (voting_replicas to)"
  have c: "card ?F = length (voting_replicas from)" "card ?T = length (voting_replicas to)"
    using assms(2,3) by (auto simp: membership_inv_def os_inv_card)
  have pos: "0 < card ?F" "0 < card ?T" using A B by (auto simp: voting_quorum_def card_gt_0_iff)
  have "?F \<subseteq> ?T \<and> card ?T \<le> Suc (card ?F) \<or> ?T \<subseteq> ?F \<and> card ?F \<le> Suc (card ?T)"
    using ValidProgression_OK(3) [OF assms(1-3)] by (intro progression_subset) auto
  then show ?thesis
  proof
    assume "?F \<subseteq> ?T \<and> card ?T \<le> Suc (card ?F)"
    then show ?thesis using A B pos
      by (intro nested_quorum_inter [of ?F ?T s]) (auto simp: voting_quorum_def c)
  next
    assume "?T \<subseteq> ?F \<and> card ?F \<le> Suc (card ?T)"
    then have "B \<inter> A \<noteq> {}" using A B pos
      by (intro nested_quorum_inter [of ?T ?F s]) (auto simp: voting_quorum_def c)
    then show ?thesis by auto
  qed
qed

subsection \<open>Properties\<close>

definition example_membership :: membership where
  "example_membership = \<lparr>all_replicas = map (\<lambda>i. replicate 32 i) [1, 2, 3],
                         voting_replicas = map (\<lambda>i. replicate 32 i) [1, 2, 3]\<rparr>"

definition example_membership_next :: membership where
  "example_membership_next = \<lparr>all_replicas = map (\<lambda>i. replicate 32 i) [1, 2],
                              voting_replicas = map (\<lambda>i. replicate 32 i) [1, 2]\<rparr>"

lemma example_membership_inv: "membership_inv example_membership" "membership_inv example_membership_next"
  by code_simp+



text \<open>C32: a membership change that ValidProgressionForLeader accepts keeps consensus safe across the
  change: every quorum of the old membership shares a voter with every quorum of the new one, the
  leader stays a voter, and a group larger than its super majority stays so.\<close>

theorem membership_change_keeps_quorum_overlap:
  assumes "ValidProgressionForLeader leader from to s = OK"
    and "membership_inv from" "membership_inv to"
    and "voting_quorum from s A" "voting_quorum to s B"
  shows "A \<inter> B \<noteq> {} \<and> leader \<in> set (voting_replicas to) \<and>
    (s < length (voting_replicas from) \<longrightarrow> s < length (voting_replicas to))"
  using progression_quorums_inter [OF assms] ValidProgression_OK [OF assms(1-3)] by blast

theorem membership_change_keeps_quorum_overlap_witness:
  "ValidProgressionForLeader (replicate 32 1) example_membership example_membership_next 0 = OK \<and>
   {replicate 32 1, replicate 32 3} \<inter> {replicate 32 1, replicate 32 2 :: peer_id} \<noteq> {}"
proof -
  have 1: "ValidProgressionForLeader (replicate 32 1) example_membership example_membership_next 0 = OK"
    by code_simp
  have 2: "voting_quorum example_membership 0 {replicate 32 1, replicate 32 3}"
    "voting_quorum example_membership_next 0 {replicate 32 1, replicate 32 2}"
    by code_simp+
  show ?thesis
    using membership_change_keeps_quorum_overlap [OF 1 example_membership_inv 2] 1 by blast
qed

end
