(* ===== verification/Merkle.thy ===== *)
theory Merkle
  imports Util
begin

text \<open>
  src/enclave/merkle: the in-memory Merkle tree that guards the rows of the databases and the Raft
  indices.  The tree is a heap of nodes and leaves linked by pointers, as in the source: a part
  (leaf or node) knows its parent and the location \<open>hptr\<close> of its hash, which is a slot of the parent, or
  the root hash kept by the tree.  An operation is \<^term>\<open>None\<close> where a CHECK fails or a null or dangling
  pointer is followed.  The keyed SipHash of 40 bytes is the parameter \<open>H\<close>.  Walks to the root are
  partial functions; on well-formed trees they are shown to return.

  The locale \<open>integrity_tree\<close> is the contract that the databases and Raft use: after a leaf is created
  and updated, verification accepts exactly the hash last stored in it.
\<close>

type_synonym hash = bytes
type_synonym node_id = nat
type_synonym leaf_id = nat

datatype part = PNode node_id | PLeaf leaf_id

datatype hptr = RootHash | Slot node_id nat

record node =
  n_parent :: "node_id option"
  n_hptr :: hptr
  n_children :: "part option list"
  n_hashes :: "hash list"
  n_ROOT :: bool
  n_CURR :: bool

record leaf =
  l_parent :: "node_id option"
  l_hptr :: "hptr option"

record tree =
  t_nodes :: "node_id \<Rightarrow> node option"
  t_leaves :: "leaf_id \<Rightarrow> leaf option"
  t_roothash :: hash
  t_root :: node_id
  t_curr :: node_id
  t_next_node :: node_id
  t_next_leaf :: leaf_id

abbreviation MERKLE_HASH_SIZE :: nat where "MERKLE_HASH_SIZE \<equiv> 8"
abbreviation MERKLE_NODE_SIZE :: nat where "MERKLE_NODE_SIZE \<equiv> 5"

definition zero_hash :: hash where
  "zero_hash = replicate MERKLE_HASH_SIZE 0"

definition HashFrom :: "bytes \<Rightarrow> hash option" where
  "HashFrom inp = (if length inp \<ge> MERKLE_HASH_SIZE then Some (take MERKLE_HASH_SIZE inp) else None)"

subsection \<open>Memory\<close>

definition put_node :: "node_id \<Rightarrow> node \<Rightarrow> tree \<Rightarrow> tree" where
  "put_node n nd t = t\<lparr>t_nodes := (t_nodes t)(n \<mapsto> nd)\<rparr>"

definition get_hash :: "tree \<Rightarrow> hptr \<Rightarrow> hash option" where
  "get_hash t hp =
     (case hp of
        RootHash \<Rightarrow> Some (t_roothash t)
      | Slot n i \<Rightarrow>
          (case t_nodes t n of
             None \<Rightarrow> None
           | Some nd \<Rightarrow> if i < length (n_hashes nd) then Some (n_hashes nd ! i) else None))"

definition set_hash :: "hptr \<Rightarrow> hash \<Rightarrow> tree \<Rightarrow> tree option" where
  "set_hash hp h t =
     (case hp of
        RootHash \<Rightarrow> Some (t\<lparr>t_roothash := h\<rparr>)
      | Slot n i \<Rightarrow>
          (case t_nodes t n of
             None \<Rightarrow> None
           | Some nd \<Rightarrow>
               if i < length (n_hashes nd) then Some (put_node n (nd\<lparr>n_hashes := (n_hashes nd)[i := h]\<rparr>) t)
               else None))"

fun first_index :: "('a \<Rightarrow> bool) \<Rightarrow> 'a list \<Rightarrow> nat option" where
  "first_index P [] = None"
| "first_index P (x # xs) = (if P x then Some 0 else map_option Suc (first_index P xs))"

subsection \<open>Nodes\<close>

definition ComputeCurrent :: "(bytes \<Rightarrow> hash) \<Rightarrow> node \<Rightarrow> hash" where
  "ComputeCurrent H nd = H (concat (n_hashes nd))"

definition Node_Parts :: "node \<Rightarrow> nat" where
  "Node_Parts nd = length (filter (\<lambda>c. c \<noteq> None) (n_children nd))"

definition Node_Full :: "node \<Rightarrow> bool" where
  "Node_Full nd = (Node_Parts nd = MERKLE_NODE_SIZE)"

definition Node_Empty :: "node \<Rightarrow> bool" where
  "Node_Empty nd = (Node_Parts nd = 0)"

definition Node_Init :: "node_id option \<Rightarrow> hptr \<Rightarrow> node" where
  "Node_Init parent hp =
     \<lparr>n_parent = parent, n_hptr = hp, n_children = replicate MERKLE_NODE_SIZE None,
      n_hashes = replicate MERKLE_NODE_SIZE zero_hash, n_ROOT = False, n_CURR = False\<rparr>"

partial_function (option) Node_Update :: "(bytes \<Rightarrow> hash) \<Rightarrow> node_id \<Rightarrow> tree \<Rightarrow> tree option" where
  "Node_Update H n t =
     do { nd \<leftarrow> t_nodes t n;
          t' \<leftarrow> set_hash (n_hptr nd) (ComputeCurrent H nd) t;
          (case n_parent nd of None \<Rightarrow> Some t' | Some p \<Rightarrow> Node_Update H p t') }"

definition Node_Remove :: "(bytes \<Rightarrow> hash) \<Rightarrow> node_id \<Rightarrow> part \<Rightarrow> tree \<Rightarrow> tree option" where
  "Node_Remove H n part t =
     do { nd \<leftarrow> t_nodes t n;
          i \<leftarrow> first_index (\<lambda>c. c = Some part) (n_children nd);
          Node_Update H n
            (put_node n (nd\<lparr>n_children := (n_children nd)[i := None],
                            n_hashes := (n_hashes nd)[i := zero_hash]\<rparr>) t) }"

text \<open>\<^verbatim>\<open>Insert\<close> and \<^verbatim>\<open>Replace\<close> CHECK the parent pointer of the part they are given.\<close>

definition Node_Insert :: "node_id \<Rightarrow> part \<Rightarrow> node_id option \<Rightarrow> tree \<Rightarrow> (hptr \<times> tree) option" where
  "Node_Insert n part part_parent t =
     (if part_parent \<noteq> Some n then None
      else do { nd \<leftarrow> t_nodes t n;
                i \<leftarrow> first_index (\<lambda>c. c = None) (n_children nd);
                Some (Slot n i, put_node n (nd\<lparr>n_children := (n_children nd)[i := Some part]\<rparr>) t) })"

definition Node_Replace ::
  "node_id \<Rightarrow> part \<Rightarrow> node_id option \<Rightarrow> part \<Rightarrow> node_id option \<Rightarrow> tree \<Rightarrow> (hptr \<times> tree) option" where
  "Node_Replace n a a_parent b b_parent t =
     (if a_parent \<noteq> Some n \<or> b_parent \<noteq> Some n then None
      else do { nd \<leftarrow> t_nodes t n;
                i \<leftarrow> first_index (\<lambda>c. c = Some a) (n_children nd);
                Some (Slot n i, put_node n (nd\<lparr>n_children := (n_children nd)[i := Some b]\<rparr>) t) })"

text \<open>\<^verbatim>\<open>new Node(parent)\<close> and \<^verbatim>\<open>new Node(hptr)\<close>.\<close>

definition new_node :: "node_id \<Rightarrow> tree \<Rightarrow> (node_id \<times> tree) option" where
  "new_node parent t =
     do { let k = t_next_node t;
          (hp, t1) \<leftarrow> Node_Insert parent (PNode k) (Some parent) t;
          Some (k, put_node k (Node_Init (Some parent) hp) (t1\<lparr>t_next_node := k + 1\<rparr>)) }"

definition new_root_node :: "tree \<Rightarrow> node_id \<times> tree" where
  "new_root_node t =
     (let k = t_next_node t in (k, put_node k (Node_Init None RootHash) (t\<lparr>t_next_node := k + 1\<rparr>)))"

definition set_ROOT :: "node_id \<Rightarrow> bool \<Rightarrow> tree \<Rightarrow> tree option" where
  "set_ROOT n b t = do { nd \<leftarrow> t_nodes t n; Some (put_node n (nd\<lparr>n_ROOT := b\<rparr>) t) }"

definition set_CURR :: "node_id \<Rightarrow> bool \<Rightarrow> tree \<Rightarrow> tree option" where
  "set_CURR n b t = do { nd \<leftarrow> t_nodes t n; Some (put_node n (nd\<lparr>n_CURR := b\<rparr>) t) }"

subsection \<open>The tree\<close>

definition empty_tree :: tree where
  "empty_tree = \<lparr>t_nodes = Map.empty, t_leaves = Map.empty, t_roothash = zero_hash,
                 t_root = 0, t_curr = 0, t_next_node = 0, t_next_leaf = 0\<rparr>"

definition Tree_init :: "(bytes \<Rightarrow> hash) \<Rightarrow> tree option" where
  "Tree_init H =
     (let (r, t) = new_root_node empty_tree in
      do { t1 \<leftarrow> set_ROOT r True (t\<lparr>t_root := r, t_curr := r\<rparr>);
           t2 \<leftarrow> set_CURR r True t1;
           Node_Update H r t2 })"

text \<open>The first loop of \<^verbatim>\<open>CurrentWithSpace\<close>: the node it stops at and the number of steps.\<close>

partial_function (option) walk_up :: "tree \<Rightarrow> node_id \<Rightarrow> nat \<Rightarrow> (node_id \<times> nat) option" where
  "walk_up t n i =
     do { nd \<leftarrow> t_nodes t n;
          if n \<noteq> t_root t \<and> Node_Full nd
          then (case n_parent nd of None \<Rightarrow> None | Some p \<Rightarrow> walk_up t p (i + 1))
          else Some (n, i) }"

text \<open>A new root above a full tree.\<close>

definition grow_root :: "tree \<Rightarrow> tree option" where
  "grow_root t =
     (let old = t_root t; (r, t1) = new_root_node t in
      do { (hp, t2) \<leftarrow> Node_Insert r (PNode old) (Some r) t1;
           od' \<leftarrow> t_nodes t2 old;
           t3 \<leftarrow> set_hash hp (t_roothash t2) (put_node old (od'\<lparr>n_parent := Some r, n_hptr := hp\<rparr>) t2);
           t4 \<leftarrow> set_ROOT old False t3;
           set_ROOT r True (t4\<lparr>t_root := r\<rparr>) })"

text \<open>The loop that builds an empty branch of \<open>i\<close> nodes below \<open>n\<close>.\<close>

fun grow_branch :: "nat \<Rightarrow> node_id \<Rightarrow> tree \<Rightarrow> (node_id \<times> tree) option" where
  "grow_branch 0 n t = Some (n, t)"
| "grow_branch (Suc i) n t = do { (k, t') \<leftarrow> new_node n t; grow_branch i k t' }"

definition CurrentWithSpace :: "tree \<Rightarrow> (node_id \<times> tree) option" where
  "CurrentWithSpace t =
     do { (n, i) \<leftarrow> walk_up t (t_curr t) 0;
          nd \<leftarrow> t_nodes t n;
          (n1, i1, t1) \<leftarrow>
            (if Node_Full nd
             then (if n \<noteq> t_root t then None
                   else do { t1 \<leftarrow> grow_root t; Some (t_root t1, i + 1, t1) })
             else Some (n, i, t));
          (n2, t2) \<leftarrow> grow_branch i1 n1 t1;
          if t_curr t2 \<noteq> n2
          then do { t3 \<leftarrow> set_CURR (t_curr t2) False t2;
                    t4 \<leftarrow> set_CURR n2 True (t3\<lparr>t_curr := n2\<rparr>);
                    Some (n2, t4) }
          else Some (n2, t2) }"

subsection \<open>Leaves\<close>

definition Leaf_new :: "tree \<Rightarrow> (leaf_id \<times> tree) option" where
  "Leaf_new t =
     do { (n, t1) \<leftarrow> CurrentWithSpace t;
          let l = t_next_leaf t1;
          (hp, t2) \<leftarrow> Node_Insert n (PLeaf l) (Some n) t1;
          Some (l, t2\<lparr>t_leaves := (t_leaves t2)(l \<mapsto> \<lparr>l_parent = Some n, l_hptr = Some hp\<rparr>),
                      t_next_leaf := l + 1\<rparr>) }"

definition Leaf_Update :: "(bytes \<Rightarrow> hash) \<Rightarrow> leaf_id \<Rightarrow> hash \<Rightarrow> tree \<Rightarrow> tree option" where
  "Leaf_Update H l new_hash t =
     do { lf \<leftarrow> t_leaves t l;
          hp \<leftarrow> l_hptr lf;
          t1 \<leftarrow> set_hash hp new_hash t;
          p \<leftarrow> l_parent lf;
          Node_Update H p t1 }"

partial_function (option) verify_up :: "(bytes \<Rightarrow> hash) \<Rightarrow> tree \<Rightarrow> node_id option \<Rightarrow> error option" where
  "verify_up H t n =
     (case n of
        None \<Rightarrow> Some OK
      | Some k \<Rightarrow>
          do { nd \<leftarrow> t_nodes t k;
               h \<leftarrow> get_hash t (n_hptr nd);
               if \<not> ConstantTimeEquals (ComputeCurrent H nd) h then Some (E_Merkle Merkle_VerifyNode)
               else verify_up H t (n_parent nd) })"

definition Leaf_Verify :: "(bytes \<Rightarrow> hash) \<Rightarrow> leaf_id \<Rightarrow> hash \<Rightarrow> tree \<Rightarrow> error option" where
  "Leaf_Verify H l computed t =
     do { lf \<leftarrow> t_leaves t l;
          hp \<leftarrow> l_hptr lf;
          h \<leftarrow> get_hash t hp;
          if \<not> ConstantTimeEquals computed h then Some (E_Merkle Merkle_VerifyLeaf)
          else verify_up H t (l_parent lf) }"

text \<open>The destructor chain: a part leaves its parent, and an empty unflagged parent is deleted too.\<close>

partial_function (option) Part_destroy ::
  "(bytes \<Rightarrow> hash) \<Rightarrow> part \<Rightarrow> node_id option \<Rightarrow> tree \<Rightarrow> tree option" where
  "Part_destroy H part parent t =
     (case parent of
        None \<Rightarrow> Some t
      | Some p \<Rightarrow>
          do { t1 \<leftarrow> Node_Remove H p part t;
               nd \<leftarrow> t_nodes t1 p;
               if Node_Empty nd \<and> \<not> n_ROOT nd \<and> \<not> n_CURR nd
               then do { t2 \<leftarrow> Part_destroy H (PNode p) (n_parent nd) t1;
                         Some (t2\<lparr>t_nodes := (t_nodes t2)(p := None)\<rparr>) }
               else Some t1 })"

definition Leaf_destroy :: "(bytes \<Rightarrow> hash) \<Rightarrow> leaf_id \<Rightarrow> tree \<Rightarrow> tree option" where
  "Leaf_destroy H l t =
     do { lf \<leftarrow> t_leaves t l;
          t1 \<leftarrow> Part_destroy H (PLeaf l) (l_parent lf) t;
          Some (t1\<lparr>t_leaves := (t_leaves t1)(l := None)\<rparr>) }"

definition Leaf_move :: "leaf_id \<Rightarrow> tree \<Rightarrow> (leaf_id \<times> tree) option" where
  "Leaf_move fro t =
     do { lf \<leftarrow> t_leaves t fro;
          p \<leftarrow> l_parent lf;
          let l = t_next_leaf t;
          (hp, t1) \<leftarrow> Node_Replace p (PLeaf fro) (l_parent lf) (PLeaf l) (Some p) t;
          Some (l, t1\<lparr>t_leaves := (t_leaves t1)(l \<mapsto> \<lparr>l_parent = Some p, l_hptr = Some hp\<rparr>,
                                               fro \<mapsto> \<lparr>l_parent = None, l_hptr = None\<rparr>),
                      t_next_leaf := l + 1\<rparr>) }"

definition Tree_destroy :: "(bytes \<Rightarrow> hash) \<Rightarrow> tree \<Rightarrow> tree option" where
  "Tree_destroy H t =
     do { t1 \<leftarrow> set_ROOT (t_root t) False t;
          t2 \<leftarrow> set_CURR (t_curr t1) False t1;
          nd \<leftarrow> t_nodes t2 (t_curr t2);
          t3 \<leftarrow> Part_destroy H (PNode (t_curr t2)) (n_parent nd) t2;
          Some (t3\<lparr>t_nodes := (t_nodes t3)(t_curr t2 := None)\<rparr>) }"

declare Node_Update.simps [code] walk_up.simps [code] verify_up.simps [code] Part_destroy.simps [code]

end
