(* ===== verification/MerkleInv.thy ===== *)
theory MerkleInv
  imports Merkle
begin

text \<open>
  Well-formedness of the Merkle tree heap and correctness of its operations.  \<open>wf lv t\<close> says that the
  pointers of \<open>t\<close> form a tree whose nodes have the levels \<open>lv\<close> (leaves hang under level 0, the root is the
  highest), that empty slots hold the zero hash and that the flags mark \<open>root_\<close> and \<open>curr_\<close>.  \<open>pend\<close> adds
  that every stored hash is the hash of its node, except above leaves that were created and not yet
  updated.  Levels bound every walk towards the root.
\<close>

subsection \<open>Well-formedness\<close>

definition child_at :: "tree \<Rightarrow> hptr \<Rightarrow> part option" where
  "child_at t hp =
     (case hp of
        RootHash \<Rightarrow> None
      | Slot n i \<Rightarrow>
          (case t_nodes t n of
             None \<Rightarrow> None
           | Some nd \<Rightarrow> if i < length (n_children nd) then n_children nd ! i else None))"

definition pedge :: "tree \<Rightarrow> (node_id \<times> node_id) set" where
  "pedge t = {(n, p). \<exists>nd. t_nodes t n = Some nd \<and> n_parent nd = Some p}"

definition node_ok :: "(node_id \<Rightarrow> nat) \<Rightarrow> tree \<Rightarrow> node_id \<Rightarrow> node \<Rightarrow> bool" where
  "node_ok lv t n nd \<longleftrightarrow>
     length (n_children nd) = 5 \<and> length (n_hashes nd) = 5 \<and> lv n \<le> lv (t_root t) \<and>
     n < t_next_node t \<and> (n_ROOT nd = (n = t_root t)) \<and> (n_CURR nd = (n = t_curr t)) \<and>
     (\<forall>i < 5. n_children nd ! i = None \<longrightarrow> n_hashes nd ! i = zero_hash) \<and>
     (if n = t_root t then n_parent nd = None \<and> n_hptr nd = RootHash
      else \<exists>p i. n_parent nd = Some p \<and> n_hptr nd = Slot p i \<and>
             child_at t (Slot p i) = Some (PNode n) \<and> lv p = Suc (lv n))"

definition leaf_ok :: "(node_id \<Rightarrow> nat) \<Rightarrow> tree \<Rightarrow> leaf_id \<Rightarrow> leaf \<Rightarrow> bool" where
  "leaf_ok lv t l lf \<longleftrightarrow>
     l < t_next_leaf t \<and>
     (l_parent lf = None \<and> l_hptr lf = None \<or>
      (\<exists>p i. l_parent lf = Some p \<and> l_hptr lf = Some (Slot p i) \<and>
         child_at t (Slot p i) = Some (PLeaf l) \<and> lv p = 0))"

definition child_ok :: "tree \<Rightarrow> hptr \<Rightarrow> part \<Rightarrow> bool" where
  "child_ok t hp c \<longleftrightarrow>
     (case c of
        PNode n \<Rightarrow> \<exists>nd. t_nodes t n = Some nd \<and> n_hptr nd = hp
      | PLeaf l \<Rightarrow> \<exists>lf. t_leaves t l = Some lf \<and> l_hptr lf = Some hp)"

definition wf :: "(node_id \<Rightarrow> nat) \<Rightarrow> tree \<Rightarrow> bool" where
  "wf lv t \<longleftrightarrow>
     (\<forall>n nd. t_nodes t n = Some nd \<longrightarrow> node_ok lv t n nd) \<and>
     (\<forall>l lf. t_leaves t l = Some lf \<longrightarrow> leaf_ok lv t l lf) \<and>
     (\<forall>hp c. child_at t hp = Some c \<longrightarrow> child_ok t hp c) \<and>
     t_nodes t (t_root t) \<noteq> None \<and> t_nodes t (t_curr t) \<noteq> None \<and> lv (t_curr t) = 0"

lemma wfD_node: "wf lv t \<Longrightarrow> t_nodes t n = Some nd \<Longrightarrow> node_ok lv t n nd"
  by (simp add: wf_def)

lemma wfD_leaf: "wf lv t \<Longrightarrow> t_leaves t l = Some lf \<Longrightarrow> leaf_ok lv t l lf"
  by (simp add: wf_def)

lemma wfD_child: "wf lv t \<Longrightarrow> child_at t hp = Some c \<Longrightarrow> child_ok t hp c"
  by (simp add: wf_def)

lemma child_at_dom: "child_at t (Slot p i) = Some c \<Longrightarrow> \<exists>pd. t_nodes t p = Some pd \<and> i < length (n_children pd)"
  by (auto simp: child_at_def split: option.splits if_splits)

lemma wf_lengths:
  "wf lv t \<Longrightarrow> t_nodes t n = Some nd \<Longrightarrow> length (n_children nd) = 5 \<and> length (n_hashes nd) = 5"
  using wfD_node [of lv t n nd] by (simp add: node_ok_def)

lemma wf_level: "wf lv t \<Longrightarrow> t_nodes t n = Some nd \<Longrightarrow> lv n \<le> lv (t_root t)"
  using wfD_node [of lv t n nd] by (simp add: node_ok_def)

lemma wf_nonroot:
  assumes "wf lv t" "t_nodes t n = Some nd" "n \<noteq> t_root t"
  obtains p i pd where "n_parent nd = Some p" "n_hptr nd = Slot p i" "child_at t (Slot p i) = Some (PNode n)"
    "lv p = Suc (lv n)" "t_nodes t p = Some pd" "i < 5" "p \<noteq> n"
proof -
  obtain p i where *: "n_parent nd = Some p" "n_hptr nd = Slot p i"
    "child_at t (Slot p i) = Some (PNode n)" "lv p = Suc (lv n)"
    using wfD_node [OF assms(1,2)] assms(3) by (auto simp: node_ok_def)
  moreover obtain pd where "t_nodes t p = Some pd" "i < length (n_children pd)"
    using child_at_dom *(3) by blast
  moreover have "p \<noteq> n" using *(4) by auto
  ultimately show thesis using that [of p i pd] wf_lengths [OF assms(1), of p pd] by simp
qed

lemma wf_root:
  assumes "wf lv t" "t_nodes t (t_root t) = Some nd"
  shows "n_parent nd = None" "n_hptr nd = RootHash"
  using wfD_node [OF assms] by (auto simp: node_ok_def)

lemma wf_hptr_inj:
  assumes "wf lv t" "t_nodes t n = Some nd" "t_nodes t m = Some md" "n_hptr nd = n_hptr md"
  shows "n = m"
proof (cases "n = t_root t \<or> m = t_root t")
  case True
  then show ?thesis using assms wf_root [OF assms(1)]
    by (metis hptr.distinct(1) wf_nonroot)
next
  case False
  then show ?thesis
    using wf_nonroot [OF assms(1,2)] wf_nonroot [OF assms(1,3)] assms(4)
    by (metis hptr.inject option.inject part.inject(1))
qed

lemma wf_leaf_hptr:
  assumes "wf lv t" "t_leaves t l = Some lf" "l_hptr lf = Some hp"
  obtains p i pd where "l_parent lf = Some p" "hp = Slot p i" "child_at t (Slot p i) = Some (PLeaf l)"
    "lv p = 0" "t_nodes t p = Some pd" "i < 5"
proof -
  obtain p i where *: "l_parent lf = Some p" "hp = Slot p i"
    "child_at t (Slot p i) = Some (PLeaf l)" "lv p = 0"
    using wfD_leaf [OF assms(1,2)] assms(3) by (auto simp: leaf_ok_def)
  moreover obtain pd where "t_nodes t p = Some pd" "i < length (n_children pd)"
    using child_at_dom *(3) by blast
  ultimately show thesis using that [of p i pd] wf_lengths [OF assms(1), of p pd] by simp
qed

subsection \<open>Writing a hash\<close>

lemma put_node_simps [simp]:
  "t_nodes (put_node n nd t) = (t_nodes t)(n \<mapsto> nd)"
  "t_leaves (put_node n nd t) = t_leaves t" "t_roothash (put_node n nd t) = t_roothash t"
  "t_root (put_node n nd t) = t_root t" "t_curr (put_node n nd t) = t_curr t"
  "t_next_node (put_node n nd t) = t_next_node t" "t_next_leaf (put_node n nd t) = t_next_leaf t"
  by (simp_all add: put_node_def)

definition hash_frame :: "tree \<Rightarrow> tree \<Rightarrow> bool" where
  "hash_frame t t' \<longleftrightarrow>
     t_leaves t' = t_leaves t \<and> t_root t' = t_root t \<and> t_curr t' = t_curr t \<and>
     t_next_node t' = t_next_node t \<and> t_next_leaf t' = t_next_leaf t \<and> child_at t' = child_at t \<and>
     pedge t' = pedge t \<and>
     (\<forall>n. map_option (\<lambda>nd. nd\<lparr>n_hashes := []\<rparr>) (t_nodes t' n) =
          map_option (\<lambda>nd. nd\<lparr>n_hashes := []\<rparr>) (t_nodes t n))"

lemma hash_frame_refl [simp]: "hash_frame t t"
  by (simp add: hash_frame_def)

lemma hash_frame_trans: "hash_frame t u \<Longrightarrow> hash_frame u v \<Longrightarrow> hash_frame t v"
  by (auto simp: hash_frame_def)

lemma hash_frame_node:
  assumes "hash_frame t t'" "t_nodes t n = Some nd"
  obtains nd' where "t_nodes t' n = Some nd'" "n_parent nd' = n_parent nd" "n_hptr nd' = n_hptr nd"
    "n_children nd' = n_children nd" "n_ROOT nd' = n_ROOT nd" "n_CURR nd' = n_CURR nd"
proof -
  have "map_option (\<lambda>nd. nd\<lparr>n_hashes := []\<rparr>) (t_nodes t' n) = Some (nd\<lparr>n_hashes := []\<rparr>)"
    using assms by (simp add: hash_frame_def)
  then obtain nd' where "t_nodes t' n = Some nd'" "nd'\<lparr>n_hashes := []\<rparr> = nd\<lparr>n_hashes := []\<rparr>" by auto
  then show thesis using that by (cases nd; cases nd') auto
qed

lemma hash_frame_fields:
  assumes "hash_frame t t'" "t_nodes t n = Some nd" "t_nodes t' n = Some nd'"
  shows "n_hptr nd' = n_hptr nd" "n_parent nd' = n_parent nd" "n_children nd' = n_children nd"
    "n_ROOT nd' = n_ROOT nd" "n_CURR nd' = n_CURR nd"
  using hash_frame_node [OF assms(1,2)] assms(3) by (metis option.inject)+

lemma hash_frame_dom: "hash_frame t t' \<Longrightarrow> t_nodes t' n = None \<longleftrightarrow> t_nodes t n = None"
  by (metis (no_types, lifting) hash_frame_def map_option_is_None)

lemma set_hash_effect:
  assumes "set_hash hp h t = Some t'"
  shows "hash_frame t t'" "get_hash t' = (get_hash t)(hp \<mapsto> h)"
    "\<And>n. \<forall>i. hp \<noteq> Slot n i \<Longrightarrow> t_nodes t' n = t_nodes t n"
  using assms
  by (auto simp: set_hash_def hash_frame_def child_at_def get_hash_def pedge_def fun_eq_iff
      split: hptr.splits option.splits if_splits)

lemma set_hash_defined: "get_hash t hp \<noteq> None \<Longrightarrow> \<exists>t'. set_hash hp h t = Some t'"
  by (auto simp: set_hash_def get_hash_def split: hptr.splits option.splits if_splits)

lemma set_hash_hashes:
  assumes "set_hash hp h t = Some t'" "t_nodes t n = Some nd" "t_nodes t' n = Some nd'"
  shows "n_hashes nd' = (case hp of RootHash \<Rightarrow> n_hashes nd
           | Slot m j \<Rightarrow> if m = n then (n_hashes nd)[j := h] else n_hashes nd)"
  using assms by (auto simp: set_hash_def split: hptr.splits option.splits if_splits)

lemma set_hash_wf:
  assumes wf: "wf lv t" and s: "set_hash hp h t = Some t'"
    and hp: "hp = RootHash \<or> child_at t hp \<noteq> None"
  shows "wf lv t'"
proof -
  note fr = set_hash_effect(1) [OF s]
  have "node_ok lv t' n nd'" if n: "t_nodes t' n = Some nd'" for n nd'
  proof -
    obtain nd where nd: "t_nodes t n = Some nd" using hash_frame_dom [OF fr, of n] n by fastforce
    then have ok: "node_ok lv t n nd" using wf by (simp add: wfD_node)
    have eq: "n_parent nd' = n_parent nd" "n_hptr nd' = n_hptr nd" "n_children nd' = n_children nd"
        "n_ROOT nd' = n_ROOT nd" "n_CURR nd' = n_CURR nd"
      using hash_frame_node [OF fr nd] n by auto
    have "length (n_hashes nd') = 5 \<and> (\<forall>i < 5. n_children nd' ! i = None \<longrightarrow> n_hashes nd' ! i = zero_hash)"
    proof (cases hp)
      case (Slot m j)
      then have "m = n \<Longrightarrow> j < 5 \<and> n_children nd ! j \<noteq> None"
        using hp nd ok by (auto simp: child_at_def node_ok_def split: if_splits)
      then show ?thesis
        using set_hash_hashes [OF s nd n] Slot ok eq(3) by (auto simp: node_ok_def nth_list_update)
    qed (use set_hash_hashes [OF s nd n] ok eq(3) in \<open>simp add: node_ok_def\<close>)
    then show ?thesis using ok fr eq by (cases "n = t_root t") (simp_all add: node_ok_def hash_frame_def)
  qed
  moreover have "leaf_ok lv t' l lf" if "t_leaves t' l = Some lf" for l lf
    using wfD_leaf [OF wf, of l lf] that fr by (simp add: leaf_ok_def hash_frame_def)
  moreover have "child_ok t' hp c" if "child_at t' hp = Some c" for hp c
  proof -
    have "child_ok t hp c" using wfD_child [OF wf] that fr by (simp add: hash_frame_def)
    then show ?thesis using fr
      by (auto simp: child_ok_def hash_frame_def split: part.splits) (metis fr hash_frame_node)
  qed
  ultimately show ?thesis using wf fr hash_frame_dom [OF fr] by (simp add: wf_def hash_frame_def)
qed

lemma wf_hash_at:
  assumes "wf lv t" "child_at t hp = Some c"
  shows "get_hash t hp \<noteq> None"
  using assms wfD_node [OF assms(1)]
  by (auto simp: child_at_def get_hash_def node_ok_def split: hptr.splits option.splits if_splits)

lemma wf_node_hash:
  assumes "wf lv t" "t_nodes t n = Some nd"
  shows "get_hash t (n_hptr nd) \<noteq> None" "n_hptr nd = RootHash \<or> child_at t (n_hptr nd) \<noteq> None"
proof -
  have "n_hptr nd = RootHash \<or> child_at t (n_hptr nd) = Some (PNode n)"
    using wfD_node [OF assms] by (auto simp: node_ok_def split: if_splits)
  then show "n_hptr nd = RootHash \<or> child_at t (n_hptr nd) \<noteq> None" "get_hash t (n_hptr nd) \<noteq> None"
    using wf_hash_at [OF assms(1)] by (auto simp: get_hash_def)
qed

subsection \<open>Updating towards the root\<close>

definition node_valid :: "(bytes \<Rightarrow> hash) \<Rightarrow> tree \<Rightarrow> node_id \<Rightarrow> bool" where
  "node_valid H t n \<longleftrightarrow>
     (\<forall>nd. t_nodes t n = Some nd \<longrightarrow> get_hash t (n_hptr nd) = Some (ComputeCurrent H nd))"

lemma update_one:
  assumes wf: "wf lv t" and n: "t_nodes t n = Some nd"
    and s: "set_hash (n_hptr nd) (ComputeCurrent H nd) t = Some t1"
  shows "node_valid H t1 n" "node_valid H t m \<Longrightarrow> n_parent nd \<noteq> Some m \<Longrightarrow> node_valid H t1 m"
proof -
  have hp: "n_hptr nd \<noteq> Slot m i" if "n_parent nd \<noteq> Some m" for m i
    using that wf n by (cases "n = t_root t") (auto dest: wf_root [OF wf] elim: wf_nonroot)
  have "n_parent nd \<noteq> Some n"
    using wf n by (cases "n = t_root t") (auto dest: wf_root [OF wf] elim!: wf_nonroot)
  then have "t_nodes t1 n = t_nodes t n" using set_hash_effect(3) [OF s] hp by blast
  then show "node_valid H t1 n" using n set_hash_effect(2) [OF s] by (simp add: node_valid_def)
  show "node_valid H t1 m" if "node_valid H t m" "n_parent nd \<noteq> Some m"
  proof (cases "m = n")
    case False
    have "t_nodes t1 m = t_nodes t m" using set_hash_effect(3) [OF s] hp that(2) by blast
    moreover have "n_hptr md \<noteq> n_hptr nd" if "t_nodes t m = Some md" for md
      using wf_hptr_inj [OF wf that n] False by blast
    ultimately show ?thesis using that(1) set_hash_effect(2) [OF s] by (auto simp: node_valid_def)
  qed (simp add: \<open>node_valid H t1 n\<close>)
qed

definition node_hptrs :: "tree \<Rightarrow> hptr set" where
  "node_hptrs t = {hp. \<exists>n. map_option n_hptr (t_nodes t n) = Some hp}"

lemma hash_frame_node_hptrs:
  assumes "hash_frame t t'"
  shows "node_hptrs t' = node_hptrs t"
proof -
  have erase: "map_option n_hptr x = map_option n_hptr (map_option (\<lambda>nd. nd\<lparr>n_hashes := []\<rparr>) x)" for x
    by (cases x) simp_all
  have "map_option n_hptr (t_nodes t' n) = map_option n_hptr (t_nodes t n)" for n
    using assms erase [of "t_nodes t' n"] erase [of "t_nodes t n"] by (simp add: hash_frame_def)
  then show ?thesis by (simp add: node_hptrs_def)
qed

definition update_post :: "(bytes \<Rightarrow> hash) \<Rightarrow> (node_id \<Rightarrow> nat) \<Rightarrow> node_id \<Rightarrow> tree \<Rightarrow> tree \<Rightarrow> bool" where
  "update_post H lv n t t' \<longleftrightarrow> wf lv t' \<and> hash_frame t t' \<and>
     (\<forall>m. (n, m) \<in> (pedge t)\<^sup>* \<or> node_valid H t m \<longrightarrow> node_valid H t' m) \<and>
     (\<forall>hp. hp \<notin> node_hptrs t \<longrightarrow> get_hash t' hp = get_hash t hp)"

lemma Node_Update_spec:
  assumes "wf lv t" "t_nodes t n \<noteq> None"
  shows "\<exists>t'. Node_Update H n t = Some t' \<and> update_post H lv n t t'"
  using assms
proof (induction "lv (t_root t) - lv n" arbitrary: n t rule: less_induct)
  case less
  obtain nd where n: "t_nodes t n = Some nd" using less.prems by auto
  obtain t1 where s: "set_hash (n_hptr nd) (ComputeCurrent H nd) t = Some t1"
    using wf_node_hash(1) [OF less.prems(1) n] set_hash_defined by blast
  have wf1: "wf lv t1" using set_hash_wf [OF less.prems(1) s] wf_node_hash(2) [OF less.prems(1) n] .
  note fr = set_hash_effect(1) [OF s] and one = update_one [OF less.prems(1) n s]
  have gh: "get_hash t1 hp = get_hash t hp" if "hp \<notin> node_hptrs t" for hp
    using that n set_hash_effect(2) [OF s] by (auto simp: node_hptrs_def)
  show ?case
  proof (cases "n = t_root t")
    case True
    then have par: "n_parent nd = None" using wf_root less.prems(1) n by blast
    then have "(n, m) \<in> (pedge t)\<^sup>* \<longleftrightarrow> m = n" for m
      using n by (auto simp: pedge_def elim: converse_rtranclE)
    then have "update_post H lv n t t1" using wf1 fr one par gh by (auto simp: update_post_def)
    then show ?thesis using n s par by (subst Node_Update.simps) simp
  next
    case False
    obtain p where p: "n_parent nd = Some p" "lv p = Suc (lv n)" "t_nodes t p \<noteq> None"
      using wf_nonroot [OF less.prems(1) n False] by (metis option.distinct(1))
    then obtain pd where "t_nodes t p = Some pd" by auto
    then have le: "lv p \<le> lv (t_root t)" by (rule wf_level [OF less.prems(1)])
    have r: "t_root t1 = t_root t" "t_nodes t1 p \<noteq> None" "pedge t1 = pedge t"
      using fr p(3) hash_frame_dom [OF fr] by (auto simp: hash_frame_def)
    have "lv (t_root t1) - lv p < lv (t_root t) - lv n" using p(2) le r(1) by simp
    with r obtain t' where t': "Node_Update H p t1 = Some t'" "update_post H lv p t1 t'"
      using less.hyps [of t1 p] wf1 by blast
    have "node_valid H t' m" if m: "(n, m) \<in> (pedge t)\<^sup>* \<or> node_valid H t m" for m
    proof (cases "m = n \<or> (p, m) \<in> (pedge t)\<^sup>*")
      case False
      then have "node_valid H t m" using m n p(1) by (auto simp: pedge_def elim: converse_rtranclE)
      moreover have "n_parent nd \<noteq> Some m" using False p(1) by auto
      ultimately show ?thesis using one(2) t'(2) unfolding update_post_def by blast
    qed (use one(1) t'(2) r(3) in \<open>auto simp: update_post_def\<close>)
    then have "update_post H lv n t t'"
      using t'(2) gh hash_frame_trans [OF fr] hash_frame_node_hptrs [OF fr]
      unfolding update_post_def by metis
    then show ?thesis using n s p(1) t'(1) by (subst Node_Update.simps) simp
  qed
qed

lemma verify_up_valid:
  assumes "wf lv t" "\<forall>m. node_valid H t m" "k = None \<or> (\<exists>n. k = Some n \<and> t_nodes t n \<noteq> None)"
  shows "verify_up H t k = Some OK"
proof (cases k)
  case (Some n)
  have "verify_up H t (Some n) = Some OK" if "t_nodes t n \<noteq> None" for n
    using that
  proof (induction "lv (t_root t) - lv n" arbitrary: n rule: less_induct)
    case less
    obtain nd where n: "t_nodes t n = Some nd" using less.prems by auto
    then have h: "get_hash t (n_hptr nd) = Some (ComputeCurrent H nd)"
      using assms(2) by (auto simp: node_valid_def)
    have "verify_up H t (n_parent nd) = Some OK"
    proof (cases "n = t_root t")
      case True
      then have "n_parent nd = None" using wf_root(1) [OF assms(1)] n by blast
      then show ?thesis using verify_up.simps [of H t None] by simp
    next
      case False
      obtain p pd where p: "n_parent nd = Some p" "lv p = Suc (lv n)" "t_nodes t p = Some pd"
        using wf_nonroot [OF assms(1) n False] by metis
      then have "lv p \<le> lv (t_root t)" using wf_level [OF assms(1)] by blast
      then show ?thesis using less.hyps [of p] p by simp
    qed
    then show ?case using n h by (simp add: verify_up.simps [of H t "Some n"])
  qed
  then show ?thesis using assms(3) Some by auto
qed (simp add: verify_up.simps [of H t None])

subsection \<open>Leaves of a well-formed tree\<close>

definition leaf_hptr :: "tree \<Rightarrow> leaf_id \<Rightarrow> hptr option" where
  "leaf_hptr t l = Option.bind (t_leaves t l) l_hptr"

definition leaf_parent :: "tree \<Rightarrow> leaf_id \<Rightarrow> node_id option" where
  "leaf_parent t l = Option.bind (t_leaves t l) l_parent"

definition leaf_hash :: "tree \<Rightarrow> leaf_id \<Rightarrow> hash option" where
  "leaf_hash t l = Option.bind (leaf_hptr t l) (get_hash t)"

definition above :: "tree \<Rightarrow> leaf_id set \<Rightarrow> node_id set" where
  "above t P = {n. \<exists>l \<in> P. \<exists>p. leaf_parent t l = Some p \<and> (p, n) \<in> (pedge t)\<^sup>*}"

definition pend :: "(bytes \<Rightarrow> hash) \<Rightarrow> tree \<Rightarrow> leaf_id set \<Rightarrow> bool" where
  "pend H t P \<longleftrightarrow> (\<exists>lv. wf lv t) \<and> (\<forall>n. n \<notin> above t P \<longrightarrow> node_valid H t n) \<and> P \<subseteq> dom (leaf_hash t)"

lemma leaf_hptr_child:
  assumes "wf lv t" "leaf_hptr t l = Some hp"
  obtains p i pd where "leaf_parent t l = Some p" "hp = Slot p i" "child_at t hp = Some (PLeaf l)"
    "lv p = 0" "t_nodes t p = Some pd" "i < 5"
proof -
  obtain lf where lf: "t_leaves t l = Some lf" "l_hptr lf = Some hp"
    using assms(2) by (auto simp: leaf_hptr_def bind_eq_Some_conv)
  show thesis using wf_leaf_hptr [OF assms(1) lf] that lf by (auto simp: leaf_parent_def)
qed

lemma leaf_hptr_inj: "wf lv t \<Longrightarrow> leaf_hptr t l = Some hp \<Longrightarrow> leaf_hptr t k = Some hp \<Longrightarrow> l = k"
  by (metis leaf_hptr_child option.inject part.inject(2))

lemma node_hptrs_child: "wf lv t \<Longrightarrow> hp \<in> node_hptrs t \<Longrightarrow> hp = RootHash \<or> (\<exists>n. child_at t hp = Some (PNode n))"
  using wfD_node [of lv t] by (fastforce simp: node_hptrs_def node_ok_def split: if_splits)

lemma leaf_hptr_not_node: "wf lv t \<Longrightarrow> leaf_hptr t l = Some hp \<Longrightarrow> hp \<notin> node_hptrs t"
  by (metis hptr.distinct(1) leaf_hptr_child node_hptrs_child option.inject part.distinct(1))

lemma leaf_hash_dom:
  assumes "wf lv t"
  shows "leaf_hash t l = None \<longleftrightarrow> leaf_hptr t l = None"
proof (cases "leaf_hptr t l")
  case (Some hp)
  then have "child_at t hp = Some (PLeaf l)" using leaf_hptr_child [OF assms] by metis
  then show ?thesis using Some wf_hash_at [OF assms] by (simp add: leaf_hash_def)
qed (simp add: leaf_hash_def)

lemma hash_frame_leaves:
  assumes "hash_frame t t'"
  shows "leaf_hptr t' = leaf_hptr t" "leaf_parent t' = leaf_parent t" "above t' = above t"
  using assms by (auto simp: leaf_hptr_def leaf_parent_def above_def hash_frame_def fun_eq_iff)

lemma Leaf_Update_pend:
  assumes "pend H t P" "leaf_hash t l \<noteq> None"
  shows "\<exists>t'. Leaf_Update H l h t = Some t' \<and> pend H t' (P - {l}) \<and> leaf_hash t' = (leaf_hash t)(l \<mapsto> h) \<and>
           hash_frame t t'"
proof -
  obtain lv where wf: "wf lv t" using assms by (auto simp: pend_def)
  obtain hp where hp: "leaf_hptr t l = Some hp" using assms(2) leaf_hash_dom [OF wf, of l] by auto
  obtain p i pd where p: "leaf_parent t l = Some p" "hp = Slot p i" "child_at t hp = Some (PLeaf l)"
    "t_nodes t p = Some pd" using leaf_hptr_child [OF wf hp] by metis
  obtain t1 where s: "set_hash hp h t = Some t1" using set_hash_defined wf_hash_at [OF wf p(3)] by blast
  note fr1 = set_hash_effect(1) [OF s]
  have wf1: "wf lv t1" using set_hash_wf [OF wf s] p(3) by simp
  have "t_nodes t1 p \<noteq> None" using hash_frame_dom [OF fr1, of p] p(4) by simp
  then obtain t' where t': "Node_Update H p t1 = Some t'" "update_post H lv p t1 t'"
    using Node_Update_spec [OF wf1] by blast
  have fr: "hash_frame t t'" using fr1 t'(2) hash_frame_trans by (auto simp: update_post_def)
  have lh: "leaf_hash t' = (leaf_hash t)(l \<mapsto> h)"
  proof
    fix k
    have "get_hash t' q = (if q = hp then Some h else get_hash t q)" if "leaf_hptr t k = Some q" for q
      using leaf_hptr_not_node [OF wf that] t'(2) hash_frame_node_hptrs [OF fr1] set_hash_effect(2) [OF s]
      by (auto simp: update_post_def)
    then show "leaf_hash t' k = ((leaf_hash t)(l \<mapsto> h)) k"
      using hash_frame_leaves(1) [OF fr] hp leaf_hptr_inj [OF wf, of l hp k]
      by (cases "leaf_hptr t k") (auto simp: leaf_hash_def)
  qed
  have "node_valid H t' n" if n: "n \<notin> above t (P - {l})" for n
  proof (cases "(p, n) \<in> (pedge t)\<^sup>*")
    case True
    then show ?thesis using t'(2) fr1 by (auto simp: update_post_def hash_frame_def)
  next
    case False
    then have "n \<notin> above t P" using n p(1) unfolding above_def by fastforce
    then have "node_valid H t n" using assms(1) by (simp add: pend_def)
    moreover have "n \<noteq> p" using False by auto
    then have "t_nodes t1 n = t_nodes t n" using set_hash_effect(3) [OF s] p(2) by auto
    moreover have "n_hptr nd \<noteq> hp" if "t_nodes t n = Some nd" for nd
      using leaf_hptr_not_node [OF wf hp] that by (auto simp: node_hptrs_def)
    ultimately have "node_valid H t1 n" using set_hash_effect(2) [OF s] by (auto simp: node_valid_def)
    then show ?thesis using t'(2) by (auto simp: update_post_def)
  qed
  moreover have "P - {l} \<subseteq> dom (leaf_hash t')" using assms(1) lh by (auto simp: pend_def)
  ultimately have "pend H t' (P - {l})"
    using t'(2) hash_frame_leaves(3) [OF fr] by (auto simp: pend_def update_post_def)
  moreover have "Leaf_Update H l h t = Some t'"
    using hp p(1) s t'(1) by (auto simp: Leaf_Update_def leaf_hptr_def leaf_parent_def bind_eq_Some_conv)
  ultimately show ?thesis using lh fr by blast
qed

lemma Leaf_Verify_pend:
  assumes "pend H t {}" "leaf_hash t l = Some h"
  shows "Leaf_Verify H l c t = Some (if c = h then OK else E_Merkle Merkle_VerifyLeaf)"
proof -
  obtain lv where wf: "wf lv t" using assms by (auto simp: pend_def)
  obtain lf hp where lf: "t_leaves t l = Some lf" "l_hptr lf = Some hp" "get_hash t hp = Some h"
    using assms(2) by (auto simp: leaf_hash_def leaf_hptr_def bind_eq_Some_conv)
  obtain p pd where "l_parent lf = Some p" "t_nodes t p = Some pd" using wf_leaf_hptr [OF wf lf(1,2)] by metis
  then have "verify_up H t (l_parent lf) = Some OK"
    using assms(1) by (intro verify_up_valid [OF wf]) (auto simp: pend_def above_def)
  then show ?thesis using lf by (simp add: Leaf_Verify_def)
qed

end
