(* ===== verification/MerkleOps.thy ===== *)
theory MerkleOps
  imports MerkleInv
begin

text \<open>
  Correctness of the operations that change the shape of the Merkle tree: creation of leaves with the
  growth of the tree it may cause, destruction of leaves with the deletion of emptied nodes, and the
  contract of the tree as the locale \<open>integrity_tree\<close> with its interpretation.
\<close>

subsection \<open>Growing the tree\<close>

lemma first_index_Some: "first_index P xs = Some i \<Longrightarrow> i < length xs \<and> P (xs ! i)"
  by (induction xs arbitrary: i) (auto split: if_splits)

lemma first_index_None: "first_index P xs = None \<longleftrightarrow> (\<forall>x \<in> set xs. \<not> P x)"
  by (induction xs) auto

lemma not_full_slot:
  assumes "\<not> Node_Full nd" "length (n_children nd) = 5"
  obtains i where "first_index (\<lambda>c. c = None) (n_children nd) = Some i" "i < 5" "n_children nd ! i = None"
proof (cases "first_index (\<lambda>c. c = None) (n_children nd)")
  case None
  then have "filter (\<lambda>c. c \<noteq> None) (n_children nd) = n_children nd"
    by (simp add: first_index_None)
  then show thesis using assms by (simp add: Node_Full_def Node_Parts_def)
next
  case (Some i)
  then have "i < 5 \<and> n_children nd ! i = None" using first_index_Some [OF Some] assms(2) by simp
  then show thesis using that [OF Some] by simp
qed

lemma list_update_None: "cs[i := Some c] ! j = None \<Longrightarrow> cs ! j = None"
  by (cases "i = j"; cases "i < length cs") (auto simp: list_update_beyond)

lemma child_at_RootHash [simp]: "child_at t RootHash = None"
  by (simp add: child_at_def)

definition extended :: "(bytes \<Rightarrow> hash) \<Rightarrow> tree \<Rightarrow> tree \<Rightarrow> bool" where
  "extended H t t' \<longleftrightarrow> pedge t \<subseteq> pedge t' \<and> t_leaves t' = t_leaves t \<and> t_next_leaf t' = t_next_leaf t \<and>
     leaf_hash t' = leaf_hash t \<and>
     (\<forall>x. t_nodes t x \<noteq> None \<longrightarrow> t_nodes t' x \<noteq> None) \<and>
     (\<forall>x. t_nodes t x \<noteq> None \<and> node_valid H t x \<longrightarrow> node_valid H t' x)"

lemma extended_refl [simp]: "extended H t t"
  by (simp add: extended_def)

lemma extended_trans: "extended H t u \<Longrightarrow> extended H u v \<Longrightarrow> extended H t v"
  by (auto simp: extended_def)

lemma wf_fresh: "wf lv t \<Longrightarrow> t_nodes t (t_next_node t) = None"
  using wfD_node [of lv t "t_next_node t"] by (cases "t_nodes t (t_next_node t)") (auto simp: node_ok_def)

lemma child_at_Some_iff:
  "child_at t (Slot p i) = Some c \<longleftrightarrow>
     (\<exists>pd. t_nodes t p = Some pd \<and> i < length (n_children pd) \<and> n_children pd ! i = Some c)"
  by (auto simp: child_at_def split: option.splits)

lemma not_full_Init [simp]: "\<not> Node_Full (Node_Init p hp)"
  by (simp add: Node_Full_def Node_Parts_def Node_Init_def)

lemma wf_hptr_dom:
  assumes "wf lv t" "t_nodes t x = Some xd" "n_hptr xd = Slot p i"
  shows "t_nodes t p \<noteq> None"
  using wfD_node [OF assms(1,2)] assms(3) child_at_dom [of t p i "PNode x"]
  by (auto simp: node_ok_def split: if_splits)

lemma wf_leaf_hptr_dom:
  assumes "wf lv t" "leaf_hptr t l = Some (Slot p i)"
  shows "t_nodes t p \<noteq> None"
  using assms by (metis child_at_dom leaf_hptr_child option.distinct(1))


text \<open>A change of the tree that keeps the links of old parts: what has to be shown for it.\<close>

definition same_node :: "tree \<Rightarrow> tree \<Rightarrow> node_id \<Rightarrow> node \<Rightarrow> node \<Rightarrow> bool" where
  "same_node t t' x xd xd' \<longleftrightarrow>
     n_parent xd' = n_parent xd \<and> n_hptr xd' = n_hptr xd \<and> n_hashes xd' = n_hashes xd \<and>
     n_ROOT xd' = n_ROOT xd \<and> n_CURR xd' = (x = t_curr t') \<and> length (n_children xd') = 5 \<and>
     (\<forall>j < 5. n_children xd' ! j = None \<longrightarrow> n_children xd ! j = None) \<and> (x = t_root t \<longleftrightarrow> x = t_root t')"

definition grows :: "(node_id \<Rightarrow> nat) \<Rightarrow> (node_id \<Rightarrow> nat) \<Rightarrow> tree \<Rightarrow> tree \<Rightarrow> bool" where
  "grows lv lv' t t' \<longleftrightarrow>
     (\<forall>x. t_nodes t x \<noteq> None \<longrightarrow> lv' x = lv x) \<and> lv (t_root t) \<le> lv' (t_root t') \<and>
     t_next_node t \<le> t_next_node t' \<and> t_next_leaf t \<le> t_next_leaf t' \<and>
     (\<forall>hp c. child_at t hp = Some c \<longrightarrow> child_at t' hp = Some c) \<and>
     (\<forall>l. t_leaves t l \<noteq> None \<longrightarrow> t_leaves t' l = t_leaves t l)"

lemma same_node_ok:
  assumes wf: "wf lv t" and g: "grows lv lv' t t'" and x: "t_nodes t x = Some xd" and s: "same_node t t' x xd xd'"
  shows "node_ok lv' t' x xd'"
proof -
  have ok: "node_ok lv t x xd" using wfD_node [OF wf x] .
  have lvx: "lv' x = lv x" using g x by (simp add: grows_def)
  show ?thesis
  proof (cases "x = t_root t")
    case True
    then show ?thesis using ok s g lvx by (simp add: node_ok_def same_node_def grows_def)
  next
    case False
    obtain p i pd where p: "n_parent xd = Some p" "n_hptr xd = Slot p i"
      "child_at t (Slot p i) = Some (PNode x)" "lv p = Suc (lv x)" "t_nodes t p = Some pd"
      using wf_nonroot [OF wf x False] by metis
    then have "child_at t' (Slot p i) = Some (PNode x)" "lv' p = Suc (lv' x)"
      using g lvx by (auto simp: grows_def)
    then show ?thesis using ok s g p lvx False by (simp add: node_ok_def same_node_def grows_def)
  qed
qed

lemma grows_leaf_ok:
  assumes "wf lv t" "grows lv lv' t t'" "t_leaves t l = Some lf"
  shows "leaf_ok lv' t' l lf"
proof -
  have "leaf_ok lv t l lf" using assms wfD_leaf by blast
  moreover have "lv' p = lv p" if "child_at t (Slot p i) = Some c" for p i c
    using child_at_dom [OF that] assms(2) by (auto simp: grows_def)
  moreover have "l < t_next_leaf t \<longrightarrow> l < t_next_leaf t'" using assms(2) by (auto simp: grows_def)
  moreover have "child_at t hp = Some c \<Longrightarrow> child_at t' hp = Some c" for hp c using assms(2) by (simp add: grows_def)
  ultimately show ?thesis unfolding leaf_ok_def by metis
qed

lemma grows_child_ok:
  assumes "wf lv t" "grows lv lv' t t'" "child_at t hp = Some c"
    and "\<And>x xd. t_nodes t x = Some xd \<Longrightarrow> n_hptr xd = hp \<Longrightarrow> \<exists>xd'. t_nodes t' x = Some xd' \<and> n_hptr xd' = hp"
  shows "child_ok t' hp c"
  using wfD_child [OF assms(1,3)] assms(2,4)
  by (cases c) (auto simp: child_ok_def grows_def)

lemma wf_growsI:
  assumes wf: "wf lv t" and g: "grows lv lv' t t'"
    and nodes: "\<And>x xd'. t_nodes t' x = Some xd' \<Longrightarrow>
      (\<exists>xd. t_nodes t x = Some xd \<and> same_node t t' x xd xd') \<or> node_ok lv' t' x xd'"
    and leaves: "\<And>l lf. t_leaves t' l = Some lf \<Longrightarrow> t_leaves t l = Some lf \<or> leaf_ok lv' t' l lf"
    and childs: "\<And>hp c. child_at t' hp = Some c \<Longrightarrow>
      (child_at t hp = Some c \<and> (\<forall>x xd. t_nodes t x = Some xd \<and> n_hptr xd = hp \<longrightarrow>
         (\<exists>xd'. t_nodes t' x = Some xd' \<and> n_hptr xd' = hp))) \<or> child_ok t' hp c"
    and ends: "t_nodes t' (t_root t') \<noteq> None" "t_nodes t' (t_curr t') \<noteq> None" "lv' (t_curr t') = 0"
  shows "wf lv' t'"
  unfolding wf_def
proof (intro conjI allI impI ends)
  fix x xd' assume "t_nodes t' x = Some xd'"
  then show "node_ok lv' t' x xd'" using nodes same_node_ok [OF wf g] by blast
next
  fix l lf assume "t_leaves t' l = Some lf"
  then show "leaf_ok lv' t' l lf" using leaves grows_leaf_ok [OF wf g] by blast
next
  fix hp c assume "child_at t' hp = Some c"
  then show "child_ok t' hp c" using childs grows_child_ok [OF wf g] by blast
qed


lemma extended_I:
  assumes wf: "wf lv t" and leaves: "t_leaves t' = t_leaves t" "t_next_leaf t' = t_next_leaf t"
    and gh: "\<And>p j. t_nodes t p \<noteq> None \<Longrightarrow> get_hash t' (Slot p j) = get_hash t (Slot p j)"
    and nodes: "\<And>x xd. t_nodes t x = Some xd \<Longrightarrow> \<exists>xd'. t_nodes t' x = Some xd' \<and> n_hashes xd' = n_hashes xd \<and>
      (n_hptr xd' = n_hptr xd \<and> n_hptr xd \<noteq> RootHash \<or> get_hash t' (n_hptr xd') = get_hash t (n_hptr xd)) \<and>
      (n_parent xd = None \<or> n_parent xd' = n_parent xd)"
  shows "extended H t t'"
proof -
  have "leaf_hash t' l = leaf_hash t l" for l
  proof (cases "leaf_hptr t l")
    case (Some hp)
    then obtain p j where "hp = Slot p j" using leaf_hptr_child [OF wf] by metis
    then show ?thesis using Some gh wf_leaf_hptr_dom [OF wf] by (auto simp: leaf_hash_def leaf_hptr_def leaves)
  qed (simp add: leaf_hash_def leaf_hptr_def leaves)
  moreover have "node_valid H t' x" if v: "t_nodes t x \<noteq> None" "node_valid H t x" for x
  proof -
    obtain xd where xd: "t_nodes t x = Some xd" using v by auto
    obtain xd' where xd': "t_nodes t' x = Some xd'" "n_hashes xd' = n_hashes xd"
      "n_hptr xd' = n_hptr xd \<and> n_hptr xd \<noteq> RootHash \<or> get_hash t' (n_hptr xd') = get_hash t (n_hptr xd)"
      using nodes [OF xd] by blast
    then have "get_hash t' (n_hptr xd') = get_hash t (n_hptr xd)"
      using gh wf_hptr_dom [OF wf xd] by (cases "n_hptr xd") auto
    then show ?thesis using v(2) xd xd' by (simp add: node_valid_def ComputeCurrent_def)
  qed
  moreover have "pedge t \<subseteq> pedge t'"
  proof clarify
    fix x y assume "(x, y) \<in> pedge t"
    then obtain xd where xd: "t_nodes t x = Some xd" "n_parent xd = Some y" by (auto simp: pedge_def)
    then show "(x, y) \<in> pedge t'" using nodes [OF xd(1)] by (auto simp: pedge_def)
  qed
  moreover have "t_nodes t' x \<noteq> None" if "t_nodes t x \<noteq> None" for x using nodes [of x] that by fastforce
  ultimately show ?thesis using leaves by (auto simp: extended_def)
qed

lemma new_node_spec:
  assumes wf: "wf lv t" and n: "t_nodes t n = Some nd" "\<not> Node_Full nd" "lv n = Suc k"
  defines "m \<equiv> t_next_node t"
  shows "\<exists>t' md. new_node n t = Some (m, t') \<and> wf (lv(m := k)) t' \<and> extended H t t' \<and>
    t_nodes t' m = Some md \<and> \<not> Node_Full md \<and> n_parent md = Some n \<and> t_nodes t m = None \<and>
    t_root t' = t_root t \<and> t_curr t' = t_curr t \<and> (\<forall>x. t_nodes t' x \<noteq> None \<longrightarrow> x = m \<or> t_nodes t x \<noteq> None)"
proof -
  obtain i where i: "first_index (\<lambda>c. c = None) (n_children nd) = Some i" "i < 5" "n_children nd ! i = None"
    using not_full_slot [OF n(2)] wf_lengths [OF wf n(1)] by blast
  define nd' where "nd' = nd\<lparr>n_children := (n_children nd)[i := Some (PNode m)]\<rparr>"
  define t' where "t' = put_node m (Node_Init (Some n) (Slot n i)) ((put_node n nd' t)\<lparr>t_next_node := m + 1\<rparr>)"
  have mf: "t_nodes t m = None" "m \<noteq> n" "m \<noteq> t_root t" "m \<noteq> t_curr t"
    using wf_fresh [OF wf] n(1) wf by (auto simp: m_def wf_def)
  have nodes: "t_nodes t' = (t_nodes t)(n \<mapsto> nd', m \<mapsto> Node_Init (Some n) (Slot n i))" by (simp add: t'_def)
  have len: "length (n_children nd) = 5" "length (n_hashes nd) = 5" using wf_lengths [OF wf n(1)] by auto
  have ca: "child_at t' hp = (if hp = Slot n i then Some (PNode m) else child_at t hp)" for hp
    using i(2) mf(1,2) n(1) len
    by (cases hp) (auto simp: child_at_def nodes nd'_def Node_Init_def nth_list_update)
  have free: "child_at t (Slot n i) = None" using i n(1) by (simp add: child_at_def)
  have proj: "t_root t' = t_root t" "t_next_node t' = Suc (t_next_node t)" "t_next_leaf t' = t_next_leaf t"
    "t_leaves t' = t_leaves t" "t_curr t' = t_curr t" by (simp_all add: t'_def m_def)
  have g: "grows lv (lv(m := k)) t t'" using mf free by (auto simp: grows_def ca proj)
  have "wf (lv(m := k)) t'"
  proof (rule wf_growsI [OF wf g])
    fix x xd' assume x: "t_nodes t' x = Some xd'"
    show "(\<exists>xd. t_nodes t x = Some xd \<and> same_node t t' x xd xd') \<or> node_ok (lv(m := k)) t' x xd'"
    proof (cases "x = m")
      case True
      have "node_ok (lv(m := k)) t' m (Node_Init (Some n) (Slot n i))"
        using mf n wf_level [OF wf n(1)] by (auto simp: node_ok_def Node_Init_def ca proj) (simp_all add: m_def)
      then show ?thesis using x True by (simp add: nodes)
    next
      case False
      then obtain xd where xd: "t_nodes t x = Some xd" using x n(1) by (auto simp: nodes split: if_splits)
      have "n_CURR xd = (x = t_curr t)" using wfD_node [OF wf xd] by (simp add: node_ok_def)
      then have "same_node t t' x xd xd'" using x xd n(1) False len wf_lengths [OF wf xd]
        by (auto simp: same_node_def nodes nd'_def proj split: if_splits dest: list_update_None)
      then show ?thesis using xd by blast
    qed
  next
    fix hp c assume "child_at t' hp = Some c"
    then show "(child_at t hp = Some c \<and> (\<forall>x xd. t_nodes t x = Some xd \<and> n_hptr xd = hp \<longrightarrow>
       (\<exists>xd'. t_nodes t' x = Some xd' \<and> n_hptr xd' = hp))) \<or> child_ok t' hp c"
      using mf(1) n(1)
      by (cases "hp = Slot n i") (auto simp: ca child_ok_def nodes Node_Init_def nd'_def)
  next
    show "t_nodes t' (t_root t') \<noteq> None" "t_nodes t' (t_curr t') \<noteq> None" "(lv(m := k)) (t_curr t') = 0"
      using wf mf by (auto simp: wf_def t'_def)
  qed (simp add: t'_def)
  moreover have "extended H t t'"
  proof (rule extended_I [OF wf])
    show "get_hash t' (Slot p j) = get_hash t (Slot p j)" if "t_nodes t p \<noteq> None" for p j
      using that mf n(1) by (auto simp: get_hash_def nodes nd'_def)
    show "\<exists>xd'. t_nodes t' x = Some xd' \<and> n_hashes xd' = n_hashes xd \<and>
      (n_hptr xd' = n_hptr xd \<and> n_hptr xd \<noteq> RootHash \<or> get_hash t' (n_hptr xd') = get_hash t (n_hptr xd)) \<and>
      (n_parent xd = None \<or> n_parent xd' = n_parent xd)" if xd: "t_nodes t x = Some xd" for x xd
    proof -
      have "get_hash t' (n_hptr xd) = get_hash t (n_hptr xd)"
        using xd wf_hptr_dom [OF wf xd] mf n(1)
        by (cases "n_hptr xd") (auto simp: get_hash_def nodes nd'_def, auto simp: t'_def)
      then show ?thesis using xd mf(1) n(1) by (auto simp: nodes nd'_def)
    qed
  qed (simp_all add: t'_def)
  moreover have "new_node n t = Some (m, t')"
    using n(1) i(1) by (simp add: new_node_def Node_Insert_def m_def t'_def nd'_def Let_def)
  ultimately show ?thesis using mf n(1)
    by (intro exI [of _ t'] exI [of _ "Node_Init (Some n) (Slot n i)"])
      (auto simp: nodes Node_Init_def, auto simp: t'_def Node_Full_def Node_Parts_def)
qed


lemma grow_branch_spec:
  assumes "wf lv t" "t_nodes t n = Some nd" "\<not> Node_Full nd" "lv n = i"
  shows "\<exists>lv' m t' md. grow_branch i n t = Some (m, t') \<and> wf lv' t' \<and> extended H t t' \<and>
    t_nodes t' m = Some md \<and> \<not> Node_Full md \<and> lv' m = 0 \<and> t_root t' = t_root t \<and> t_curr t' = t_curr t \<and>
    (m, n) \<in> (pedge t')\<^sup>* \<and> (\<forall>x. t_nodes t' x \<noteq> None \<and> t_nodes t x = None \<longrightarrow> (m, x) \<in> (pedge t')\<^sup>*)"
  using assms
proof (induction i arbitrary: n t lv nd)
  case 0
  then show ?case by (intro exI [of _ lv] exI [of _ n] exI [of _ t] exI [of _ nd]) auto
next
  case (Suc i)
  let ?k = "t_next_node t"
  obtain t1 md1 where 1: "new_node n t = Some (?k, t1)" "wf (lv(?k := i)) t1" "extended H t t1"
    "t_nodes t1 ?k = Some md1" "\<not> Node_Full md1" "n_parent md1 = Some n"
    "t_root t1 = t_root t" "t_curr t1 = t_curr t" "\<forall>x. t_nodes t1 x \<noteq> None \<longrightarrow> x = ?k \<or> t_nodes t x \<noteq> None"
    using new_node_spec [OF Suc.prems(1-3), of i H] Suc.prems(4) by blast
  obtain lv' m t' md where 2: "grow_branch i ?k t1 = Some (m, t')" "wf lv' t'" "extended H t1 t'"
    "t_nodes t' m = Some md" "\<not> Node_Full md" "lv' m = 0" "t_root t' = t_root t1" "t_curr t' = t_curr t1"
    "(m, ?k) \<in> (pedge t')\<^sup>*" "\<forall>x. t_nodes t' x \<noteq> None \<and> t_nodes t1 x = None \<longrightarrow> (m, x) \<in> (pedge t')\<^sup>*"
    using Suc.IH [OF 1(2,4,5)] by auto
  have "(?k, n) \<in> pedge t1" using 1(4,6) by (simp add: pedge_def)
  then have mn: "(m, n) \<in> (pedge t')\<^sup>*" using 2(3,9) by (auto simp: extended_def intro: rtrancl_into_rtrancl)
  have "(m, x) \<in> (pedge t')\<^sup>*" if "t_nodes t' x \<noteq> None" "t_nodes t x = None" for x
    using that 1(9) 2(9,10) by (cases "t_nodes t1 x = None") blast+
  moreover have "grow_branch (Suc i) n t = Some (m, t')" using 1(1) 2(1) by simp
  ultimately show ?case using 1(7,8) 2 mn extended_trans [OF 1(3) 2(3)] by metis
qed

lemma set_CURR_move:
  assumes wf: "wf lv t" and n: "t_nodes t n = Some nd" "lv n = 0" "n \<noteq> t_curr t"
  shows "\<exists>t1 t2. set_CURR (t_curr t) False t = Some t1 \<and> set_CURR n True (t1\<lparr>t_curr := n\<rparr>) = Some t2 \<and>
    wf lv t2 \<and> extended H t t2 \<and> t_nodes t2 n = Some (nd\<lparr>n_CURR := True\<rparr>) \<and> t_root t2 = t_root t \<and> pedge t2 = pedge t \<and>
    (\<forall>x. t_nodes t2 x = None \<longleftrightarrow> t_nodes t x = None) \<and> t_curr t2 = n"
proof -
  obtain cd where cd: "t_nodes t (t_curr t) = Some cd" using wf by (auto simp: wf_def)
  define t2 where "t2 = (put_node n (nd\<lparr>n_CURR := True\<rparr>)
     (put_node (t_curr t) (cd\<lparr>n_CURR := False\<rparr>) t))\<lparr>t_curr := n\<rparr>"
  have nodes: "t_nodes t2 = (t_nodes t)(t_curr t \<mapsto> cd\<lparr>n_CURR := False\<rparr>, n \<mapsto> nd\<lparr>n_CURR := True\<rparr>)"
    by (simp add: t2_def)
  have proj: "t_root t2 = t_root t" "t_next_node t2 = t_next_node t" "t_next_leaf t2 = t_next_leaf t"
    "t_leaves t2 = t_leaves t" "t_curr t2 = n" "t_roothash t2 = t_roothash t" by (simp_all add: t2_def)
  have ca: "child_at t2 hp = child_at t hp" for hp
    using cd n by (cases hp) (auto simp: child_at_def nodes)
  have gh: "get_hash t2 hp = get_hash t hp" for hp
    using cd n by (cases hp) (auto simp: get_hash_def nodes proj)
  have g: "grows lv lv t t2" by (auto simp: grows_def ca proj)
  have wf2: "wf lv t2"
  proof (rule wf_growsI [OF wf g])
    fix x xd' assume x: "t_nodes t2 x = Some xd'"
    then obtain xd where xd: "t_nodes t x = Some xd" using cd n by (auto simp: nodes split: if_splits)
    then have "n_CURR xd = (x = t_curr t)" "length (n_children xd) = 5"
      using wfD_node [OF wf] by (auto simp: node_ok_def)
    then have "same_node t t2 x xd xd'" using x xd cd n
      by (auto simp: same_node_def nodes proj split: if_splits)
    then show "(\<exists>xd. t_nodes t x = Some xd \<and> same_node t t2 x xd xd') \<or> node_ok lv t2 x xd'" using xd by blast
  next
    fix hp c assume "child_at t2 hp = Some c"
    then show "(child_at t hp = Some c \<and> (\<forall>x xd. t_nodes t x = Some xd \<and> n_hptr xd = hp \<longrightarrow>
       (\<exists>xd'. t_nodes t2 x = Some xd' \<and> n_hptr xd' = hp))) \<or> child_ok t2 hp c"
      using cd n by (auto simp: ca nodes)
  next
    show "t_nodes t2 (t_root t2) \<noteq> None" "t_nodes t2 (t_curr t2) \<noteq> None" "lv (t_curr t2) = 0"
      using wf n by (auto simp: wf_def proj nodes)
  qed (simp add: proj)
  have "extended H t t2"
    by (rule extended_I [OF wf]) (use cd n in \<open>auto simp: proj gh nodes\<close>)
  moreover have "pedge t2 = pedge t" using cd n by (auto simp: pedge_def nodes split: if_splits)
  moreover have "set_CURR (t_curr t) False t = Some (put_node (t_curr t) (cd\<lparr>n_CURR := False\<rparr>) t)"
    using cd by (simp add: set_CURR_def)
  moreover have "set_CURR n True ((put_node (t_curr t) (cd\<lparr>n_CURR := False\<rparr>) t)\<lparr>t_curr := n\<rparr>) = Some t2"
    using n by (simp add: set_CURR_def t2_def put_node_def)
  ultimately show ?thesis using wf2 n cd by (auto simp: nodes proj)
qed


lemma grow_root_spec:
  assumes wf: "wf lv t"
  defines "r \<equiv> t_next_node t"
  shows "\<exists>t' rd. grow_root t = Some t' \<and> wf (lv(r := Suc (lv (t_root t)))) t' \<and> extended H t t' \<and>
    t_root t' = r \<and> t_curr t' = t_curr t \<and> t_nodes t' r = Some rd \<and> \<not> Node_Full rd \<and>
    (\<forall>x. t_nodes t' x \<noteq> None \<longrightarrow> x = r \<or> t_nodes t x \<noteq> None)"
proof -
  let ?o = "t_root t"
  obtain od where od: "t_nodes t ?o = Some od" using wf by (auto simp: wf_def)
  define rd where "rd = (Node_Init None RootHash)\<lparr>n_children := (replicate 5 None)[0 := Some (PNode ?o)],
      n_hashes := (replicate 5 zero_hash)[0 := t_roothash t], n_ROOT := True\<rparr>"
  define od' where "od' = od\<lparr>n_parent := Some r, n_hptr := Slot r 0, n_ROOT := False\<rparr>"
  define t' where "t' = t\<lparr>t_nodes := (t_nodes t)(?o \<mapsto> od', r \<mapsto> rd), t_next_node := r + 1, t_root := r\<rparr>"
  have rf: "t_nodes t r = None" "r \<noteq> ?o" "r \<noteq> t_curr t" using wf_fresh [OF wf] wf by (auto simp: r_def wf_def)
  have nodes: "t_nodes t' = (t_nodes t)(?o \<mapsto> od', r \<mapsto> rd)" by (simp add: t'_def)
  have proj: "t_root t' = r" "t_next_node t' = Suc (t_next_node t)" "t_next_leaf t' = t_next_leaf t"
    "t_leaves t' = t_leaves t" "t_curr t' = t_curr t" "t_roothash t' = t_roothash t" by (simp_all add: t'_def r_def)
  have ca: "child_at t' hp = (if hp = Slot r 0 then Some (PNode ?o) else child_at t hp)" for hp
  proof (cases hp)
    case (Slot p j)
    then show ?thesis using rf od
      by (cases "p = r"; cases j) (auto simp: child_at_def nodes od'_def rd_def Node_Init_def nth_Cons)
  qed (simp add: child_at_def)
  have free: "child_at t (Slot r 0) = None" using rf by (simp add: child_at_def)
  have ok: "node_ok lv t ?o od" using wfD_node [OF wf od] .
  have g: "grows lv (lv(r := Suc (lv ?o))) t t'" using rf free by (auto simp: grows_def ca proj)
  have wf': "wf (lv(r := Suc (lv ?o))) t'"
  proof (rule wf_growsI [OF wf g])
    fix x xd' assume x: "t_nodes t' x = Some xd'"
    show "(\<exists>xd. t_nodes t x = Some xd \<and> same_node t t' x xd xd') \<or> node_ok (lv(r := Suc (lv ?o))) t' x xd'"
    proof (cases "x = r \<or> x = ?o")
      case True
      have "node_ok (lv(r := Suc (lv ?o))) t' r rd" using rf
        by (auto simp: node_ok_def rd_def Node_Init_def proj less_Suc_eq nth_Cons numeral_eq_Suc split: nat.splits)
          (simp_all add: r_def)
      moreover have "node_ok (lv(r := Suc (lv ?o))) t' ?o od'" using rf ok
        by (simp add: node_ok_def od'_def ca proj)
      ultimately show ?thesis using True x rf by (auto simp: nodes)
    next
      case False
      then have xd: "t_nodes t x = Some xd'" using x by (simp add: nodes)
      then have "same_node t t' x xd' xd'" using False wfD_node [OF wf xd] by (simp add: same_node_def node_ok_def proj)
      then show ?thesis using xd by blast
    qed
  next
    fix hp c assume "child_at t' hp = Some c"
    then show "(child_at t hp = Some c \<and> (\<forall>x xd. t_nodes t x = Some xd \<and> n_hptr xd = hp \<longrightarrow>
       (\<exists>xd'. t_nodes t' x = Some xd' \<and> n_hptr xd' = hp))) \<or> child_ok t' hp c"
    proof (cases "hp = Slot r 0")
      case True
      then show ?thesis using \<open>child_at t' hp = Some c\<close> rf by (auto simp: ca child_ok_def nodes od'_def)
    next
      case False
      then have c: "child_at t hp = Some c" using \<open>child_at t' hp = Some c\<close> by (simp add: ca)
      have "x \<noteq> ?o \<and> x \<noteq> r" if "t_nodes t x = Some xd" "n_hptr xd = hp" for x xd
        using that c wf_root(2) [OF wf] rf by auto
      then show ?thesis using c by (auto simp: nodes)
    qed
  next
    show "t_nodes t' (t_root t') \<noteq> None" "t_nodes t' (t_curr t') \<noteq> None" "(lv(r := Suc (lv ?o))) (t_curr t') = 0"
      using wf rf by (auto simp: wf_def proj nodes)
  qed (simp add: proj)
  have gh: "get_hash t' (Slot p j) = get_hash t (Slot p j)" if "t_nodes t p \<noteq> None" for p j
    using that rf od by (auto simp: get_hash_def nodes od'_def)
  have "extended H t t'"
  proof (rule extended_I [OF wf])
    fix x xd assume xd: "t_nodes t x = Some xd"
    show "\<exists>xd'. t_nodes t' x = Some xd' \<and> n_hashes xd' = n_hashes xd \<and>
      (n_hptr xd' = n_hptr xd \<and> n_hptr xd \<noteq> RootHash \<or> get_hash t' (n_hptr xd') = get_hash t (n_hptr xd)) \<and>
      (n_parent xd = None \<or> n_parent xd' = n_parent xd)"
    proof (cases "x = ?o")
      case True
      then show ?thesis using xd od rf wf_root [OF wf od]
        by (simp add: nodes od'_def get_hash_def rd_def)
    next
      case False
      then have "n_hptr xd \<noteq> RootHash" using wf_nonroot [OF wf xd] by (metis hptr.distinct(1))
      then show ?thesis using False xd rf by (auto simp: nodes)
    qed
  qed (simp_all add: proj gh)
  moreover have "grow_root t = Some t'"
    using od rf
    by (simp add: grow_root_def new_root_node_def Node_Insert_def r_def [symmetric] Let_def Node_Init_def
        set_hash_def set_ROOT_def t'_def rd_def od'_def put_node_def numeral_eq_Suc fun_upd_twist)
  moreover have "\<not> Node_Full rd" by (simp add: Node_Full_def Node_Parts_def rd_def numeral_eq_Suc)
  ultimately show ?thesis using wf' od by (auto simp: nodes proj split: if_splits)
qed


lemma walk_up_spec:
  assumes wf: "wf lv t" and n: "t_nodes t n \<noteq> None"
  shows "\<exists>m md. walk_up t n i = Some (m, i + lv m - lv n) \<and> t_nodes t m = Some md \<and> lv n \<le> lv m \<and>
    (m = t_root t \<or> \<not> Node_Full md)"
  using n
proof (induction "lv (t_root t) - lv n" arbitrary: n i rule: less_induct)
  case less
  obtain nd where nd: "t_nodes t n = Some nd" using less.prems by auto
  show ?case
  proof (cases "n \<noteq> t_root t \<and> Node_Full nd")
    case True
    obtain p pd where p: "n_parent nd = Some p" "lv p = Suc (lv n)" "t_nodes t p = Some pd"
      using wf_nonroot [OF wf nd] True by metis
    have "lv (t_root t) - lv p < lv (t_root t) - lv n" using wf_level [OF wf p(3)] p(2) by simp
    then obtain m md where m: "walk_up t p (i + 1) = Some (m, i + 1 + lv m - lv p)" "t_nodes t m = Some md"
      "lv p \<le> lv m" "m = t_root t \<or> \<not> Node_Full md"
      using less.hyps [of p "i + 1"] p(3) by auto
    then have "walk_up t n i = Some (m, i + lv m - lv n)"
      using nd True p by (subst walk_up.simps) simp
    then show ?thesis using m p(2) by (intro exI [of _ m] exI [of _ md]) simp
  next
    case False
    then show ?thesis using nd by (subst walk_up.simps) auto
  qed
qed

lemma CurrentWithSpace_spec:
  assumes wf: "wf lv t"
  shows "\<exists>lv' n t' nd. CurrentWithSpace t = Some (n, t') \<and> wf lv' t' \<and> extended H t t' \<and> lv' n = 0 \<and>
    t_nodes t' n = Some nd \<and> \<not> Node_Full nd \<and>
    (\<forall>x. t_nodes t' x \<noteq> None \<and> t_nodes t x = None \<longrightarrow> (n, x) \<in> (pedge t')\<^sup>*)"
proof -
  have c: "t_nodes t (t_curr t) \<noteq> None" "lv (t_curr t) = 0" using wf by (auto simp: wf_def)
  obtain m md where m: "walk_up t (t_curr t) 0 = Some (m, lv m)" "t_nodes t m = Some md"
    "m = t_root t \<or> \<not> Node_Full md" using walk_up_spec [OF wf c(1), of 0] c(2) by auto
  obtain lv1 n1 t1 nd1 where 1: "(if Node_Full md then (if m \<noteq> t_root t then None
        else do { t1 \<leftarrow> grow_root t; Some (t_root t1, lv m + 1, t1) }) else Some (m, lv m, t)) = Some (n1, lv1 n1, t1)"
      "wf lv1 t1" "extended H t t1" "t_curr t1 = t_curr t" "t_nodes t1 n1 = Some nd1" "\<not> Node_Full nd1"
      "\<forall>x. t_nodes t1 x \<noteq> None \<and> t_nodes t x = None \<longrightarrow> x = n1"
  proof (cases "Node_Full md")
    case True
    let ?r = "t_next_node t"
    obtain t' rd where g: "grow_root t = Some t'" "wf (lv(?r := Suc (lv (t_root t)))) t'" "extended H t t'"
      "t_root t' = ?r" "t_curr t' = t_curr t" "t_nodes t' ?r = Some rd" "\<not> Node_Full rd"
      "\<forall>x. t_nodes t' x \<noteq> None \<longrightarrow> x = ?r \<or> t_nodes t x \<noteq> None"
      using grow_root_spec [OF wf, of H] by blast
    then show thesis using True m(3)
      by (intro that [of ?r "lv(?r := Suc (lv (t_root t)))" t' rd]) auto
  next
    case False
    then show thesis using m wf by (intro that [of m lv t md]) auto
  qed
  obtain lv2 n2 t2 nd2 where 2: "grow_branch (lv1 n1) n1 t1 = Some (n2, t2)" "wf lv2 t2" "extended H t1 t2"
    "t_nodes t2 n2 = Some nd2" "\<not> Node_Full nd2" "lv2 n2 = 0" "t_curr t2 = t_curr t1"
    "(n2, n1) \<in> (pedge t2)\<^sup>*" "\<forall>x. t_nodes t2 x \<noteq> None \<and> t_nodes t1 x = None \<longrightarrow> (n2, x) \<in> (pedge t2)\<^sup>*"
    using grow_branch_spec [OF 1(2,5,6) refl, of H] by blast
  have new: "(n2, x) \<in> (pedge t2)\<^sup>*" if "t_nodes t2 x \<noteq> None" "t_nodes t x = None" for x
    using that 1(7) 2(8,9) by (cases "t_nodes t1 x = None") blast+
  show ?thesis
  proof (cases "t_curr t2 = n2")
    case True
    then have "CurrentWithSpace t = Some (n2, t2)" using m(1,2) 1(1) 2(1) by (simp add: CurrentWithSpace_def)
    then show ?thesis using 2 new extended_trans [OF 1(3) 2(3)] by blast
  next
    case False
    obtain t3 t4 where 3: "set_CURR (t_curr t2) False t2 = Some t3" "set_CURR n2 True (t3\<lparr>t_curr := n2\<rparr>) = Some t4"
      "wf lv2 t4" "extended H t2 t4" "t_nodes t4 n2 = Some (nd2\<lparr>n_CURR := True\<rparr>)" "pedge t4 = pedge t2"
      "\<forall>x. t_nodes t4 x = None \<longleftrightarrow> t_nodes t2 x = None"
      using set_CURR_move [OF 2(2,4,6), of H] False by auto
    have "CurrentWithSpace t = Some (n2, t4)"
      using m(1,2) 1(1) 2(1) 3(1,2) False by (simp add: CurrentWithSpace_def)
    moreover have "\<not> Node_Full (nd2\<lparr>n_CURR := True\<rparr>)" using 2(5) by (simp add: Node_Full_def Node_Parts_def)
    ultimately show ?thesis using 3 2(6) new extended_trans [OF extended_trans [OF 1(3) 2(3)] 3(4)] by metis
  qed
qed


lemma insert_leaf_spec:
  assumes wf: "wf lv t" and n: "t_nodes t n = Some nd" "\<not> Node_Full nd" "lv n = 0"
  defines "l \<equiv> t_next_leaf t"
  shows "\<exists>hp t1 t'. Node_Insert n (PLeaf l) (Some n) t = Some (hp, t1) \<and>
    t' = t1\<lparr>t_leaves := (t_leaves t1)(l \<mapsto> \<lparr>l_parent = Some n, l_hptr = Some hp\<rparr>), t_next_leaf := l + 1\<rparr> \<and>
    t_next_leaf t1 = l \<and> wf lv t' \<and> leaf_hash t l = None \<and> leaf_hash t' = (leaf_hash t)(l \<mapsto> zero_hash) \<and>
    leaf_parent t' = (leaf_parent t)(l \<mapsto> n) \<and> pedge t' = pedge t \<and>
    (\<forall>x. t_nodes t' x = None \<longleftrightarrow> t_nodes t x = None) \<and> (\<forall>x. node_valid H t' x = node_valid H t x)"
proof -
  obtain i where i: "first_index (\<lambda>c. c = None) (n_children nd) = Some i" "i < 5" "n_children nd ! i = None"
    using not_full_slot [OF n(2)] wf_lengths [OF wf n(1)] by blast
  define nd' where "nd' = nd\<lparr>n_children := (n_children nd)[i := Some (PLeaf l)]\<rparr>"
  define t1 where "t1 = put_node n nd' t"
  define t' where "t' = t1\<lparr>t_leaves := (t_leaves t1)(l \<mapsto> \<lparr>l_parent = Some n, l_hptr = Some (Slot n i)\<rparr>), t_next_leaf := l + 1\<rparr>"
  have lf: "t_leaves t l = None"
    using wfD_leaf [OF wf, of l] by (cases "t_leaves t l") (auto simp: l_def leaf_ok_def)
  have nodes: "t_nodes t' = (t_nodes t)(n \<mapsto> nd')" by (simp add: t'_def t1_def)
  have len: "length (n_children nd) = 5" "length (n_hashes nd) = 5" using wf_lengths [OF wf n(1)] by auto
  have leaves: "t_leaves t' = (t_leaves t)(l \<mapsto> \<lparr>l_parent = Some n, l_hptr = Some (Slot n i)\<rparr>)"
    by (simp add: t'_def t1_def)
  have proj: "t_root t' = t_root t" "t_next_node t' = t_next_node t" "t_next_leaf t' = Suc l"
    "t_curr t' = t_curr t" "t_roothash t' = t_roothash t" by (simp_all add: t'_def t1_def)
  have ca: "child_at t' hp = (if hp = Slot n i then Some (PLeaf l) else child_at t hp)" for hp
    using i(2) n(1) len by (cases hp) (auto simp: child_at_def nodes nd'_def nth_list_update)
  have gh: "get_hash t' hp = get_hash t hp" for hp
    using n(1) by (cases hp) (auto simp: get_hash_def nodes nd'_def proj)
  have free: "child_at t (Slot n i) = None" using i n(1) by (simp add: child_at_def)
  have g: "grows lv lv t t'" using free lf by (auto simp: grows_def ca proj leaves l_def)
  have "wf lv t'"
  proof (rule wf_growsI [OF wf g])
    fix x xd' assume x: "t_nodes t' x = Some xd'"
    then obtain xd where xd: "t_nodes t x = Some xd" using n(1) by (auto simp: nodes split: if_splits)
    then have "n_CURR xd = (x = t_curr t)" "length (n_children xd) = 5"
      using wfD_node [OF wf] by (auto simp: node_ok_def)
    then have "same_node t t' x xd xd'" using x xd n(1)
      by (auto simp: same_node_def nodes nd'_def proj split: if_splits dest: list_update_None)
    then show "(\<exists>xd. t_nodes t x = Some xd \<and> same_node t t' x xd xd') \<or> node_ok lv t' x xd'" using xd by blast
  next
    fix k kf assume "t_leaves t' k = Some kf"
    then show "t_leaves t k = Some kf \<or> leaf_ok lv t' k kf"
      using n(3) by (cases "k = l") (auto simp: leaves leaf_ok_def proj ca)
  next
    fix hp c assume "child_at t' hp = Some c"
    then show "(child_at t hp = Some c \<and> (\<forall>x xd. t_nodes t x = Some xd \<and> n_hptr xd = hp \<longrightarrow>
       (\<exists>xd'. t_nodes t' x = Some xd' \<and> n_hptr xd' = hp))) \<or> child_ok t' hp c"
      using n(1) by (cases "hp = Slot n i") (auto simp: ca child_ok_def leaves nodes nd'_def)
  next
    show "t_nodes t' (t_root t') \<noteq> None" "t_nodes t' (t_curr t') \<noteq> None" "lv (t_curr t') = 0"
      using wf by (auto simp: wf_def proj nodes)
  qed
  moreover have "leaf_hash t' = (leaf_hash t)(l \<mapsto> zero_hash)"
  proof -
    have "n_hashes nd ! i = zero_hash" using wfD_node [OF wf n(1)] i by (simp add: node_ok_def)
    then have "get_hash t (Slot n i) = Some zero_hash" using n(1) i len by (simp add: get_hash_def)
    moreover have eq: "get_hash t' = get_hash t" using gh by blast
    ultimately show ?thesis by (intro HOL.ext) (simp add: leaf_hash_def leaf_hptr_def leaves eq)
  qed
  moreover have "Node_Insert n (PLeaf l) (Some n) t = Some (Slot n i, t1)"
    using n(1) i(1) by (simp add: Node_Insert_def t1_def nd'_def)
  moreover have "node_valid H t' x = node_valid H t x" for x
    using n(1) by (auto simp: node_valid_def nodes gh nd'_def ComputeCurrent_def)
  moreover have "leaf_parent t' = (leaf_parent t)(l \<mapsto> n)" by (auto simp: leaf_parent_def leaves fun_eq_iff)
  moreover have "pedge t' = pedge t" using n(1) by (auto simp: pedge_def nodes nd'_def split: if_splits)
  moreover have "leaf_hash t l = None" "t_next_leaf t1 = l"
    using lf by (auto simp: leaf_hash_def leaf_hptr_def t1_def l_def)
  moreover have "\<forall>x. t_nodes t' x = None \<longleftrightarrow> t_nodes t x = None" using n(1) by (simp add: nodes)
  ultimately show ?thesis using t'_def by blast
qed

lemma Leaf_new_pend:
  assumes "pend H t P"
  shows "\<exists>l t'. Leaf_new t = Some (l, t') \<and> pend H t' (insert l P) \<and> leaf_hash t l = None \<and>
    leaf_hash t' = (leaf_hash t)(l \<mapsto> zero_hash)"
proof -
  obtain lv0 where wf0: "wf lv0 t" using assms by (auto simp: pend_def)
  obtain lv n t1 nd where 1: "CurrentWithSpace t = Some (n, t1)" "wf lv t1" "extended H t t1" "lv n = 0"
    "t_nodes t1 n = Some nd" "\<not> Node_Full nd"
    "\<forall>x. t_nodes t1 x \<noteq> None \<and> t_nodes t x = None \<longrightarrow> (n, x) \<in> (pedge t1)\<^sup>*"
    using CurrentWithSpace_spec [OF wf0, of H] by blast
  let ?l = "t_next_leaf t1"
  obtain hp t2 t' where 2: "Node_Insert n (PLeaf ?l) (Some n) t1 = Some (hp, t2)"
    "t' = t2\<lparr>t_leaves := (t_leaves t2)(?l \<mapsto> \<lparr>l_parent = Some n, l_hptr = Some hp\<rparr>), t_next_leaf := ?l + 1\<rparr>"
    "t_next_leaf t2 = ?l" "wf lv t'" "leaf_hash t1 ?l = None" "leaf_hash t' = (leaf_hash t1)(?l \<mapsto> zero_hash)"
    "leaf_parent t' = (leaf_parent t1)(?l \<mapsto> n)" "pedge t' = pedge t1"
    "\<forall>x. t_nodes t' x = None \<longleftrightarrow> t_nodes t1 x = None" "\<forall>x. node_valid H t' x = node_valid H t1 x"
    using insert_leaf_spec [OF 1(2,5,6,4), of H] by blast
  have lh: "leaf_hash t1 = leaf_hash t" "leaf_parent t1 = leaf_parent t" "pedge t \<subseteq> pedge t1"
    using 1(3) by (auto simp: extended_def leaf_parent_def fun_eq_iff)
  have "?l \<notin> P" using assms 2(5) lh(1) by (auto simp: pend_def)
  have "node_valid H t' x" if x: "x \<notin> above t' (insert ?l P)" for x
  proof (cases "t_nodes t1 x = None")
    case True
    then have "t_nodes t' x = None" using 2(9) by blast
    then show ?thesis by (simp add: node_valid_def)
  next
    case False
    have "(n, x) \<notin> (pedge t1)\<^sup>*" using x 2(7,8) by (auto simp: above_def)
    then have old: "t_nodes t x \<noteq> None" using False 1(7) by metis
    moreover have "x \<notin> above t P"
    proof
      assume "x \<in> above t P"
      then obtain k p where k: "k \<in> P" "leaf_parent t k = Some p" "(p, x) \<in> (pedge t)\<^sup>*" by (auto simp: above_def)
      then have "leaf_parent t' k = Some p" "(p, x) \<in> (pedge t')\<^sup>*"
        using 2(7,8) lh \<open>?l \<notin> P\<close> rtrancl_mono [OF lh(3)] by auto
      then show False using x k(1) by (auto simp: above_def)
    qed
    ultimately show ?thesis using assms 1(3) 2(10) by (auto simp: pend_def extended_def)
  qed
  moreover have "insert ?l P \<subseteq> dom (leaf_hash t')" using assms 2(6) lh(1) by (auto simp: pend_def)
  ultimately have "pend H t' (insert ?l P)" using 2(4) by (auto simp: pend_def)
  moreover have "Leaf_new t = Some (?l, t')" using 1(1) 2(1-3) by (simp add: Leaf_new_def Let_def)
  ultimately show ?thesis using 2(5,6) lh(1) by auto
qed

lemma Tree_init_pend: "\<exists>t. Tree_init H = Some t \<and> pend H t {} \<and> leaf_hash t = Map.empty"
proof -
  define rd where "rd = (Node_Init None RootHash)\<lparr>n_ROOT := True, n_CURR := True\<rparr>"
  define t where "t = empty_tree\<lparr>t_nodes := [0 \<mapsto> rd], t_next_node := 1\<rparr>"
  have "child_at t hp = None" for hp
    by (cases hp) (auto simp: child_at_def t_def rd_def Node_Init_def empty_tree_def)
  then have wf: "wf (\<lambda>_. 0) t"
    by (auto simp: wf_def t_def empty_tree_def node_ok_def rd_def Node_Init_def split: if_splits)
  have n0: "t_nodes t 0 = Some rd" by (simp add: t_def)
  obtain t' where t': "Node_Update H 0 t = Some t'" "update_post H (\<lambda>_. 0) 0 t t'"
    using Node_Update_spec [OF wf, of 0 H] n0 by auto
  have "Tree_init H = Some t'"
    using t'(1) by (simp add: Tree_init_def new_root_node_def empty_tree_def t_def rd_def set_ROOT_def
        set_CURR_def put_node_def Let_def)
  moreover have "node_valid H t' n" for n
  proof (cases "n = 0")
    case True
    then show ?thesis using t'(2) by (auto simp: update_post_def)
  next
    case False
    then have "node_valid H t n" by (simp add: node_valid_def t_def)
    then show ?thesis using t'(2) by (auto simp: update_post_def)
  qed
  moreover have "leaf_hash t' = Map.empty"
    using hash_frame_leaves(1) [of t t'] t'(2)
    by (auto simp: update_post_def leaf_hash_def leaf_hptr_def fun_eq_iff t_def empty_tree_def)
  ultimately show ?thesis using t'(2) by (auto simp: pend_def update_post_def)
qed

end
