(* ===== verification/MerkleFree.thy ===== *)
theory MerkleFree
  imports MerkleOps
begin

text \<open>
  Destruction and moves of the parts of the Merkle tree (merkle.cc, \<^verbatim>\<open>~Part\<close> and the move constructor of
  \<^verbatim>\<open>Leaf\<close>): a destroyed leaf leaves its parent, emptied nodes that are neither root nor current node are
  deleted up the tree, and every other stored hash is kept.
\<close>

subsection \<open>Destruction\<close>

text \<open>A part that is being destroyed is no longer linked from the tree but still in memory; the walks
  towards the root do not depend on it.\<close>

lemma set_hash_frame:
  "set_hash hp h t = Some u \<Longrightarrow> set_hash hp h (t\<lparr>t_leaves := X\<rparr>) = Some (u\<lparr>t_leaves := X\<rparr>)"
  "set_hash hp h t = Some u \<Longrightarrow> t_nodes t k = None \<Longrightarrow> set_hash hp h (put_node k kd t) = Some (put_node k kd u)"
  "set_hash hp h t = Some u \<Longrightarrow> (t_nodes u x = None \<longleftrightarrow> t_nodes t x = None)"
  by (auto simp: set_hash_def put_node_def fun_upd_twist split: hptr.splits option.splits if_splits)

lemma Node_Update_leaves:
  "Node_Update H n t = Some u \<Longrightarrow> Node_Update H n (t\<lparr>t_leaves := X\<rparr>) = Some (u\<lparr>t_leaves := X\<rparr>)"
proof (induction rule: Node_Update.raw_induct [rotated 1, consumes 1])
  case (1 f H n t u)
  then obtain nd t1 where nd: "t_nodes t n = Some nd" "set_hash (n_hptr nd) (ComputeCurrent H nd) t = Some t1"
    and rest: "(case n_parent nd of None \<Rightarrow> Some t1 | Some p \<Rightarrow> f H p t1) = Some u"
    by (auto simp: bind_eq_Some_conv)
  then show ?case using 1(1) set_hash_frame(1) [OF nd(2), of X]
    by (subst Node_Update.simps) (auto split: option.splits)
qed

lemma Node_Update_node:
  "Node_Update H n t = Some u \<Longrightarrow> t_nodes t k = None \<Longrightarrow>
   Node_Update H n (put_node k kd t) = Some (put_node k kd u) \<and> t_nodes u k = None"
proof (induction rule: Node_Update.raw_induct [rotated 1, consumes 1])
  case (1 f H n t u)
  then obtain nd t1 where nd: "t_nodes t n = Some nd" "set_hash (n_hptr nd) (ComputeCurrent H nd) t = Some t1"
    and rest: "(case n_parent nd of None \<Rightarrow> Some t1 | Some p \<Rightarrow> f H p t1) = Some u"
    by (auto simp: bind_eq_Some_conv)
  moreover have "n \<noteq> k" using nd(1) 1(3) by auto
  moreover have "t_nodes t1 k = None" using set_hash_frame(3) [OF nd(2)] 1(3) by simp
  ultimately show ?case using 1(1,3) set_hash_frame(2) [OF nd(2), of k kd]
    by (subst Node_Update.simps) (auto split: option.splits)
qed

lemma put_node_leaves: "put_node n nd (t\<lparr>t_leaves := X\<rparr>) = (put_node n nd t)\<lparr>t_leaves := X\<rparr>"
  by (cases t) (simp add: put_node_def)

lemma Node_Remove_leaves:
  assumes "Node_Remove H n c t = Some u"
  shows "Node_Remove H n c (t\<lparr>t_leaves := X\<rparr>) = Some (u\<lparr>t_leaves := X\<rparr>)"
proof -
  obtain nd i where nd: "t_nodes t n = Some nd" "first_index (\<lambda>x. x = Some c) (n_children nd) = Some i"
    "Node_Update H n (put_node n (nd\<lparr>n_children := (n_children nd)[i := None],
       n_hashes := (n_hashes nd)[i := zero_hash]\<rparr>) t) = Some u"
    using assms by (auto simp: Node_Remove_def bind_eq_Some_conv)
  from Node_Update_leaves [OF nd(3), of X] nd(1,2) show ?thesis
    by (simp add: Node_Remove_def put_node_leaves)
qed

lemma Node_Remove_node:
  assumes "Node_Remove H n c t = Some u" "t_nodes t k = None"
  shows "Node_Remove H n c (put_node k kd t) = Some (put_node k kd u) \<and> t_nodes u k = None"
proof -
  obtain nd i where nd: "t_nodes t n = Some nd" "first_index (\<lambda>x. x = Some c) (n_children nd) = Some i"
    "Node_Update H n (put_node n (nd\<lparr>n_children := (n_children nd)[i := None],
       n_hashes := (n_hashes nd)[i := zero_hash]\<rparr>) t) = Some u" (is "Node_Update H n ?t1 = _")
    using assms(1) by (auto simp: Node_Remove_def bind_eq_Some_conv)
  have "n \<noteq> k" using nd(1) assms(2) by auto
  then have "t_nodes ?t1 k = None" using assms(2) by simp
  from Node_Update_node [OF nd(3) this, of kd] \<open>n \<noteq> k\<close> nd(1,2) show ?thesis
    by (simp add: Node_Remove_def put_node_def fun_upd_twist)
qed

lemma Part_destroy_leaves:
  "Part_destroy H c par t = Some u \<Longrightarrow> Part_destroy H c par (t\<lparr>t_leaves := X\<rparr>) = Some (u\<lparr>t_leaves := X\<rparr>)"
proof (induction rule: Part_destroy.raw_induct [rotated 1, consumes 1])
  case (1 f H c par t u)
  show ?case
  proof (cases par)
    case None
    then show ?thesis using 1(2) by (simp add: Part_destroy.simps [of H c None])
  next
    case (Some p)
    then obtain t1 nd where t1: "Node_Remove H p c t = Some t1" "t_nodes t1 p = Some nd"
      using 1(2) by (auto simp: bind_eq_Some_conv)
    note r = Node_Remove_leaves [OF t1(1), of X]
    show ?thesis
    proof (cases "Node_Empty nd \<and> \<not> n_ROOT nd \<and> \<not> n_CURR nd")
      case True
      then obtain t2 where "f H (PNode p) (n_parent nd) t1 = Some t2" "u = t2\<lparr>t_nodes := (t_nodes t2)(p := None)\<rparr>"
        using 1(2) Some t1 by (auto simp: bind_eq_Some_conv)
      then show ?thesis using 1(1) [of H "PNode p" "n_parent nd" t1 t2] r t1(2) True Some
        by (simp add: Part_destroy.simps [of H c "Some p"])
    next
      case False
      then have "u = t1" using 1(2) Some t1 by auto
      then show ?thesis using r t1(2) False Some by (auto simp: Part_destroy.simps [of H c "Some p"])
    qed
  qed
qed

lemma Part_destroy_node:
  "Part_destroy H c par t = Some u \<Longrightarrow> t_nodes t k = None \<Longrightarrow>
   Part_destroy H c par (put_node k kd t) = Some (put_node k kd u) \<and> t_nodes u k = None"
proof (induction rule: Part_destroy.raw_induct [rotated 1, consumes 1])
  case (1 f H c par t u)
  show ?case
  proof (cases par)
    case None
    then show ?thesis using 1(2,3) by (simp add: Part_destroy.simps [of H c None])
  next
    case (Some p)
    then obtain t1 nd where t1: "Node_Remove H p c t = Some t1" "t_nodes t1 p = Some nd"
      using 1(2) by (auto simp: bind_eq_Some_conv)
    note r = Node_Remove_node [OF t1(1) 1(3), of kd]
    then have pk: "p \<noteq> k" using t1(2) by auto
    show ?thesis
    proof (cases "Node_Empty nd \<and> \<not> n_ROOT nd \<and> \<not> n_CURR nd")
      case True
      then obtain t2 where "f H (PNode p) (n_parent nd) t1 = Some t2" "u = t2\<lparr>t_nodes := (t_nodes t2)(p := None)\<rparr>"
        using 1(2) Some t1 by (auto simp: bind_eq_Some_conv)
      then show ?thesis using 1(1) [of H "PNode p" "n_parent nd" t1 t2] r t1(2) True Some pk
        by (simp add: Part_destroy.simps [of H c "Some p"]) (simp add: put_node_def fun_upd_twist)
    next
      case False
      then have "u = t1" using 1(2) Some t1 by auto
      then show ?thesis using r t1(2) False Some pk by (auto simp: Part_destroy.simps [of H c "Some p"])
    qed
  qed
qed


text \<open>Removing the record of a part that may go: a leaf, or an empty node that is neither the root nor
  the current node.\<close>

definition erase :: "part \<Rightarrow> tree \<Rightarrow> tree" where
  "erase c t = (case c of
      PNode k \<Rightarrow> t\<lparr>t_nodes := (t_nodes t)(k := None)\<rparr>
    | PLeaf l \<Rightarrow> t\<lparr>t_leaves := (t_leaves t)(l := None)\<rparr>)"

definition removable :: "tree \<Rightarrow> part \<Rightarrow> bool" where
  "removable t c \<longleftrightarrow> (\<forall>k. c = PNode k \<longrightarrow> k \<noteq> t_root t \<and> k \<noteq> t_curr t \<and> (\<forall>i. child_at t (Slot k i) = None))"

definition unslot :: "node_id \<Rightarrow> nat \<Rightarrow> tree \<Rightarrow> tree" where
  "unslot p i t = (case t_nodes t p of None \<Rightarrow> t
     | Some pd \<Rightarrow> put_node p (pd\<lparr>n_children := (n_children pd)[i := None],
                                n_hashes := (n_hashes pd)[i := zero_hash]\<rparr>) t)"

lemma erase_simps [simp]:
  "t_root (erase c t) = t_root t" "t_curr (erase c t) = t_curr t"
  "t_next_node (erase c t) = t_next_node t" "t_next_leaf (erase c t) = t_next_leaf t"
  "t_roothash (erase c t) = t_roothash t"
  "t_nodes (erase c t) n = (if c = PNode n then None else t_nodes t n)"
  "t_leaves (erase c t) l = (if c = PLeaf l then None else t_leaves t l)"
  by (simp_all add: erase_def split: part.splits)

lemma unslot_simps [simp]:
  "t_root (unslot p i t) = t_root t" "t_curr (unslot p i t) = t_curr t"
  "t_next_node (unslot p i t) = t_next_node t" "t_next_leaf (unslot p i t) = t_next_leaf t"
  "t_roothash (unslot p i t) = t_roothash t" "t_leaves (unslot p i t) = t_leaves t"
  "t_nodes (unslot p i t) n =
     (if n = p then map_option (\<lambda>pd. pd\<lparr>n_children := (n_children pd)[i := None],
                                n_hashes := (n_hashes pd)[i := zero_hash]\<rparr>) (t_nodes t p)
      else t_nodes t n)"
  by (simp_all add: unslot_def split: option.splits)

text \<open>The situation in which \<open>c\<close> hangs in slot \<open>i\<close> of \<open>p\<close> and may go.\<close>

definition hangs :: "(node_id \<Rightarrow> nat) \<Rightarrow> tree \<Rightarrow> node_id \<Rightarrow> nat \<Rightarrow> part \<Rightarrow> bool" where
  "hangs lv t p i c \<longleftrightarrow> wf lv t \<and> child_at t (Slot p i) = Some c \<and> removable t c"

lemma hangs_facts:
  assumes "hangs lv t p i c"
  shows "wf lv t" "child_at t (Slot p i) = Some c" "removable t c" "c \<noteq> PNode p" "i < 5"
    "\<exists>pd. t_nodes t p = Some pd" "\<And>hp. child_at t hp = Some c \<Longrightarrow> hp = Slot p i"
proof -
  show wf: "wf lv t" and c: "child_at t (Slot p i) = Some c" and "removable t c"
    using assms by (simp_all add: hangs_def)
  show "c \<noteq> PNode p" using c assms by (auto simp: hangs_def removable_def)
  obtain pd where pd: "t_nodes t p = Some pd" "i < length (n_children pd)" using child_at_dom [OF c] by auto
  then show "\<exists>pd. t_nodes t p = Some pd" "i < 5" using wf_lengths [OF wf pd(1)] by auto
  show "hp = Slot p i" if "child_at t hp = Some c" for hp
    using wfD_child [OF wf c] wfD_child [OF wf that] by (auto simp: child_ok_def split: part.splits)
qed

lemma hangs_child_at:
  assumes "hangs lv t p i c"
  shows "child_at (unslot p i (erase c t)) = (child_at t)(Slot p i := None)"
proof
  fix hp
  note f = hangs_facts [OF assms]
  have k: "n_children kd ! j = None" if "c = PNode k" "t_nodes t k = Some kd" "j < length (n_children kd)" for k j kd
    using f(3) that by (auto simp: removable_def child_at_def dest: spec [of _ j])
  show "child_at (unslot p i (erase c t)) hp = ((child_at t)(Slot p i := None)) hp"
    using f(4) by (cases hp) (auto simp: child_at_def nth_list_update k split: option.splits)
qed


lemma hangs_wf:
  assumes "hangs lv t p i c"
  shows "wf lv (unslot p i (erase c t))" (is "wf lv ?u")
proof -
  note f = hangs_facts [OF assms] and ca = hangs_child_at [OF assms]
  have rc: "c \<noteq> PNode (t_root t)" "c \<noteq> PNode (t_curr t)" using f(3) by (auto simp: removable_def)
  have "node_ok lv ?u n nd" if n: "t_nodes ?u n = Some nd" for n nd
  proof -
    have cn: "c \<noteq> PNode n" using n f(4) by (auto split: if_splits)
    obtain nd0 where nd0: "t_nodes t n = Some nd0" and eq: "n_parent nd = n_parent nd0" "n_hptr nd = n_hptr nd0"
        "n_ROOT nd = n_ROOT nd0" "n_CURR nd = n_CURR nd0"
        "n_children nd = (if n = p then (n_children nd0)[i := None] else n_children nd0)"
        "n_hashes nd = (if n = p then (n_hashes nd0)[i := zero_hash] else n_hashes nd0)"
      using n f(4) cn by (auto split: if_splits)
    note ok = wfD_node [OF f(1) nd0]
    have up: "child_at ?u (Slot q j) = Some (PNode n)" if "child_at t (Slot q j) = Some (PNode n)" for q j
      using that f(2) cn by (auto simp: ca)
    have "n_hashes nd ! j = zero_hash" if "j < 5" "n_children nd ! j = None" for j
      using ok that by (cases "j = i") (auto simp: eq(5,6) node_ok_def split: if_splits)
    then show ?thesis using ok up eq(1-4) by (cases "n = t_root t") (auto simp: node_ok_def eq(5,6))
  qed
  moreover have "leaf_ok lv ?u l lf" if l: "t_leaves ?u l = Some lf" for l lf
  proof -
    have cl: "c \<noteq> PLeaf l" "t_leaves t l = Some lf" using l by (auto split: if_splits)
    have "child_at ?u (Slot q j) = Some (PLeaf l)" if "child_at t (Slot q j) = Some (PLeaf l)" for q j
      using that f(2) cl(1) by (auto simp: ca)
    then show ?thesis using wfD_leaf [OF f(1) cl(2)] unfolding leaf_ok_def by fastforce
  qed
  moreover have "child_ok ?u hp d" if d: "child_at ?u hp = Some d" for hp d
  proof -
    have hp: "child_at t hp = Some d" "hp \<noteq> Slot p i" using d by (auto simp: ca split: if_splits)
    then have "d \<noteq> c" using f(7) by auto
    then show ?thesis using wfD_child [OF f(1) hp(1)] f(4) by (auto simp: child_ok_def split: part.splits)
  qed
  ultimately show ?thesis using f(1,4,6) rc by (auto simp: wf_def)
qed

lemma hangs_get_hash:
  assumes "hangs lv t p i c" "hp \<noteq> Slot p i" "hp = RootHash \<or> child_at t hp \<noteq> None"
  shows "get_hash (unslot p i (erase c t)) hp = get_hash t hp"
proof (cases hp)
  case (Slot q j)
  then have "c \<noteq> PNode q" using assms hangs_facts(3) [OF assms(1)] by (auto simp: removable_def)
  then show ?thesis using Slot assms(2) hangs_facts(4) [OF assms(1)]
    by (auto simp: get_hash_def nth_list_update split: option.splits)
qed (simp add: get_hash_def)

lemma hangs_valid:
  assumes "hangs lv t p i c" "node_valid H t m" "m \<noteq> p"
  shows "node_valid H (unslot p i (erase c t)) m"
  unfolding node_valid_def
proof (intro allI impI)
  fix nd assume nd: "t_nodes (unslot p i (erase c t)) m = Some nd"
  then have m: "t_nodes t m = Some nd" "c \<noteq> PNode m" using assms(3) by (auto split: if_splits)
  note f = hangs_facts [OF assms(1)]
  have "n_hptr nd = RootHash \<or> child_at t (n_hptr nd) = Some (PNode m)"
    using wfD_node [OF f(1) m(1)] by (auto simp: node_ok_def split: if_splits)
  then have "n_hptr nd = RootHash \<or> child_at t (n_hptr nd) \<noteq> None" "n_hptr nd \<noteq> Slot p i" using m(2) f(2) by auto
  then show "get_hash (unslot p i (erase c t)) (n_hptr nd) = Some (ComputeCurrent H nd)"
    using hangs_get_hash [OF assms(1)] assms(2) m(1) by (auto simp: node_valid_def)
qed

lemma hangs_leaf_hash:
  assumes "hangs lv t p i c"
  shows "leaf_hash (unslot p i (erase c t)) l = (if c = PLeaf l then None else leaf_hash t l)"
proof (cases "c = PLeaf l")
  case False
  then have hp: "leaf_hptr (unslot p i (erase c t)) l = leaf_hptr t l" by (simp add: leaf_hptr_def)
  note f = hangs_facts [OF assms]
  show ?thesis
  proof (cases "leaf_hptr t l")
    case (Some q)
    then have q: "child_at t q = Some (PLeaf l)" using leaf_hptr_child [OF f(1)] by metis
    then have "q \<noteq> Slot p i" using f(2) False by auto
    then show ?thesis using hangs_get_hash [OF assms, of q] q hp Some False by (simp add: leaf_hash_def)
  qed (simp add: leaf_hash_def hp False)
qed (simp add: leaf_hash_def leaf_hptr_def)


lemma first_index_unique:
  assumes "i < length xs" "P (xs ! i)" "\<And>j. j < length xs \<Longrightarrow> P (xs ! j) \<Longrightarrow> j = i"
  shows "first_index P xs = Some i"
  using assms
proof (induction xs arbitrary: i)
  case (Cons x xs)
  show ?case
  proof (cases i)
    case 0
    then show ?thesis using Cons.prems by simp
  next
    case (Suc k)
    then have "\<not> P x" using Cons.prems(3) [of 0] by auto
    moreover have "first_index P xs = Some k"
    proof (rule Cons.IH)
      show "k < length xs" "P (xs ! k)" using Cons.prems(1,2) Suc by simp_all
      show "j = k" if "j < length xs" "P (xs ! j)" for j
        using Cons.prems(3) [of "Suc j"] that Suc by simp
    qed
    ultimately show ?thesis using Suc by simp
  qed
qed simp

lemma hangs_index:
  assumes "hangs lv t p i c" "t_nodes t p = Some pd"
  shows "first_index (\<lambda>x. x = Some c) (n_children pd) = Some i"
proof (rule first_index_unique)
  note f = hangs_facts [OF assms(1)]
  show "i < length (n_children pd)" "n_children pd ! i = Some c"
    using f(2) assms(2) by (auto simp: child_at_def split: if_splits)
  show "j = i" if "j < length (n_children pd)" "n_children pd ! j = Some c" for j
    using f(7) [of "Slot p j"] that assms(2) by (auto simp: child_at_def)
qed

lemma hangs_Remove:
  assumes "hangs lv t p i c"
  shows "Node_Remove H p c (erase c t) = Node_Update H p (unslot p i (erase c t))"
proof -
  obtain pd where pd: "t_nodes t p = Some pd" using hangs_facts(6) [OF assms] by blast
  then show ?thesis using hangs_index [OF assms pd] hangs_facts(4) [OF assms]
    by (simp add: Node_Remove_def unslot_def)
qed

definition destroy_post :: "(bytes \<Rightarrow> hash) \<Rightarrow> (node_id \<Rightarrow> nat) \<Rightarrow> part \<Rightarrow> tree \<Rightarrow> tree \<Rightarrow> bool" where
  "destroy_post H lv c t u \<longleftrightarrow> wf lv u \<and> (\<forall>m. node_valid H u m) \<and>
     (\<forall>l. leaf_hash u l = (if c = PLeaf l then None else leaf_hash t l)) \<and>
     t_root u = t_root t \<and> (\<forall>l. c = PLeaf l \<longrightarrow> t_leaves u = (t_leaves t)(l := None)) \<and>
     (\<forall>k. c = PNode k \<longrightarrow> t_leaves u = t_leaves t)"

lemma hangs_Update:
  assumes h: "hangs lv t p i c" and v: "\<forall>m. node_valid H t m"
  shows "\<exists>u. Node_Update H p (unslot p i (erase c t)) = Some u \<and> destroy_post H lv c t u \<and> t_nodes u p \<noteq> None"
proof -
  let ?t1 = "unslot p i (erase c t)"
  note f = hangs_facts [OF h]
  have p1: "t_nodes ?t1 p \<noteq> None" using f(4,6) by auto
  obtain u where u: "Node_Update H p ?t1 = Some u" "update_post H lv p ?t1 u"
    using Node_Update_spec [OF hangs_wf [OF h] p1] by blast
  then have fr: "hash_frame ?t1 u" by (simp add: update_post_def)
  have "node_valid H u m" for m
    using u(2) hangs_valid [OF h] v by (cases "m = p") (auto simp: update_post_def)
  moreover have "leaf_hash u l = leaf_hash ?t1 l" for l
  proof (cases "leaf_hptr ?t1 l")
    case (Some q)
    then show ?thesis using u(2) leaf_hptr_not_node [OF hangs_wf [OF h] Some] hash_frame_leaves(1) [OF fr]
      by (simp add: update_post_def leaf_hash_def)
  qed (simp add: leaf_hash_def hash_frame_leaves(1) [OF fr])
  moreover have "t_leaves u = t_leaves ?t1" "t_root u = t_root t" using fr by (simp_all add: hash_frame_def)
  ultimately have "destroy_post H lv c t u"
    using u(2) hangs_leaf_hash [OF h] by (auto simp: destroy_post_def update_post_def fun_eq_iff)
  then show ?thesis using u(1) hash_frame_dom [OF fr, of p] p1 by blast
qed

lemma Node_Empty_child: "Node_Empty nd \<Longrightarrow> t_nodes t n = Some nd \<Longrightarrow> child_at t (Slot n i) = None"
  by (auto simp: Node_Empty_def Node_Parts_def child_at_def filter_empty_conv dest: nth_mem)

lemma put_erase_node: "t_nodes t k = Some kd \<Longrightarrow> put_node k kd (erase (PNode k) t) = t"
  by (auto simp: put_node_def erase_def intro!: tree.equality)

lemma Part_destroy_erased:
  assumes "hangs lv t p i c" "\<forall>m. node_valid H t m"
  shows "\<exists>u. Part_destroy H c (Some p) (erase c t) = Some u \<and> destroy_post H lv c t u"
  using assms
proof (induction "lv (t_root t) - lv p" arbitrary: t p i c rule: less_induct)
  case less
  obtain t1 where t1: "Node_Remove H p c (erase c t) = Some t1" "destroy_post H lv c t t1" "t_nodes t1 p \<noteq> None"
    using hangs_Update [OF less.prems] hangs_Remove [OF less.prems(1)] by metis
  then obtain nd where nd: "t_nodes t1 p = Some nd" by blast
  have wf1: "wf lv t1" and v1: "\<forall>m. node_valid H t1 m" and r1: "t_root t1 = t_root t"
    using t1(2) by (simp_all add: destroy_post_def)
  note ok = wfD_node [OF wf1 nd]
  show ?case
  proof (cases "Node_Empty nd \<and> \<not> n_ROOT nd \<and> \<not> n_CURR nd")
    case False
    then have "Part_destroy H c (Some p) (erase c t) = Some t1"
      using t1(1) nd by (auto simp: Part_destroy.simps [of H c "Some p"])
    then show ?thesis using t1(2) by blast
  next
    case True
    then have "p \<noteq> t_root t1" using ok by (simp add: node_ok_def)
    then obtain q j qd where q: "n_parent nd = Some q" "child_at t1 (Slot q j) = Some (PNode p)"
      "lv q = Suc (lv p)" "t_nodes t1 q = Some qd" using wf_nonroot [OF wf1 nd] by metis
    have "hangs lv t1 q j (PNode p)"
      using wf1 q(2) True ok Node_Empty_child [OF _ nd]
      by (auto simp: hangs_def removable_def node_ok_def)
    moreover have "lv (t_root t1) - lv q < lv (t_root t) - lv p"
      using q(3) r1 wf_level [OF wf1 q(4)] by simp
    ultimately obtain u where u: "Part_destroy H (PNode p) (Some q) (erase (PNode p) t1) = Some u"
      "destroy_post H lv (PNode p) t1 u" using less.hyps [of t1 q j "PNode p"] v1 by blast
    have "Part_destroy H (PNode p) (Some q) t1 = Some (put_node p nd u)" "t_nodes u p = None"
      using Part_destroy_node [OF u(1), of p nd] put_erase_node [OF nd] by simp_all
    moreover have "(put_node p nd u)\<lparr>t_nodes := (t_nodes (put_node p nd u))(p := None)\<rparr> = u"
      using \<open>t_nodes u p = None\<close> by (auto simp: put_node_def fun_upd_idem)
    ultimately have "Part_destroy H c (Some p) (erase c t) = Some u"
      using t1(1) nd True q(1) by (simp add: Part_destroy.simps [of H c "Some p"])
    moreover have "destroy_post H lv c t u" using u(2) t1(2) by (auto simp: destroy_post_def)
    ultimately show ?thesis by blast
  qed
qed

lemma Leaf_destroy_pend:
  assumes "pend H t {}" "leaf_hash t l \<noteq> None"
  shows "\<exists>u. Leaf_destroy H l t = Some u \<and> pend H u {} \<and> leaf_hash u = (leaf_hash t)(l := None)"
proof -
  obtain lv where wf: "wf lv t" using assms by (auto simp: pend_def)
  obtain hp where hp: "leaf_hptr t l = Some hp" using assms(2) leaf_hash_dom [OF wf, of l] by auto
  then obtain lf where lf: "t_leaves t l = Some lf" "l_hptr lf = Some hp"
    by (auto simp: leaf_hptr_def bind_eq_Some_conv)
  obtain p i where p: "l_parent lf = Some p" "hp = Slot p i" "child_at t (Slot p i) = Some (PLeaf l)"
    using wf_leaf_hptr [OF wf lf] by metis
  have "hangs lv t p i (PLeaf l)" using wf p(3) by (simp add: hangs_def removable_def)
  moreover have v: "\<forall>m. node_valid H t m" using assms(1) by (simp add: pend_def above_def)
  ultimately obtain u where u: "Part_destroy H (PLeaf l) (Some p) (erase (PLeaf l) t) = Some u"
    "destroy_post H lv (PLeaf l) t u" using Part_destroy_erased by blast
  have "(erase (PLeaf l) t)\<lparr>t_leaves := t_leaves t\<rparr> = t" by (auto simp: erase_def)
  then have "Part_destroy H (PLeaf l) (Some p) t = Some (u\<lparr>t_leaves := t_leaves t\<rparr>)"
    using Part_destroy_leaves [OF u(1), of "t_leaves t"] by simp
  moreover have "t_leaves u = (t_leaves t)(l := None)" using u(2) by (simp add: destroy_post_def)
  ultimately have "Leaf_destroy H l t = Some u" using lf(1) p(1) by (simp add: Leaf_destroy_def) 
  moreover have "pend H u {}" using u(2) by (auto simp: pend_def destroy_post_def)
  moreover have "leaf_hash u = (leaf_hash t)(l := None)" using u(2) by (auto simp: destroy_post_def fun_eq_iff)
  ultimately show ?thesis by blast
qed

subsection \<open>Moves\<close>

text \<open>The constructed leaf takes the slot of the moved one, whose husk is destroyed without a trace.\<close>

definition moved_leaf :: "leaf_id \<Rightarrow> node_id \<Rightarrow> nat \<Rightarrow> node \<Rightarrow> tree \<Rightarrow> tree" where
  "moved_leaf l p i pd t = (put_node p (pd\<lparr>n_children := (n_children pd)[i := Some (PLeaf (t_next_leaf t))]\<rparr>) t)
     \<lparr>t_leaves := (t_leaves t)(t_next_leaf t \<mapsto> \<lparr>l_parent = Some p, l_hptr = Some (Slot p i)\<rparr>, l := None),
      t_next_leaf := t_next_leaf t + 1\<rparr>"

lemma moved_leaf_simps:
  "t_nodes (moved_leaf l p i pd t) =
     (t_nodes t)(p \<mapsto> pd\<lparr>n_children := (n_children pd)[i := Some (PLeaf (t_next_leaf t))]\<rparr>)"
  "t_leaves (moved_leaf l p i pd t) =
     (t_leaves t)(t_next_leaf t \<mapsto> \<lparr>l_parent = Some p, l_hptr = Some (Slot p i)\<rparr>, l := None)"
  "t_root (moved_leaf l p i pd t) = t_root t" "t_curr (moved_leaf l p i pd t) = t_curr t"
  "t_next_node (moved_leaf l p i pd t) = t_next_node t" "t_next_leaf (moved_leaf l p i pd t) = t_next_leaf t + 1"
  by (simp_all add: moved_leaf_def)

lemma fresh_leaf: "wf lv t \<Longrightarrow> t_leaves t (t_next_leaf t) = None"
  using wfD_leaf [of lv t "t_next_leaf t"] by (cases "t_leaves t (t_next_leaf t)") (auto simp: leaf_ok_def)

lemma moved_leaf_wf:
  assumes hg: "hangs lv t p i (PLeaf l)" and lf: "t_leaves t l = Some lf" and lv: "lv p = 0"
    and pd: "t_nodes t p = Some pd"
  shows "wf lv (moved_leaf l p i pd t)" (is "wf lv ?u")
proof -
  note f = hangs_facts [OF hg] and fr = fresh_leaf [OF hangs_facts(1) [OF hg]]
  have kl: "t_next_leaf t \<noteq> l" using fr lf by auto
  have i5: "i < length (n_children pd)" using f(5) wf_lengths [OF f(1) pd] by simp
  then have ca: "child_at ?u = (child_at t)(Slot p i \<mapsto> PLeaf (t_next_leaf t))"
    using pd by (auto simp: fun_eq_iff child_at_def moved_leaf_simps nth_list_update split: hptr.splits option.splits)
  have "node_ok lv ?u n nd" if n: "t_nodes ?u n = Some nd" for n nd
  proof -
    obtain nd0 where nd0: "t_nodes t n = Some nd0" and eq: "n_parent nd = n_parent nd0" "n_hptr nd = n_hptr nd0"
        "n_ROOT nd = n_ROOT nd0" "n_CURR nd = n_CURR nd0" "n_hashes nd = n_hashes nd0"
        "n_children nd = (if n = p then (n_children nd0)[i := Some (PLeaf (t_next_leaf t))] else n_children nd0)"
      using n pd by (auto simp: moved_leaf_simps split: if_splits)
    note ok = wfD_node [OF f(1) nd0]
    have up: "child_at ?u (Slot q j) = Some (PNode n)" if "child_at t (Slot q j) = Some (PNode n)" for q j
      using that f(2) by (auto simp: ca)
    have "n_hashes nd ! j = zero_hash" if "j < 5" "n_children nd ! j = None" for j
      using ok that f(5) by (auto simp: eq(5,6) node_ok_def nth_list_update split: if_splits)
    then show ?thesis using ok up eq(1-4)
      by (cases "n = t_root t") (auto simp: node_ok_def eq(5,6) moved_leaf_simps)
  qed
  moreover have "leaf_ok lv ?u m md" if m: "t_leaves ?u m = Some md" for m md
  proof (cases "m = t_next_leaf t")
    case True
    then show ?thesis using m kl lv by (auto simp: leaf_ok_def moved_leaf_simps ca)
  next
    case False
    then have "m \<noteq> l" "t_leaves t m = Some md" using m by (auto simp: moved_leaf_simps split: if_splits)
    moreover have "child_at ?u (Slot q j) = Some (PLeaf m)" if "child_at t (Slot q j) = Some (PLeaf m)" for q j
      using that f(2) \<open>m \<noteq> l\<close> by (auto simp: ca)
    ultimately show ?thesis using wfD_leaf [OF f(1), of m md] by (fastforce simp: leaf_ok_def moved_leaf_simps(6))
  qed
  moreover have "child_ok ?u q d" if d: "child_at ?u q = Some d" for q d
  proof (cases "q = Slot p i")
    case True
    then show ?thesis using d kl by (auto simp: ca child_ok_def moved_leaf_simps)
  next
    case False
    then have q: "child_at t q = Some d" using d by (simp add: ca)
    then have "d \<noteq> PLeaf l" using f(7) [of q] False by auto
    then show ?thesis using wfD_child [OF f(1) q] fr pd
      by (auto simp: child_ok_def moved_leaf_simps split: part.splits)
  qed
  ultimately show ?thesis using f(1) by (simp add: wf_def moved_leaf_simps)
qed

lemma Leaf_move_pend:
  assumes pend: "pend H t {}" and h: "leaf_hash t l = Some h"
  shows "\<exists>k t1 u. Leaf_move l t = Some (k, t1) \<and> Leaf_destroy H l t1 = Some u \<and> pend H u {} \<and>
           leaf_hash t k = None \<and> leaf_hash u = (leaf_hash t)(l := None, k \<mapsto> h)"
proof -
  obtain lv where wf: "wf lv t" using pend by (auto simp: pend_def)
  obtain hp where hp: "leaf_hptr t l = Some hp" using h by (auto simp: leaf_hash_def bind_eq_Some_conv)
  then obtain lf where lf: "t_leaves t l = Some lf" "l_hptr lf = Some hp"
    by (auto simp: leaf_hptr_def bind_eq_Some_conv)
  obtain p i pd where p: "l_parent lf = Some p" "hp = Slot p i" "child_at t (Slot p i) = Some (PLeaf l)"
    "lv p = 0" "t_nodes t p = Some pd" using wf_leaf_hptr [OF wf lf] by metis
  let ?k = "t_next_leaf t" and ?u = "moved_leaf l p i pd t"
  define t1 where "t1 = ?u\<lparr>t_leaves := (t_leaves ?u)(l \<mapsto> \<lparr>l_parent = None, l_hptr = None\<rparr>)\<rparr>"
  have hg: "hangs lv t p i (PLeaf l)" using wf p(3) by (simp add: hangs_def removable_def)
  have kl: "t_leaves t ?k = None" "?k \<noteq> l" using fresh_leaf [OF wf] lf(1) by auto
  have "Leaf_move l t = Some (?k, t1)"
    using lf p(1,2,5) hangs_index [OF hg p(5)]
    by (simp add: Leaf_move_def Node_Replace_def t1_def moved_leaf_def Let_def)
  moreover have "Leaf_destroy H l t1 = Some ?u"
    by (simp add: Leaf_destroy_def t1_def Part_destroy.simps [of H _ None] moved_leaf_def)
  moreover have gh: "get_hash ?u = get_hash t"
    using p(5) by (auto simp: fun_eq_iff get_hash_def moved_leaf_def split: hptr.splits option.splits)
  have "node_valid H ?u n" for n
    using pend p(5) by (cases "n = p")
      (auto simp: pend_def above_def node_valid_def gh moved_leaf_simps ComputeCurrent_def)
  then have "pend H ?u {}" using moved_leaf_wf [OF hg lf(1) p(4,5)] by (auto simp: pend_def)
  moreover have "leaf_hash ?u = (leaf_hash t)(l := None, ?k \<mapsto> h)" "leaf_hash t ?k = None"
    using kl h lf p(2) by (auto simp: fun_eq_iff leaf_hash_def leaf_hptr_def moved_leaf_simps gh)
  ultimately show ?thesis by blast
qed

end
