(* ===== verification/MerkleSpec.thy ===== *)
theory MerkleSpec
  imports MerkleFree
begin

text \<open>
  The contract of the Merkle tree for its clients, the databases (db/db2.cc, db/db3.cc) and Raft
  (raft/raft.cc), as the locale \<open>integrity_tree\<close>: every leaf stores the hash last given to it, and
  verification accepts exactly that hash.  The tree of merkle.cc interprets it.  Tamper evidence is
  proved for arbitrary changes of the hashes in memory below an unchanged root hash.
\<close>

subsection \<open>The contract\<close>

locale integrity_tree =
  fixes pending :: "'t \<Rightarrow> 'l set \<Rightarrow> bool"
    and stored :: "'t \<Rightarrow> 'l \<Rightarrow> hash option"
    and create :: "'t \<Rightarrow> ('l \<times> 't) option"
    and update :: "'l \<Rightarrow> hash \<Rightarrow> 't \<Rightarrow> 't option"
    and verify :: "'l \<Rightarrow> hash \<Rightarrow> 't \<Rightarrow> error option"
    and destroy :: "'l \<Rightarrow> 't \<Rightarrow> 't option"
    and move :: "'l \<Rightarrow> 't \<Rightarrow> ('l \<times> 't) option"
  assumes create_law: "pending t P \<Longrightarrow> \<exists>l u. create t = Some (l, u) \<and> pending u (insert l P) \<and>
            stored t l = None \<and> stored u = (stored t)(l \<mapsto> zero_hash)"
    and update_law: "pending t P \<Longrightarrow> stored t l \<noteq> None \<Longrightarrow> \<exists>u. update l h t = Some u \<and>
            pending u (P - {l}) \<and> stored u = (stored t)(l \<mapsto> h)"
    and verify_law: "pending t {} \<Longrightarrow> stored t l = Some h \<Longrightarrow>
            verify l c t = Some (if c = h then OK else E_Merkle Merkle_VerifyLeaf)"
    and destroy_law: "pending t {} \<Longrightarrow> stored t l \<noteq> None \<Longrightarrow> \<exists>u. destroy l t = Some u \<and>
            pending u {} \<and> stored u = (stored t)(l := None)"
    and move_law: "pending t {} \<Longrightarrow> stored t l = Some h \<Longrightarrow> \<exists>k t1 u. move l t = Some (k, t1) \<and>
            destroy l t1 = Some u \<and> pending u {} \<and> stored t k = None \<and> stored u = (stored t)(l := None, k \<mapsto> h)"
begin

text \<open>A leaf that is created and at once updated, as a new row is.\<close>

lemma create_update:
  assumes "pending t {}"
  obtains l u v where "create t = Some (l, u)" "update l h u = Some v" "pending v {}" "stored t l = None"
    "stored v = (stored t)(l \<mapsto> h)"
proof -
  obtain l u where 1: "create t = Some (l, u)" "pending u {l}" "stored t l = None" "stored u = (stored t)(l \<mapsto> zero_hash)"
    using create_law [OF assms] by blast
  then obtain v where "update l h u = Some v" "pending v {}" "stored v = (stored t)(l \<mapsto> h)"
    using update_law [OF 1(2), of l h] by auto
  then show thesis using that 1 by blast
qed

lemma update_same:
  assumes "pending t {}" "stored t l \<noteq> None"
  obtains u where "update l h t = Some u" "pending u {}" "stored u = (stored t)(l \<mapsto> h)"
  using update_law [OF assms, of h] by auto

text \<open>A leaf created and updated in a temporary that is then moved into its container.\<close>

lemma create_update_move:
  assumes "pending t {}"
  obtains l u v k w x where "create t = Some (l, u)" "update l h u = Some v" "move l v = Some (k, w)"
    "destroy l w = Some x" "pending x {}" "stored t k = None" "stored x = (stored t)(k \<mapsto> h)"
proof -
  obtain l u v where 1: "create t = Some (l, u)" "update l h u = Some v" "pending v {}" "stored t l = None"
    "stored v = (stored t)(l \<mapsto> h)" by (rule create_update [OF assms])
  then have "stored v l = Some h" by simp
  from move_law [OF 1(3) this] obtain k w x where 2: "move l v = Some (k, w)" "destroy l w = Some x"
    "pending x {}" "stored v k = None" "stored x = (stored v)(l := None, k \<mapsto> h)" by blast
  have "k \<noteq> l" using 1(5) 2(4) by auto
  then have "stored t k = None" "stored x = (stored t)(k \<mapsto> h)"
    using 1(4,5) 2(4,5) by (auto simp: fun_eq_iff)
  then show thesis using that 1(1,2) 2(1-3) by blast
qed

end

interpretation mt: integrity_tree "pend H" leaf_hash Leaf_new "Leaf_Update H" "Leaf_Verify H" "Leaf_destroy H" Leaf_move
  for H
proof unfold_locales
  show "\<exists>u. Leaf_Update H l h t = Some u \<and> pend H u (P - {l}) \<and> leaf_hash u = (leaf_hash t)(l \<mapsto> h)"
    if "pend H t P" "leaf_hash t l \<noteq> None" for t P l h
    using Leaf_Update_pend [OF that, of h] by blast
qed (fact Leaf_new_pend Leaf_Verify_pend Leaf_destroy_pend Leaf_move_pend)+

subsection \<open>Runs of the tree\<close>

text \<open>The trees that the clients can build, with the map of stored hashes that each is meant to keep:
  a leaf is created and updated (a new row), updated again, destroyed, or moved into a container.\<close>

inductive tree_reach :: "(bytes \<Rightarrow> hash) \<Rightarrow> tree \<Rightarrow> (leaf_id \<Rightarrow> hash option) \<Rightarrow> bool" for H where
  init: "Tree_init H = Some t \<Longrightarrow> tree_reach H t Map.empty"
| store: "\<lbrakk>tree_reach H t M; Leaf_new t = Some (l, u); Leaf_Update H l h u = Some v\<rbrakk> \<Longrightarrow> tree_reach H v (M(l \<mapsto> h))"
| update: "\<lbrakk>tree_reach H t M; M l \<noteq> None; Leaf_Update H l h t = Some u\<rbrakk> \<Longrightarrow> tree_reach H u (M(l \<mapsto> h))"
| destroy: "\<lbrakk>tree_reach H t M; M l \<noteq> None; Leaf_destroy H l t = Some u\<rbrakk> \<Longrightarrow> tree_reach H u (M(l := None))"
| move: "\<lbrakk>tree_reach H t M; M l = Some h; Leaf_move l t = Some (k, u); Leaf_destroy H l u = Some v\<rbrakk> \<Longrightarrow>
    tree_reach H v (M(l := None, k \<mapsto> h))"

lemma tree_reach_pend: "tree_reach H t M \<Longrightarrow> pend H t {} \<and> leaf_hash t = M"
proof (induction rule: tree_reach.induct)
  case (init t)
  then show ?case using Tree_init_pend [of H] by auto
next
  case (store t M l u h v)
  then show ?case by (metis mt.create_update option.inject prod.inject)
next
  case (update t M l h u)
  then show ?case by (metis mt.update_same option.inject)
next
  case (destroy t M l u)
  then show ?case by (metis mt.destroy_law option.inject)
next
  case (move t M l h k u v)
  then show ?case using mt.move_law [of H t l h] by auto
qed

text \<open>A small run, with a checksum in place of SipHash.\<close>

definition demo_hash :: "bytes \<Rightarrow> hash" where
  "demo_hash x = replicate 8 (sum_list x)"

definition demo_tree :: "(leaf_id \<times> tree) option" where
  "demo_tree = do { t \<leftarrow> Tree_init demo_hash; (l, u) \<leftarrow> Leaf_new t;
                    v \<leftarrow> Leaf_Update demo_hash l (replicate 8 1) u; Some (l, v) }"

lemma demo_reach:
  obtains l t where "demo_tree = Some (l, t)" "tree_reach demo_hash t [l \<mapsto> replicate 8 1]"
proof -
  obtain t where t: "Tree_init demo_hash = Some t" "pend demo_hash t {}" using Tree_init_pend by blast
  then obtain l u v where v: "Leaf_new t = Some (l, u)" "Leaf_Update demo_hash l (replicate 8 1) u = Some v"
    by (metis mt.create_update)
  have "demo_tree = Some (l, v)" using t(1) v by (simp add: demo_tree_def)
  moreover have "tree_reach demo_hash v [l \<mapsto> replicate 8 1]"
    using tree_reach.store [OF tree_reach.init [OF t(1)] v] .
  ultimately show thesis by (rule that)
qed

text \<open>C9: The Merkle tree refines a map from leaves to hashes: after any run of creations, updates,
  destructions and moves of leaves, \<^verbatim>\<open>Leaf::Verify\<close> returns, it accepts the hash that the run last stored in
  the leaf and rejects every other one.\<close>

theorem merkle_tree_refines_map:
  assumes "tree_reach H t M" "M l = Some h"
  shows "Leaf_Verify H l c t = Some (if c = h then OK else E_Merkle Merkle_VerifyLeaf)"
  using tree_reach_pend [OF assms(1)] assms(2) mt.verify_law by blast

theorem merkle_tree_refines_map_witness:
  "\<exists>l t. demo_tree = Some (l, t) \<and> Leaf_Verify demo_hash l (replicate 8 1) t = Some OK \<and>
     Leaf_Verify demo_hash l (replicate 8 2) t = Some (E_Merkle Merkle_VerifyLeaf)"
proof -
  obtain l t where "demo_tree = Some (l, t)" "tree_reach demo_hash t [l \<mapsto> replicate 8 1]" by (rule demo_reach)
  then show ?thesis
    using merkle_tree_refines_map [of demo_hash t "[l \<mapsto> replicate 8 1]" l "replicate 8 1"]
    by (intro exI [of _ l] exI [of _ t]) simp
qed

text \<open>C11: No operation of the Merkle tree fails a CHECK, follows a dangling pointer or runs forever: from
  every reachable tree a leaf can be created (under an unused identity) and updated, and every stored
  leaf can be updated, destroyed and moved.\<close>

theorem merkle_operations_return:
  assumes "tree_reach H t M"
  shows "(\<exists>l u v. Leaf_new t = Some (l, u) \<and> M l = None \<and> Leaf_Update H l h u = Some v) \<and>
         (M l \<noteq> None \<longrightarrow> (\<exists>u. Leaf_Update H l h t = Some u) \<and> (\<exists>u. Leaf_destroy H l t = Some u) \<and>
            (\<exists>k u v. Leaf_move l t = Some (k, u) \<and> M k = None \<and> Leaf_destroy H l u = Some v))"
proof -
  have p: "pend H t {}" "leaf_hash t = M" using tree_reach_pend [OF assms] by auto
  have "\<exists>l u v. Leaf_new t = Some (l, u) \<and> M l = None \<and> Leaf_Update H l h u = Some v"
    using mt.create_update [OF p(1), of h] p(2) by metis
  moreover have "(\<exists>u. Leaf_Update H l h t = Some u) \<and> (\<exists>u. Leaf_destroy H l t = Some u) \<and>
      (\<exists>k u v. Leaf_move l t = Some (k, u) \<and> M k = None \<and> Leaf_destroy H l u = Some v)" if "M l \<noteq> None"
    using that p mt.update_law [of H t "{}" l h] mt.destroy_law [of H t l] mt.move_law [of H t l] by blast
  ultimately show ?thesis by blast
qed

theorem merkle_operations_return_witness:
  "\<exists>l t u. demo_tree = Some (l, t) \<and> Leaf_destroy demo_hash l t = Some u"
proof -
  obtain l t where "demo_tree = Some (l, t)" "tree_reach demo_hash t [l \<mapsto> replicate 8 1]" by (rule demo_reach)
  moreover have "[l \<mapsto> replicate 8 (1 :: byte)] l \<noteq> None" by simp
  ultimately show ?thesis using merkle_operations_return [of demo_hash t "[l \<mapsto> replicate 8 1]" _ l] by blast
qed

subsection \<open>Tamper evidence\<close>

definition hash_sizes :: "tree \<Rightarrow> bool" where
  "hash_sizes t \<longleftrightarrow> (\<forall>n nd. t_nodes t n = Some nd \<longrightarrow> length (n_hashes nd) = MERKLE_NODE_SIZE \<and>
     (\<forall>h \<in> set (n_hashes nd). length h = MERKLE_HASH_SIZE))"

text \<open>Two states of memory exhibit a collision when the same node hashes different contents to the same
  value in them.\<close>

definition collision :: "(bytes \<Rightarrow> hash) \<Rightarrow> tree \<Rightarrow> tree \<Rightarrow> bool" where
  "collision H t t' \<longleftrightarrow> (\<exists>n nd nd'. t_nodes t n = Some nd \<and> t_nodes t' n = Some nd' \<and>
     concat (n_hashes nd) \<noteq> concat (n_hashes nd') \<and> ComputeCurrent H nd = ComputeCurrent H nd')"

lemma concat_same_size:
  "\<lbrakk>concat xs = concat ys; length xs = length ys; \<forall>x \<in> set xs. length x = k; \<forall>y \<in> set ys. length y = k\<rbrakk> \<Longrightarrow>
   xs = ys"
  by (induction xs ys rule: list_induct2') auto

lemma verified_hashes:
  assumes wf: "wf lv t" and v: "\<forall>m. node_valid H t m" and fr: "hash_frame t t'"
    and sz: "hash_sizes t" "hash_sizes t'" and root: "t_roothash t' = t_roothash t"
    and inj: "\<not> collision H t t'"
    and ok: "verify_up H t' (Some n) = Some OK" and n: "t_nodes t n = Some nd" "t_nodes t' n = Some nd'"
  shows "n_hashes nd' = n_hashes nd"
  using ok n
proof (induction "lv (t_root t) - lv n" arbitrary: n nd nd' rule: less_induct)
  case less
  note eq = hash_frame_fields [OF fr less.prems(2,3)]
  from less.prems(1,3) obtain h where h: "get_hash t' (n_hptr nd') = Some h" "ComputeCurrent H nd' = h"
    and up: "verify_up H t' (n_parent nd') = Some OK"
    by (subst (asm) verify_up.simps) (auto simp: bind_eq_Some_conv split: if_splits)
  have "get_hash t' (n_hptr nd) = get_hash t (n_hptr nd)"
  proof (cases "n = t_root t")
    case True
    then show ?thesis using wf_root(2) [OF wf] less.prems(2) root by (simp add: get_hash_def)
  next
    case False
    obtain p i pd where p: "n_parent nd = Some p" "n_hptr nd = Slot p i" "lv p = Suc (lv n)" "t_nodes t p = Some pd"
      using wf_nonroot [OF wf less.prems(2) False] by metis
    obtain pd' where pd': "t_nodes t' p = Some pd'" using hash_frame_dom [OF fr, of p] p(4) by auto
    have "lv (t_root t) - lv p < lv (t_root t) - lv n" using p(3) wf_level [OF wf p(4)] by simp
    then have "n_hashes pd' = n_hashes pd" using less.hyps [OF _ _ p(4) pd'] up eq(2) p(1) by simp
    then show ?thesis using p(2,4) pd' by (simp add: get_hash_def)
  qed
  then have "ComputeCurrent H nd = ComputeCurrent H nd'"
    using h eq(1) v less.prems(2) by (auto simp: node_valid_def)
  then have "concat (n_hashes nd') = concat (n_hashes nd)"
    using inj less.prems(2,3) unfolding collision_def by metis
  then show ?case
    using sz less.prems(2,3)
    by (intro concat_same_size [where k = MERKLE_HASH_SIZE]) (auto simp: hash_sizes_def)
qed

text \<open>C10: Memory tampering is evident.  Let \<open>t'\<close> be a reachable tree whose stored hashes were changed
  arbitrarily, except for the root hash.  If \<^verbatim>\<open>Leaf::Verify\<close> still accepts a hash, then it is the one the
  program stored, unless some node of the two trees exhibits a SipHash collision.\<close>

theorem merkle_tamper_evidence:
  assumes "tree_reach H t M" "M l = Some h" "hash_sizes t"
    and "hash_frame t t'" "hash_sizes t'" "t_roothash t' = t_roothash t"
    and "Leaf_Verify H l c t' = Some OK"
  shows "c = h \<or> collision H t t'"
proof (rule disjCI)
  assume nc: "\<not> collision H t t'"
  have p: "pend H t {}" "leaf_hash t = M" using tree_reach_pend [OF assms(1)] by auto
  then obtain lv where wf: "wf lv t" and v: "\<forall>m. node_valid H t m" by (auto simp: pend_def above_def)
  obtain hp where hp: "leaf_hptr t l = Some hp" "get_hash t hp = Some h"
    using assms(2) p(2) by (auto simp: leaf_hash_def bind_eq_Some_conv)
  obtain q i pd where q: "leaf_parent t l = Some q" "hp = Slot q i" "t_nodes t q = Some pd"
    using leaf_hptr_child [OF wf hp(1)] by metis
  obtain pd' where pd': "t_nodes t' q = Some pd'" using hash_frame_dom [OF assms(4), of q] q(3) by auto
  have l': "leaf_hptr t' l = Some hp" "leaf_parent t' l = Some q"
    using hash_frame_leaves [OF assms(4)] hp(1) q(1) by simp_all
  then have up: "verify_up H t' (Some q) = Some OK" and c: "get_hash t' hp = Some c"
    using assms(7) by (auto simp: Leaf_Verify_def leaf_hptr_def leaf_parent_def bind_eq_Some_conv split: if_splits)
  have "n_hashes pd' = n_hashes pd"
    using verified_hashes [OF wf v assms(4,3,5,6) nc up q(3) pd'] .
  then show "c = h" using c hp(2) q(2,3) pd' by (simp add: get_hash_def split: if_splits)
qed

definition demo_sizes :: "tree \<Rightarrow> bool" where
  "demo_sizes t = list_all (\<lambda>n. case t_nodes t n of None \<Rightarrow> True
     | Some nd \<Rightarrow> length (n_hashes nd) = 5 \<and> list_all (\<lambda>h. length h = 8) (n_hashes nd)) [0..<t_next_node t]"

lemma demo_sizes_check: "case demo_tree of None \<Rightarrow> False | Some (l, t) \<Rightarrow> demo_sizes t"
  by code_simp

lemma demo_sizes_sound:
  assumes "demo_sizes t" "wf lv t"
  shows "hash_sizes t"
  unfolding hash_sizes_def
proof (intro allI impI)
  fix n nd assume n: "t_nodes t n = Some nd"
  then have "n < t_next_node t" using wfD_node [OF assms(2)] by (simp add: node_ok_def)
  then show "length (n_hashes nd) = MERKLE_NODE_SIZE \<and> (\<forall>h \<in> set (n_hashes nd). length h = MERKLE_HASH_SIZE)"
    using assms(1) n by (auto simp: demo_sizes_def list_all_iff dest!: bspec [of _ _ n])
qed

theorem merkle_tamper_evidence_witness:
  "\<exists>l t. demo_tree = Some (l, t) \<and> Leaf_Verify demo_hash l (replicate 8 1) t = Some OK \<and>
     (replicate 8 1 = (replicate 8 1 :: hash) \<or> collision demo_hash t t)"
proof -
  obtain l t where t: "demo_tree = Some (l, t)" "tree_reach demo_hash t [l \<mapsto> replicate 8 1]" by (rule demo_reach)
  then obtain lv where "wf lv t" using tree_reach_pend [OF t(2)] by (auto simp: pend_def)
  moreover have "demo_sizes t" using demo_sizes_check unfolding t(1) by simp
  ultimately have sz: "hash_sizes t" using demo_sizes_sound by blast
  have v: "Leaf_Verify demo_hash l (replicate 8 1) t = Some OK"
    using tree_reach_pend [OF t(2)] mt.verify_law [of demo_hash t l "replicate 8 1"] by simp
  from merkle_tamper_evidence [OF t(2) _ sz _ sz _ v] t(1) v show ?thesis by auto
qed

end
