(* ===== verification/Sip.thy ===== *)
theory Sip
  imports Util
begin

text \<open>
  src/enclave/sip/hasher.cc: SipHash with a stored key.  The C functions \<open>siphash\<close> and \<open>halfsiphash\<close> of the
  SipHash library are parameters; they get the key, the data and the size of the output array.
\<close>

type_synonym siphash_fn = "bytes \<Rightarrow> bytes \<Rightarrow> nat \<Rightarrow> bytes"

text \<open>The \<^verbatim>\<open>std::array\<close> of \<open>n\<close> bytes into which the library writes.\<close>

definition out_array :: "nat \<Rightarrow> bytes \<Rightarrow> bytes" where
  "out_array n written = take n (written @ replicate n 0)"

definition FullZero :: bytes where "FullZero = replicate 16 0"
definition HalfZero :: bytes where "HalfZero = replicate 8 0"

definition Half_Hash8 :: "siphash_fn \<Rightarrow> bytes \<Rightarrow> bytes \<Rightarrow> bytes" where
  "Half_Hash8 halfsiphash key data = out_array 8 (halfsiphash key data 8)"

definition Half_HashU64 :: "siphash_fn \<Rightarrow> bytes \<Rightarrow> bytes \<Rightarrow> 64 word" where
  "Half_HashU64 halfsiphash key data = BigEndian64FromBytes (Half_Hash8 halfsiphash key data)"

definition Half_ResetKey :: "bytes \<Rightarrow> bytes option" where
  "Half_ResetKey key = (if length key = 8 then Some key else None)"

definition Full_Hash8 :: "siphash_fn \<Rightarrow> bytes \<Rightarrow> bytes \<Rightarrow> bytes" where
  "Full_Hash8 siphash key data = out_array 8 (siphash key data 8)"

definition Full_HashU64 :: "siphash_fn \<Rightarrow> bytes \<Rightarrow> bytes \<Rightarrow> 64 word" where
  "Full_HashU64 siphash key data = BigEndian64FromBytes (Full_Hash8 siphash key data)"

definition Full_Hash16 :: "siphash_fn \<Rightarrow> bytes \<Rightarrow> bytes \<Rightarrow> bytes" where
  "Full_Hash16 siphash key data = out_array 16 (siphash key data 16)"

definition Full_ResetKey :: "bytes \<Rightarrow> bytes option" where
  "Full_ResetKey key = (if length key = 16 then Some key else None)"

lemma length_out_array [simp]: "length (out_array n w) = n"
  by (simp add: out_array_def)

lemma length_Hash [simp]:
  "length (Half_Hash8 f k d) = 8" "length (Full_Hash8 f k d) = 8" "length (Full_Hash16 f k d) = 16"
  by (simp_all add: Half_Hash8_def Full_Hash8_def Full_Hash16_def)

end
