(* ===== verification/RaftState.thy ===== *)
theory RaftState
  imports RaftLog Quorum MerkleSpec Sip
begin

text \<open>
  The state of a Raft replica (src/enclave/raft/raft.h, internal.h) and the messages replicas exchange
  (src/enclave/proto/raft.proto).  The Merkle tree that the replica points to is the field \<open>r_merkle\<close>.
  Ticks are integers; \<open>r_rand\<close> counts the calls of \<^verbatim>\<open>rand()\<close>, whose \<open>k\<close>-th value is \<open>env_rand e k\<close>.

  Code outside the repository is the environment \<open>raft_env\<close>: the memory sizes of protobuf objects, SipHash
  for the Merkle tree, HMAC-SHA256, the serialisation of two protobuf messages and \<^verbatim>\<open>rand()\<close>.
\<close>

record raft_env =
  env_sizes :: sizes
  env_H :: "bytes \<Rightarrow> hash"
  env_hmac :: "bytes \<Rightarrow> bytes \<Rightarrow> bytes"
  env_ser_group :: "replica_group \<Rightarrow> bytes"
  env_ser_minimums :: "minimum_limits \<Rightarrow> bytes"
  env_rand :: "nat \<Rightarrow> nat"

subsection \<open>Messages\<close>

record vote_request =
  vr_last_log_idx :: nat
  vr_last_log_term :: nat
  vr_last_log_hash_chain :: bytes

record append_request =
  ar_prev_log_idx :: nat
  ar_prev_log_term :: nat
  ar_leader_commit :: nat
  ar_entries :: "log_entry list"
  ar_leader_promise :: nat
  ar_prev_log_hash_chain :: bytes

record append_response =
  as_success :: bool
  as_match_idx :: nat
  as_last_log_idx :: nat
  as_promise_idx :: nat
  as_match_hash_chain :: bytes

datatype raft_inner =
    RM_NOT_SET
  | VoteRequest vote_request
  | VoteResponse bool
  | AppendRequest append_request
  | AppendResponse append_response
  | TimeoutNow bool

record raft_message =
  rm_group :: nat
  rm_term :: nat
  rm_inner :: raft_inner

record sendable_message =
  sm_message :: raft_message
  sm_to :: "peer_id option"

definition Broadcast :: "raft_message \<Rightarrow> sendable_message" where
  "Broadcast msg = \<lparr>sm_message = msg, sm_to = None\<rparr>"

definition Reply :: "peer_id \<Rightarrow> raft_message \<Rightarrow> sendable_message" where
  "Reply to msg = \<lparr>sm_message = msg, sm_to = Some to\<rparr>"

subsection \<open>Replica state\<close>

definition InvalidTicks :: int where
  "InvalidTicks = 9223372036854775807"

record replication_state =
  rs_next_idx :: nat
  rs_match_idx :: nat
  rs_promise_idx :: nat
  rs_inflight :: "nat option"
  rs_send_probe :: bool
  rs_send_heartbeat :: bool
  rs_last_seen_ticks :: int

datatype role = FOLLOWER | CANDIDATE | LEADER

record follower_state =
  fs_leader :: "peer_id option"
  fs_election :: int

record candidate_state =
  cs_votes_granted :: "peer_id list"
  cs_election :: int

record leader_state =
  ls_followers :: "(peer_id, replication_state) omap"
  ls_heartbeat :: int
  ls_relinquishing :: bool

record raft_config =
  cfg_election_ticks :: nat
  cfg_heartbeat_ticks :: nat
  cfg_replication_chunk_bytes :: nat
  cfg_replica_voting_timeout_ticks :: nat
  cfg_replica_membership_timeout_ticks :: nat
  cfg_log_max_bytes :: nat
  cfg_replication_pipeline :: nat

record raft =
  r_group :: nat
  r_me :: peer_id
  r_merkle :: tree
  r_membership :: membership
  r_uncommitted :: "(nat \<times> membership) list"
  r_config :: raft_config
  r_last_applied :: nat
  r_current_term :: nat
  r_voted_for :: "peer_id option"
  r_role :: role
  r_follower :: follower_state
  r_candidate :: candidate_state
  r_leader :: leader_state
  r_log :: raft_log
  r_commit_leaf :: leaf_id
  r_commit_idx :: nat
  r_promise_leaf :: leaf_id
  r_promise_idx :: nat
  r_sendable :: "sendable_message list"
  r_super_majority :: nat
  r_rand :: nat

definition no_replication :: replication_state where
  "no_replication = \<lparr>rs_next_idx = 0, rs_match_idx = 0, rs_promise_idx = 0, rs_inflight = None,
     rs_send_probe = False, rs_send_heartbeat = False, rs_last_seen_ticks = 0\<rparr>"

definition no_follower :: follower_state where
  "no_follower = \<lparr>fs_leader = None, fs_election = 0\<rparr>"

definition no_candidate :: candidate_state where
  "no_candidate = \<lparr>cs_votes_granted = [], cs_election = 0\<rparr>"

definition no_leader :: leader_state where
  "no_leader = \<lparr>ls_followers = [], ls_heartbeat = 0, ls_relinquishing = False\<rparr>"

definition active_membership :: "raft \<Rightarrow> membership" where
  "active_membership r = (if r_uncommitted r \<noteq> [] then snd (last (r_uncommitted r)) else r_membership r)"

definition voting :: "raft \<Rightarrow> bool" where
  "voting r = (r_me r \<in> set (voting_replicas (active_membership r)))"

definition peers :: "raft \<Rightarrow> peer_id list" where
  "peers r = filter (\<lambda>p. p \<noteq> r_me r) (all_replicas (active_membership r))"

definition membership_quorum_size :: "raft \<Rightarrow> nat" where
  "membership_quorum_size r = quorum_size (length (voting_replicas (active_membership r))) (r_super_majority r)"

definition SetRole :: "role \<Rightarrow> raft \<Rightarrow> raft" where
  "SetRole x r = r\<lparr>r_role := x, r_leader := no_leader, r_follower := no_follower, r_candidate := no_candidate\<rparr>"

definition raft_leader :: "raft \<Rightarrow> peer_id option" where
  "raft_leader r = (case r_role r of
      FOLLOWER \<Rightarrow> fs_leader (r_follower r) | CANDIDATE \<Rightarrow> None | LEADER \<Rightarrow> Some (r_me r))"

definition set_follower :: "peer_id \<Rightarrow> replication_state \<Rightarrow> raft \<Rightarrow> raft" where
  "set_follower p s r = r\<lparr>r_leader := (r_leader r)\<lparr>ls_followers := om_put p s (ls_followers (r_leader r))\<rparr>\<rparr>"

definition get_follower :: "raft \<Rightarrow> peer_id \<Rightarrow> replication_state option" where
  "get_follower r p = map_of (ls_followers (r_leader r)) p"

definition map_followers :: "(replication_state \<Rightarrow> replication_state) \<Rightarrow> raft \<Rightarrow> raft" where
  "map_followers f r = r\<lparr>r_leader := (r_leader r)\<lparr>ls_followers :=
     map (\<lambda>(p, s). (p, f s)) (ls_followers (r_leader r))\<rparr>\<rparr>"

definition last_seen_ticks :: "raft \<Rightarrow> peer_id \<Rightarrow> int" where
  "last_seen_ticks r follower =
     (if r_role r \<noteq> LEADER then InvalidTicks
      else case get_follower r follower of None \<Rightarrow> InvalidTicks | Some f \<Rightarrow> rs_last_seen_ticks f)"

record replication_status =
  st_next_index :: nat
  st_match_index :: nat
  st_inflight_index :: nat
  st_probing :: bool

text \<open>The status message is filled in only for a known follower; the role is CHECKed.\<close>

definition FollowerReplicationStatus ::
  "raft \<Rightarrow> peer_id \<Rightarrow> replication_status \<Rightarrow> (error \<times> replication_status) option" where
  "FollowerReplicationStatus r follower status =
     (if r_role r \<noteq> LEADER then None
      else case get_follower r follower of
          None \<Rightarrow> Some (OK, status)
        | Some f \<Rightarrow>
            let s1 = status\<lparr>st_next_index := rs_next_idx f, st_match_index := rs_match_idx f\<rparr>;
                s2 = (case rs_inflight f of None \<Rightarrow> s1 | Some i \<Rightarrow> s1\<lparr>st_inflight_index := i\<rparr>)
            in Some (OK, s2\<lparr>st_probing := rs_send_probe f\<rparr>))"

text \<open>The division by a zero \<^verbatim>\<open>election_ticks\<close> is undefined; the sum is computed in 32 bits.\<close>

definition RandomElectionTimeout :: "raft_env \<Rightarrow> raft \<Rightarrow> (int \<times> raft) option" where
  "RandomElectionTimeout e r =
     (let ticks = cfg_election_ticks (r_config r) in
      if ticks = 0 then None
      else Some (int ((ticks + env_rand e (r_rand r) mod ticks) mod 2 ^ 32), r\<lparr>r_rand := r_rand r + 1\<rparr>))"

definition set_election_timeout :: "int \<Rightarrow> raft \<Rightarrow> raft" where
  "set_election_timeout t r =
     r\<lparr>r_config := (r_config r)\<lparr>cfg_election_ticks := nat (t mod 2 ^ 32)\<rparr>,
       r_follower := (r_follower r)\<lparr>fs_election := min t (fs_election (r_follower r))\<rparr>,
       r_candidate := (r_candidate r)\<lparr>cs_election := min t (cs_election (r_candidate r))\<rparr>\<rparr>"

definition set_heartbeat_timeout :: "int \<Rightarrow> raft \<Rightarrow> raft" where
  "set_heartbeat_timeout t r =
     r\<lparr>r_config := (r_config r)\<lparr>cfg_heartbeat_ticks := nat (t mod 2 ^ 32)\<rparr>,
       r_leader := (r_leader r)\<lparr>ls_heartbeat := t\<rparr>\<rparr>"

definition Reconfigure :: "raft_config \<Rightarrow> raft \<Rightarrow> raft" where
  "Reconfigure config r =
     set_heartbeat_timeout (int (cfg_heartbeat_ticks config))
       (set_election_timeout (int (cfg_election_ticks config)) (r\<lparr>r_config := config\<rparr>))"

definition set_replication_chunk_size :: "nat \<Rightarrow> raft \<Rightarrow> raft" where
  "set_replication_chunk_size s r = r\<lparr>r_config := (r_config r)\<lparr>cfg_replication_chunk_bytes := s mod 2 ^ 32\<rparr>\<rparr>"

definition SendableMessages :: "raft \<Rightarrow> sendable_message list \<times> raft" where
  "SendableMessages r = (r_sendable r, r\<lparr>r_sendable := []\<rparr>)"

definition HmacSha256 :: "raft_env \<Rightarrow> bytes \<Rightarrow> bytes \<Rightarrow> bytes" where
  "HmacSha256 e key data = out_array 32 (env_hmac e key data)"

end
