(* ===== verification/RaftNode.thy ===== *)
theory RaftNode
  imports RaftState
begin

text \<open>
  src/enclave/raft/raft.cc: the operations of a Raft replica, in the order of the source.  Each takes
  and returns the whole state; \<^term>\<open>None\<close> is a failed CHECK or undefined behaviour.  Messages are queued in
  \<open>r_sendable\<close>.  Logging, metrics and the debug strings are left out.
\<close>

subsection \<open>Sending, votes and membership\<close>

definition AddSendableMessage :: "sendable_message \<Rightarrow> raft \<Rightarrow> raft option" where
  "AddSendableMessage msg r =
     (case sm_to msg of
        Some to \<Rightarrow> if to = r_me r then None else Some (r\<lparr>r_sendable := r_sendable r @ [msg]\<rparr>)
      | None \<Rightarrow>
          if length (all_replicas (active_membership r)) = 1 \<and> r_me r \<in> set (all_replicas (active_membership r))
          then Some r else Some (r\<lparr>r_sendable := r_sendable r @ [msg]\<rparr>))"

definition chain_at :: "raft_log \<Rightarrow> nat \<Rightarrow> bytes" where
  "chain_at lg idx = (case Iter_Entry lg (At lg idx) of None \<Rightarrow> [] | Some en \<Rightarrow> le_hash_chain en)"

definition RequestVoteMessage :: "raft \<Rightarrow> raft_message option" where
  "RequestVoteMessage r =
     (if r_role r \<noteq> CANDIDATE then None
      else Some \<lparr>rm_group = r_group r, rm_term = r_current_term r,
                 rm_inner = VoteRequest \<lparr>vr_last_log_idx = last_idx (r_log r),
                                         vr_last_log_term = last_term (r_log r),
                                         vr_last_log_hash_chain = chain_at (r_log r) (last_idx (r_log r))\<rparr>\<rparr>)"

definition ElectionTimeout :: "raft_env \<Rightarrow> raft \<Rightarrow> raft option" where
  "ElectionTimeout e r =
     (if \<not> voting r then
        do { (t, r1) \<leftarrow> RandomElectionTimeout e r;
             Some (r1\<lparr>r_follower := (r_follower r1)\<lparr>fs_election := t\<rparr>\<rparr>) }
      else if r_role r = LEADER then Some r
      else
        do { let r1 = r\<lparr>r_current_term := u64_add (r_current_term r) 1, r_voted_for := Some (r_me r)\<rparr>;
             (t, r2) \<leftarrow> RandomElectionTimeout e (SetRole CANDIDATE r1);
             let r3 = r2\<lparr>r_candidate := \<lparr>cs_votes_granted = [r_me r], cs_election = t\<rparr>\<rparr>;
             msg \<leftarrow> RequestVoteMessage r3;
             AddSendableMessage (Broadcast msg) r3 })"

definition add_new_follower :: "peer_id \<Rightarrow> raft \<Rightarrow> raft" where
  "add_new_follower peer r =
     (if peer \<noteq> r_me r \<and> get_follower r peer = None
      then set_follower peer
             (no_replication\<lparr>rs_next_idx := next_idx (r_log r), rs_send_probe := True, rs_send_heartbeat := True,
                rs_last_seen_ticks := int (cfg_election_ticks (r_config r))\<rparr>) r
      else r)"

definition HandleMembershipChange :: "raft \<Rightarrow> raft" where
  "HandleMembershipChange r =
     (if r_role r = LEADER then
        let all = all_replicas (active_membership r);
            r1 = fold add_new_follower all r
        in r1\<lparr>r_leader := (r_leader r1)\<lparr>ls_followers :=
              filter (\<lambda>(p, s). p \<in> set all) (ls_followers (r_leader r1))\<rparr>\<rparr>
      else r)"

definition AddUncommittedMembership :: "nat \<Rightarrow> membership \<Rightarrow> raft \<Rightarrow> raft option" where
  "AddUncommittedMembership idx mem r =
     (if r_uncommitted r = [] \<or> fst (last (r_uncommitted r)) < idx
      then Some (HandleMembershipChange (r\<lparr>r_uncommitted := r_uncommitted r @ [(idx, mem)]\<rparr>))
      else None)"

text \<open>The membership that an entry carries, if it carries one.\<close>

definition entry_membership :: "log_entry \<Rightarrow> error + membership option" where
  "entry_membership entry =
     (case le_inner entry of
        MembershipChange g \<Rightarrow>
          (case Membership_FromProto g of Inl err \<Rightarrow> Inl err | Inr mem \<Rightarrow> Inr (Some mem))
      | _ \<Rightarrow> Inr None)"

definition LogAppend :: "raft_env \<Rightarrow> log_entry \<Rightarrow> raft \<Rightarrow> ((log_location \<times> error) \<times> raft) option" where
  "LogAppend e entry r =
     (case entry_membership entry of
        Inl err \<Rightarrow> Some ((default_location, err), r)
      | Inr new_mem \<Rightarrow>
          do { (err, lg) \<leftarrow> Append (env_sizes e) entry (r_last_applied r) (r_log r);
               let r1 = r\<lparr>r_log := lg\<rparr>;
               if err \<noteq> OK then Some ((default_location, err), r1)
               else
                 do { let loc = \<lparr>loc_term = r_current_term r, loc_idx = last_idx lg,
                                 loc_hash_chain = le_hash_chain entry\<rparr>;
                      r2 \<leftarrow> (case new_mem of None \<Rightarrow> Some r1
                             | Some mem \<Rightarrow> AddUncommittedMembership (loc_idx loc) mem r1);
                      Some ((loc, OK), r2) } })"

text \<open>The hash chain over index, term and content of an entry; the first byte tells the contents apart.\<close>

definition chain_input :: "raft_env \<Rightarrow> nat \<Rightarrow> log_entry \<Rightarrow> bytes" where
  "chain_input e idx entry =
     (let idx_term = ByteArrayToString 16 (BigEndian64Bytes (of_nat idx) @ BigEndian64Bytes (of_nat (le_term entry)))
      in case le_inner entry of
           Data d \<Rightarrow> [1] @ idx_term @ d
         | MembershipChange g \<Rightarrow> [2] @ idx_term @ env_ser_group e g
         | Minimums l \<Rightarrow> [4] @ idx_term @ env_ser_minimums e l
         | INNER_NOT_SET \<Rightarrow> [3] @ idx_term)"

definition NextHash :: "raft_env \<Rightarrow> log_entry \<Rightarrow> raft_log \<Rightarrow> bytes" where
  "NextHash e entry lg =
     (let previous_hash = (case MostRecentHash lg of None \<Rightarrow> replicate 32 0 | Some h \<Rightarrow> h)
      in HmacSha256 e previous_hash (chain_input e (next_idx lg) entry))"

definition ClientRequestInternal ::
  "raft_env \<Rightarrow> log_entry \<Rightarrow> raft \<Rightarrow> ((log_location \<times> error) \<times> raft) option" where
  "ClientRequestInternal e entry r =
     (let entry1 = entry\<lparr>le_term := r_current_term r\<rparr>;
          entry2 = entry1\<lparr>le_hash_chain := ByteArrayToString 32 (NextHash e entry1 (r_log r))\<rparr>
      in if r_role r \<noteq> LEADER \<or> ls_relinquishing (r_leader r)
         then Some ((default_location, E_Raft Raft_AppendEntryNotLeader), r)
         else LogAppend e entry2 r)"

definition MaybeBecomeLeader :: "raft_env \<Rightarrow> raft \<Rightarrow> raft option" where
  "MaybeBecomeLeader e r =
     (if r_role r \<noteq> CANDIDATE then Some r
      else if length (cs_votes_granted (r_candidate r)) < membership_quorum_size r then Some r
      else
        do { let r1 = (SetRole LEADER r)\<lparr>r_leader := no_leader\<lparr>ls_heartbeat := 0\<rparr>\<rparr>;
             let r2 = fold (\<lambda>peer r. set_follower peer (no_replication\<lparr>rs_next_idx := next_idx (r_log r)\<rparr>) r)
                        (peers r1) r1;
             (res, r3) \<leftarrow> ClientRequestInternal e default_entry r2;
             Some r3 })"

subsection \<open>The Merkle tree\<close>

definition MerkleHashFromLogIter :: "raft_log \<Rightarrow> nat \<Rightarrow> hash option" where
  "MerkleHashFromLogIter lg iter =
     (case Iter_Entry lg iter of
        None \<Rightarrow> Some zero_hash
      | Some en \<Rightarrow> if length (le_hash_chain en) \<ge> MERKLE_HASH_SIZE
                   then Some (take MERKLE_HASH_SIZE (le_hash_chain en)) else None)"

definition UpdateMerkleTree :: "raft_env \<Rightarrow> raft \<Rightarrow> raft option" where
  "UpdateMerkleTree e r =
     do { hc \<leftarrow> MerkleHashFromLogIter (r_log r) (At (r_log r) (r_commit_idx r));
          t1 \<leftarrow> Leaf_Update (env_H e) (r_commit_leaf r) hc (r_merkle r);
          hp \<leftarrow> MerkleHashFromLogIter (r_log r) (At (r_log r) (r_promise_idx r));
          t2 \<leftarrow> Leaf_Update (env_H e) (r_promise_leaf r) hp t1;
          Some (r\<lparr>r_merkle := t2\<rparr>) }"

definition VerifyMerkleTree :: "raft_env \<Rightarrow> raft \<Rightarrow> error option" where
  "VerifyMerkleTree e r =
     do { hc \<leftarrow> MerkleHashFromLogIter (r_log r) (At (r_log r) (r_commit_idx r));
          err \<leftarrow> Leaf_Verify (env_H e) (r_commit_leaf r) hc (r_merkle r);
          if err \<noteq> OK then Some err
          else do { hp \<leftarrow> MerkleHashFromLogIter (r_log r) (At (r_log r) (r_promise_idx r));
                    Leaf_Verify (env_H e) (r_promise_leaf r) hp (r_merkle r) } }"

subsection \<open>Replication and commit by the leader\<close>

text \<open>The entries from \<open>idx\<close> up to the limit, until their size reaches the chunk size.\<close>

function collect_entries :: "sizes \<Rightarrow> raft_log \<Rightarrow> nat \<Rightarrow> nat \<Rightarrow> nat \<Rightarrow> nat \<Rightarrow> log_entry list" where
  "collect_entries sz lg max_size sent limit idx =
     (if idx < limit then
        (case Iter_Entry lg (At lg idx) of
           None \<Rightarrow> []
         | Some en \<Rightarrow>
             let sent' = u64_add sent (ByteSizeLong sz en) in
             if sent' \<ge> max_size then [en]
             else en # collect_entries sz lg max_size sent' limit (idx + 1))
      else [])"
  by pat_completeness auto
termination
  by (relation "measure (\<lambda>(sz, lg, max_size, total, limit, idx). limit - idx)") auto

declare collect_entries.simps [simp del]

definition append_message :: "raft_env \<Rightarrow> bool \<Rightarrow> nat \<Rightarrow> nat \<Rightarrow> raft \<Rightarrow> append_request" where
  "append_message e send_entries next prev_log_term r =
     (let lg = r_log r;
          prev_log_idx = u64_sub next 1;
          entries = (if send_entries
                     then collect_entries (env_sizes e) lg (cfg_replication_chunk_bytes (r_config r)) 0
                            (u64_add (last_idx lg) 1) next
                     else []);
          last_entry = u64_add prev_log_idx (length entries)
      in \<lparr>ar_prev_log_idx = prev_log_idx, ar_prev_log_term = prev_log_term,
          ar_leader_commit = min (r_commit_idx r) last_entry, ar_entries = entries,
          ar_leader_promise = min (r_promise_idx r) last_entry,
          ar_prev_log_hash_chain = (if prev_log_idx = 0 then [] else chain_at lg prev_log_idx)\<rparr>)"

definition AppendEntries :: "raft_env \<Rightarrow> peer_id \<Rightarrow> raft \<Rightarrow> raft option" where
  "AppendEntries e peer r =
     (if r_role r \<noteq> LEADER then Some r
      else case get_follower r peer of
          None \<Rightarrow> Some r
        | Some replication \<Rightarrow>
            let next = rs_next_idx replication;
                send_entries = (last_idx (r_log r) \<ge> next \<and> \<not> rs_send_probe replication)
            in
            if \<not> send_entries \<and> \<not> rs_send_heartbeat replication \<and> \<not> rs_send_probe replication then Some r
            else if rs_inflight replication \<noteq> None then Some r
            else
              let prev_log_idx = u64_sub next 1;
                  prev_log_term = (if prev_log_idx = 0 then 0 else Iter_Term (r_log r) (At (r_log r) prev_log_idx))
              in
              if prev_log_term = 0 \<and> prev_log_idx \<noteq> 0 then Some r
              else
                let app = append_message e send_entries next prev_log_term r;
                    last_entry = u64_add prev_log_idx (length (ar_entries app));
                    r1 = set_follower peer (replication\<lparr>rs_send_heartbeat := False, rs_inflight := Some last_entry\<rparr>) r
                in AddSendableMessage
                     (Reply peer \<lparr>rm_group = r_group r, rm_term = r_current_term r, rm_inner = AppendRequest app\<rparr>) r1)"

text \<open>The first loop pops committed memberships off the front, the second one drops those behind the log.\<close>

fun promote_committed :: "nat \<Rightarrow> membership \<Rightarrow> (nat \<times> membership) list \<Rightarrow> membership \<times> (nat \<times> membership) list" where
  "promote_committed commit mem [] = (mem, [])"
| "promote_committed commit mem ((idx, m) # unc) =
     (if idx \<le> commit then promote_committed commit m unc else (mem, (idx, m) # unc))"

definition discard_cancelled :: "nat \<Rightarrow> (nat \<times> membership) list \<Rightarrow> (nat \<times> membership) list" where
  "discard_cancelled last_i unc = rev (dropWhile (\<lambda>p. fst p > last_i) (rev unc))"

definition MaybeChangeUncommittedMembershipsBasedOnLog :: "raft \<Rightarrow> raft" where
  "MaybeChangeUncommittedMembershipsBasedOnLog r =
     (let (mem, unc1) = promote_committed (r_commit_idx r) (r_membership r) (r_uncommitted r);
          unc2 = discard_cancelled (last_idx (r_log r)) unc1;
          r1 = r\<lparr>r_membership := mem, r_uncommitted := unc2\<rparr>
      in if length unc2 \<noteq> length (r_uncommitted r) then HandleMembershipChange r1 else r1)"

definition vector_at :: "'a list \<Rightarrow> nat \<Rightarrow> 'a option" where
  "vector_at xs i = (if i < length xs then Some (xs ! i) else None)"

definition sort_descending :: "nat list \<Rightarrow> nat list" where
  "sort_descending xs = rev (sort xs)"

definition voting_followers :: "raft \<Rightarrow> replication_state list" where
  "voting_followers r =
     map snd (filter (\<lambda>(p, s). p \<in> set (voting_replicas (active_membership r))) (ls_followers (r_leader r)))"

definition MaybeAdvanceCommitIndex :: "raft \<Rightarrow> raft option" where
  "MaybeAdvanceCommitIndex r =
     (if r_role r \<noteq> LEADER then Some r
      else
        do { let stored = map rs_match_idx (voting_followers r) @ [last_idx (r_log r)];
             new_promise \<leftarrow> vector_at (sort_descending stored) (u64_sub (membership_quorum_size r) 1);
             let r1 = (if new_promise > r_promise_idx r then r\<lparr>r_promise_idx := new_promise\<rparr> else r);
             let promised = map rs_promise_idx (voting_followers r) @ [r_promise_idx r1];
             new_commit \<leftarrow> vector_at (sort_descending promised) (u64_sub (membership_quorum_size r) 1);
             let r2 = (if new_commit > r_commit_idx r1
                       then MaybeChangeUncommittedMembershipsBasedOnLog (r1\<lparr>r_commit_idx := new_commit\<rparr>) else r1);
             Some (if new_promise > r_promise_idx r \<or> new_commit > r_commit_idx r1
                   then map_followers (\<lambda>s. s\<lparr>rs_send_heartbeat := True\<rparr>) r2 else r2) })"

definition TryToRelinquishLeadership :: "raft_env \<Rightarrow> raft \<Rightarrow> raft option" where
  "TryToRelinquishLeadership e r =
     (case find (\<lambda>peer. peer \<noteq> r_me r \<and>
                   (case get_follower r peer of None \<Rightarrow> False
                    | Some s \<Rightarrow> rs_match_idx s = last_idx (r_log r)))
             (voting_replicas (active_membership r)) of
        None \<Rightarrow> Some r
      | Some next \<Rightarrow>
          do { r1 \<leftarrow> AddSendableMessage
                 (Reply next \<lparr>rm_group = r_group r, rm_term = r_current_term r, rm_inner = TimeoutNow True\<rparr>) r;
               (t, r2) \<leftarrow> RandomElectionTimeout e (SetRole FOLLOWER r1);
               Some (r2\<lparr>r_follower := no_follower\<lparr>fs_election := t\<rparr>\<rparr>) })"

fun append_to_all :: "raft_env \<Rightarrow> peer_id list \<Rightarrow> raft \<Rightarrow> raft option" where
  "append_to_all e [] r = Some r"
| "append_to_all e (p # ps) r = do { r1 \<leftarrow> AppendEntries e p r; append_to_all e ps r1 }"

definition MaybeChangeStateAndSendMessages :: "raft_env \<Rightarrow> raft \<Rightarrow> raft option" where
  "MaybeChangeStateAndSendMessages e r =
     do { r1 \<leftarrow> MaybeBecomeLeader e r;
          err \<leftarrow> VerifyMerkleTree e r1;
          r2 \<leftarrow> (if err = OK then do { r2 \<leftarrow> MaybeAdvanceCommitIndex r1; UpdateMerkleTree e r2 } else Some r1);
          r3 \<leftarrow> append_to_all e (peers r2) r2;
          if r_role r3 = LEADER \<and> ls_relinquishing (r_leader r3) then TryToRelinquishLeadership e r3 else Some r3 }"

subsection \<open>Requests of the enclave\<close>

definition TakeCommittedLog :: "raft \<Rightarrow> ((nat \<times> log_entry) \<times> raft) option" where
  "TakeCommittedLog r =
     (if r_last_applied r \<ge> r_commit_idx r then Some ((0, default_entry), r)
      else
        let idx = u64_add (r_last_applied r) 1 in
        case Iter_Entry (r_log r) (At (r_log r) idx) of
          None \<Rightarrow> None
        | Some entry \<Rightarrow> Some ((idx, entry), r\<lparr>r_last_applied := idx\<rparr>))"

definition tick_seen :: "replication_state \<Rightarrow> replication_state" where
  "tick_seen s = (if rs_last_seen_ticks s \<noteq> InvalidTicks
                  then s\<lparr>rs_last_seen_ticks := rs_last_seen_ticks s + 1\<rparr> else s)"

definition leader_tick :: "raft \<Rightarrow> raft" where
  "leader_tick r =
     (let r1 = map_followers tick_seen r;
          hb = ls_heartbeat (r_leader r1) - 1
      in if 0 \<ge> hb
         then (map_followers (\<lambda>s. s\<lparr>rs_send_heartbeat := True\<rparr>) r1)\<lparr>r_leader :=
                (r_leader (map_followers (\<lambda>s. s\<lparr>rs_send_heartbeat := True\<rparr>) r1))\<lparr>ls_heartbeat :=
                   int (cfg_heartbeat_ticks (r_config r))\<rparr>\<rparr>
         else r1\<lparr>r_leader := (r_leader r1)\<lparr>ls_heartbeat := hb\<rparr>\<rparr>)"

definition TimerTick :: "raft_env \<Rightarrow> raft \<Rightarrow> raft option" where
  "TimerTick e r =
     do { r1 \<leftarrow>
            (case r_role r of
               FOLLOWER \<Rightarrow>
                 let el = fs_election (r_follower r) - 1;
                     r' = r\<lparr>r_follower := (r_follower r)\<lparr>fs_election := el\<rparr>\<rparr>
                 in if 0 \<ge> el then ElectionTimeout e r' else Some r'
             | CANDIDATE \<Rightarrow>
                 let el = cs_election (r_candidate r) - 1;
                     r' = r\<lparr>r_candidate := (r_candidate r)\<lparr>cs_election := el\<rparr>\<rparr>
                 in if 0 \<ge> el then ElectionTimeout e r' else Some r'
             | LEADER \<Rightarrow> Some (leader_tick r));
          MaybeChangeStateAndSendMessages e r1 }"

definition ResetPeer :: "peer_id \<Rightarrow> raft \<Rightarrow> raft option" where
  "ResetPeer peer r =
     (if peer \<notin> set (all_replicas (active_membership r)) then Some r
      else case r_role r of
          FOLLOWER \<Rightarrow> Some r
        | CANDIDATE \<Rightarrow> do { msg \<leftarrow> RequestVoteMessage r; AddSendableMessage (Reply peer msg) r }
        | LEADER \<Rightarrow>
            (case get_follower r peer of
               None \<Rightarrow> Some r
             | Some s \<Rightarrow>
                 Some (set_follower peer (s\<lparr>rs_next_idx := u64_add (last_idx (r_log r)) 1, rs_send_probe := True,
                                            rs_send_heartbeat := True, rs_inflight := None\<rparr>) r)))"

definition RelinquishLeadership :: "raft_env \<Rightarrow> raft \<Rightarrow> raft option" where
  "RelinquishLeadership e r =
     (if r_role r \<noteq> LEADER \<or> ls_relinquishing (r_leader r) then Some r
      else do { (res, r1) \<leftarrow> ClientRequestInternal e default_entry r;
                MaybeChangeStateAndSendMessages e
                  (r1\<lparr>r_leader := (r_leader r1)\<lparr>ls_relinquishing := True\<rparr>\<rparr>) })"

text \<open>The checks of \<^verbatim>\<open>LogRequest\<close> on a requested membership change.\<close>

definition check_membership_request :: "replica_group \<Rightarrow> raft \<Rightarrow> error" where
  "check_membership_request g r =
     (if r_role r \<noteq> LEADER \<or> ls_relinquishing (r_leader r) then E_Raft Raft_AppendEntryNotLeader
      else if r_uncommitted r \<noteq> [] then E_Raft Raft_MembershipAlreadyChanging
      else case Membership_FromProto g of
          Inl err \<Rightarrow> err
        | Inr next \<Rightarrow> ValidProgressionForLeader (r_me r) (r_membership r) next (r_super_majority r))"

definition LogRequest :: "raft_env \<Rightarrow> log_entry \<Rightarrow> raft \<Rightarrow> ((log_location \<times> error) \<times> raft) option" where
  "LogRequest e entry r =
     (let err = (case le_inner entry of MembershipChange g \<Rightarrow> check_membership_request g r | _ \<Rightarrow> OK)
      in if err \<noteq> OK then Some ((default_location, err), r)
         else do { (out, r1) \<leftarrow> ClientRequestInternal e entry r;
                   r2 \<leftarrow> MaybeChangeStateAndSendMessages e r1;
                   Some (out, r2) })"

end
