(* ===== verification/RaftRecv.thy ===== *)
theory RaftRecv
  imports RaftNode
begin

text \<open>
  src/enclave/raft/raft.cc, second part: the handlers of received messages, the validation in front of
  them and the construction of a replica.
\<close>

subsection \<open>Votes\<close>

definition HandleVoteRequest :: "raft_env \<Rightarrow> nat \<Rightarrow> vote_request \<Rightarrow> peer_id \<Rightarrow> raft \<Rightarrow> raft option" where
  "HandleVoteRequest e msg_term msg from r =
     (let last_log_idx = last_idx (r_log r);
          last_log_term = last_term (r_log r);
          log_ok = (vr_last_log_term msg > last_log_term \<or>
                    vr_last_log_term msg = last_log_term \<and> vr_last_log_idx msg \<ge> last_log_idx);
          grant = (msg_term = r_current_term r \<and> log_ok \<and>
                   (r_voted_for r = None \<or> r_voted_for r = Some from))
      in
      if msg_term > r_current_term r then Some r
      else
        do { r1 \<leftarrow>
               (if grant then
                  do { (t, r') \<leftarrow> RandomElectionTimeout e (r\<lparr>r_voted_for := Some from\<rparr>);
                       Some (r'\<lparr>r_follower := (r_follower r')\<lparr>fs_election := t\<rparr>\<rparr>) }
                else Some r);
             AddSendableMessage
               (Reply from \<lparr>rm_group = r_group r1, rm_term = r_current_term r1, rm_inner = VoteResponse grant\<rparr>) r1 })"

definition HandleVoteResponse :: "nat \<Rightarrow> bool \<Rightarrow> peer_id \<Rightarrow> raft \<Rightarrow> raft" where
  "HandleVoteResponse msg_term vote_granted from r =
     (if msg_term \<noteq> r_current_term r then r
      else if r_role r \<noteq> CANDIDATE then r
      else if vote_granted \<and> from \<in> set (voting_replicas (active_membership r))
      then r\<lparr>r_candidate := (r_candidate r)\<lparr>cs_votes_granted := os_insert from (cs_votes_granted (r_candidate r))\<rparr>\<rparr>
      else r)"

subsection \<open>Appends\<close>

text \<open>The conflict of a received entry with the log: whether processing goes on, and the state.\<close>

definition resolve_conflict :: "nat \<Rightarrow> log_entry \<Rightarrow> raft \<Rightarrow> bool \<times> raft" where
  "resolve_conflict idx entry r =
     (let our_idx_term = Iter_Term (r_log r) (At (r_log r) idx) in
      if our_idx_term \<noteq> 0 \<and> our_idx_term \<noteq> le_term entry then
        (if idx \<le> r_commit_idx r then (False, r)
         else if idx \<le> r_promise_idx r then (False, r)
         else
           let (err, lg) = CancelFrom idx (r_log r) in
           if err \<noteq> OK then (False, r\<lparr>r_log := lg\<rparr>)
           else (True, MaybeChangeUncommittedMembershipsBasedOnLog (r\<lparr>r_log := lg\<rparr>)))
      else (True, r))"

definition append_new :: "raft_env \<Rightarrow> nat \<Rightarrow> log_entry \<Rightarrow> raft \<Rightarrow> (bool \<times> raft) option" where
  "append_new e idx entry r =
     (if idx = u64_add (last_idx (r_log r)) 1 then
        (if \<not> ConstantTimeEquals (NextHash e entry (r_log r)) (le_hash_chain entry) then Some (False, r)
         else do { ((loc, err), r1) \<leftarrow> LogAppend e entry r; Some (err = OK, r1) })
      else Some (True, r))"

text \<open>The loop over the entries: the last processed index and the state; \<open>i\<close> counts entries.\<close>

fun process_entries ::
  "raft_env \<Rightarrow> nat \<Rightarrow> nat \<Rightarrow> nat \<Rightarrow> log_entry list \<Rightarrow> raft \<Rightarrow> (nat \<times> raft) option" where
  "process_entries e prev i last_processed [] r = Some (last_processed, r)"
| "process_entries e prev i last_processed (entry # entries) r =
     (let idx = u64_add (u64_add prev i) 1;
          (go_on, r1) = resolve_conflict idx entry r
      in
      if \<not> go_on then Some (last_processed, r1)
      else
        do { (appended, r2) \<leftarrow> append_new e idx entry r1;
             if \<not> appended then Some (last_processed, r2)
             else process_entries e prev (i + 1) idx entries r2 })"

text \<open>The role after an append request of the current term; a leader ignores such a request.\<close>

definition follow_leader :: "raft_env \<Rightarrow> nat \<Rightarrow> peer_id \<Rightarrow> raft \<Rightarrow> raft option" where
  "follow_leader e msg_term from r =
     (if msg_term \<noteq> r_current_term r then Some r
      else case r_role r of
          CANDIDATE \<Rightarrow>
            do { (t, r1) \<leftarrow> RandomElectionTimeout e (SetRole FOLLOWER r);
                 Some (r1\<lparr>r_follower := \<lparr>fs_leader = Some from, fs_election = t\<rparr>\<rparr>) }
        | FOLLOWER \<Rightarrow>
            do { (t, r1) \<leftarrow> RandomElectionTimeout e (r\<lparr>r_follower := (r_follower r)\<lparr>fs_leader := Some from\<rparr>\<rparr>);
                 Some (r1\<lparr>r_follower := (r_follower r1)\<lparr>fs_election := t\<rparr>\<rparr>) }
        | LEADER \<Rightarrow> Some r)"

definition reject_append :: "peer_id \<Rightarrow> raft \<Rightarrow> raft option" where
  "reject_append from r =
     AddSendableMessage
       (Reply from \<lparr>rm_group = r_group r, rm_term = r_current_term r,
          rm_inner = AppendResponse \<lparr>as_success = False, as_match_idx = r_commit_idx r,
            as_last_log_idx = last_idx (r_log r), as_promise_idx = r_promise_idx r,
            as_match_hash_chain = chain_at (r_log r) (r_commit_idx r)\<rparr>\<rparr>) r"

definition accept_append :: "peer_id \<Rightarrow> nat \<Rightarrow> raft \<Rightarrow> raft option" where
  "accept_append from last_processed r =
     AddSendableMessage
       (Reply from \<lparr>rm_group = r_group r, rm_term = r_current_term r,
          rm_inner = AppendResponse \<lparr>as_success = True, as_match_idx = last_processed,
            as_last_log_idx = last_idx (r_log r), as_promise_idx = min (r_promise_idx r) last_processed,
            as_match_hash_chain = chain_at (r_log r) last_processed\<rparr>\<rparr>) r"

definition advance_follower :: "nat \<Rightarrow> nat \<Rightarrow> raft \<Rightarrow> raft" where
  "advance_follower leader_commit leader_promise r =
     (let r1 = (if leader_commit > r_commit_idx r
                then MaybeChangeUncommittedMembershipsBasedOnLog (r\<lparr>r_commit_idx := leader_commit\<rparr>) else r)
      in if leader_promise > r_promise_idx r1 then r1\<lparr>r_promise_idx := leader_promise\<rparr> else r1)"

definition HandleAppendRequest ::
  "raft_env \<Rightarrow> nat \<Rightarrow> append_request \<Rightarrow> peer_id \<Rightarrow> raft \<Rightarrow> raft option" where
  "HandleAppendRequest e msg_term msg from r =
     (let prev_log_idx = ar_prev_log_idx msg;
          our_prev_log = At (r_log r) prev_log_idx;
          log_ok = (prev_log_idx = 0 \<or> Iter_Valid (r_log r) our_prev_log \<and>
                    ar_prev_log_term msg = Iter_Term (r_log r) our_prev_log)
      in
      if msg_term > r_current_term r then Some r
      else if msg_term = r_current_term r \<and> r_role r = LEADER then Some r
      else
        do { r1 \<leftarrow> follow_leader e msg_term from r;
             if msg_term < r_current_term r1 \<or>
                msg_term = r_current_term r1 \<and> r_role r1 = FOLLOWER \<and> \<not> log_ok
             then reject_append from r1
             else if \<not> (msg_term = r_current_term r1 \<and> r_role r1 = FOLLOWER \<and> log_ok) then None
             else
               do { (last_processed, r2) \<leftarrow> process_entries e prev_log_idx 0 prev_log_idx (ar_entries msg) r1;
                    let leader_commit = min (ar_leader_commit msg) last_processed;
                    let leader_promise = min (ar_leader_promise msg) last_processed;
                    if leader_commit > r_commit_idx r2 \<or> leader_promise > r_promise_idx r2 then
                      do { err \<leftarrow> VerifyMerkleTree e r2;
                           if err \<noteq> OK then Some r2
                           else do { r3 \<leftarrow> UpdateMerkleTree e (advance_follower leader_commit leader_promise r2);
                                     accept_append from last_processed r3 } }
                    else accept_append from last_processed r2 } })"

lemma u64_sub_1_less: "0 < c \<Longrightarrow> u64_sub c 1 < c"
proof -
  assume "0 < c"
  then have "c + 2 ^ 64 - 1 = (c - 1) + 2 ^ 64" by simp
  then have "u64_sub c 1 = (c - 1) mod 2 ^ 64" unfolding u64_sub_def by (simp only: mod_add_self2)
  also have "\<dots> \<le> c - 1" by (rule mod_less_eq_dividend)
  finally show ?thesis using \<open>0 < c\<close> by simp
qed

text \<open>The loop that moves \<open>next_idx\<close> back over one chunk of entries after a rejected probe.\<close>

function back_up_chunk :: "sizes \<Rightarrow> raft_log \<Rightarrow> nat \<Rightarrow> nat \<Rightarrow> nat \<Rightarrow> nat \<Rightarrow> nat" where
  "back_up_chunk sz lg match_idx remaining repl_next cur =
     (if cur = 2 ^ 64 - 1 then repl_next
      else if cur \<le> match_idx then repl_next
      else
        let entry_size = Iter_SerializedSize sz lg (At lg repl_next) in
        if entry_size > remaining then repl_next
        else back_up_chunk sz lg match_idx (u64_sub remaining entry_size) cur (u64_sub cur 1))"
  by pat_completeness auto

termination
  by (relation "measure (\<lambda>(sz, lg, m, rem, next, cur). cur)") (auto intro: u64_sub_1_less [simplified])

declare back_up_chunk.simps [simp del]

definition append_succeeded :: "append_response \<Rightarrow> replication_state \<Rightarrow> replication_state" where
  "append_succeeded msg s =
     (let s1 = (case rs_inflight s of
                  Some i \<Rightarrow> if as_match_idx msg \<ge> i then s\<lparr>rs_inflight := None\<rparr> else s
                | None \<Rightarrow> s);
          s2 = (if u64_add (as_match_idx msg) 1 > rs_next_idx s1
                then s1\<lparr>rs_next_idx := u64_add (as_match_idx msg) 1\<rparr> else s1);
          s3 = (if as_match_idx msg > rs_match_idx s2 then s2\<lparr>rs_match_idx := as_match_idx msg\<rparr> else s2);
          s4 = (if as_promise_idx msg > rs_promise_idx s3 then s3\<lparr>rs_promise_idx := as_promise_idx msg\<rparr> else s3)
      in s4\<lparr>rs_send_probe := False\<rparr>)"

definition append_rejected :: "raft_env \<Rightarrow> append_response \<Rightarrow> raft \<Rightarrow> replication_state \<Rightarrow> replication_state" where
  "append_rejected e msg r s =
     (let next = max (u64_add (as_match_idx msg) 1)
                     (min (u64_sub (rs_next_idx s) 1) (u64_add (as_last_log_idx msg) 1))
      in s\<lparr>rs_next_idx := back_up_chunk (env_sizes e) (r_log r) (as_match_idx msg)
                            (cfg_replication_chunk_bytes (r_config r)) next (u64_sub next 1),
           rs_send_probe := True, rs_inflight := None\<rparr>)"

definition HandleAppendResponse ::
  "raft_env \<Rightarrow> nat \<Rightarrow> append_response \<Rightarrow> peer_id \<Rightarrow> raft \<Rightarrow> raft option" where
  "HandleAppendResponse e msg_term msg from r =
     (if msg_term \<noteq> r_current_term r then Some r
      else if r_role r \<noteq> LEADER then Some r
      else case get_follower r from of
          None \<Rightarrow> Some r
        | Some s \<Rightarrow>
            if as_success msg then
              (case Iter_Entry (r_log r) (At (r_log r) (as_match_idx msg)) of
                 Some en \<Rightarrow>
                   if ConstantTimeEquals (as_match_hash_chain msg) (le_hash_chain en)
                   then Some (set_follower from (append_succeeded msg s) r) else None
               | None \<Rightarrow>
                   if as_match_idx msg \<le> last_idx (r_log r)
                   then Some (set_follower from (append_succeeded msg s) r) else None)
            else Some (set_follower from (append_rejected e msg r s) r))"

subsection \<open>Validation and dispatch\<close>

definition UpdateTerm :: "raft_env \<Rightarrow> raft_message \<Rightarrow> raft \<Rightarrow> raft option" where
  "UpdateTerm e msg r =
     (if rm_term msg \<le> r_current_term r then Some r
      else
        do { (t, r1) \<leftarrow>
               (case r_role r of
                  FOLLOWER \<Rightarrow> Some (fs_election (r_follower r), r\<lparr>r_current_term := rm_term msg\<rparr>)
                | CANDIDATE \<Rightarrow> Some (cs_election (r_candidate r), r\<lparr>r_current_term := rm_term msg\<rparr>)
                | LEADER \<Rightarrow> RandomElectionTimeout e (r\<lparr>r_current_term := rm_term msg\<rparr>));
             Some ((SetRole FOLLOWER r1)\<lparr>r_follower := \<lparr>fs_leader = None, fs_election = t\<rparr>, r_voted_for := None\<rparr>) })"

definition ShouldDropResponseDueToStaleTerm :: "raft_message \<Rightarrow> raft \<Rightarrow> bool" where
  "ShouldDropResponseDueToStaleTerm msg r = (rm_term msg < r_current_term r)"

definition CheckLogHash :: "raft \<Rightarrow> nat \<Rightarrow> nat \<Rightarrow> bytes \<Rightarrow> bool \<Rightarrow> error option" where
  "CheckLogHash r idx trm hash allow_future =
     (let lg = r_log r in
      if idx = 0 then Some OK
      else if idx < oldest_stored_idx lg then Some (E_Raft Raft_MsgTruncated)
      else if idx > last_idx lg then Some (if allow_future then OK else E_Raft Raft_MsgInFuture)
      else case Iter_Entry lg (At lg idx) of
          None \<Rightarrow> None
        | Some en \<Rightarrow>
            if trm \<noteq> 0 \<and> trm > le_term en
            then Some (if idx > r_promise_idx r then OK else E_Raft Raft_MsgTermPromised)
            else if trm \<noteq> 0 \<and> trm < le_term en then Some OK
            else if \<not> ConstantTimeEquals hash (le_hash_chain en) then Some (E_Raft Raft_MsgHashMismatch)
            else Some OK)"

fun check_entries :: "raft \<Rightarrow> nat \<Rightarrow> nat \<Rightarrow> log_entry list \<Rightarrow> error option" where
  "check_entries r prev i [] = Some OK"
| "check_entries r prev i (en # ens) =
     do { err \<leftarrow> CheckLogHash r (u64_add (u64_add prev i) 1) (le_term en) (le_hash_chain en) True;
          if err \<noteq> OK then Some err else check_entries r prev (i + 1) ens }"

definition ValidateReceivedMessage :: "raft_message \<Rightarrow> peer_id \<Rightarrow> raft \<Rightarrow> error option" where
  "ValidateReceivedMessage msg from r =
     (if rm_group msg \<noteq> r_group r then Some (E_Raft Raft_MsgWrongGroup)
      else if from \<notin> set (all_replicas (active_membership r)) then Some (E_Raft Raft_MsgNotPeer)
      else case rm_inner msg of
          VoteRequest m \<Rightarrow>
            CheckLogHash r (vr_last_log_idx m) (vr_last_log_term m) (vr_last_log_hash_chain m) True
        | VoteResponse g \<Rightarrow> Some OK
        | AppendRequest m \<Rightarrow>
            do { err \<leftarrow> CheckLogHash r (ar_prev_log_idx m) (ar_prev_log_term m) (ar_prev_log_hash_chain m) True;
                 if err \<noteq> OK then Some err
                 else if ar_leader_commit m > u64_add (ar_prev_log_idx m) (length (ar_entries m))
                 then Some (E_Raft Raft_MsgAppendEntryIndex)
                 else if ar_leader_promise m > u64_add (ar_prev_log_idx m) (length (ar_entries m))
                 then Some (E_Raft Raft_MsgAppendEntryIndex)
                 else if ar_leader_commit m > ar_leader_promise m then Some (E_Raft Raft_MsgLogIndexOrdering)
                 else check_entries r (ar_prev_log_idx m) 0 (ar_entries m) }
        | AppendResponse m \<Rightarrow>
            do { err \<leftarrow> CheckLogHash r (as_match_idx m) 0 (as_match_hash_chain m) False;
                 if err \<noteq> OK then Some err
                 else if as_match_idx m > as_last_log_idx m \<or> as_promise_idx m > as_last_log_idx m
                 then Some (E_Raft Raft_MsgLogIndexOrdering)
                 else Some OK }
        | TimeoutNow b \<Rightarrow> Some OK
        | RM_NOT_SET \<Rightarrow> Some (E_Raft Raft_MsgInvalidType))"

definition mark_seen :: "peer_id \<Rightarrow> raft \<Rightarrow> raft" where
  "mark_seen from r =
     (if r_role r = LEADER
      then case get_follower r from of None \<Rightarrow> r | Some s \<Rightarrow> set_follower from (s\<lparr>rs_last_seen_ticks := 0\<rparr>) r
      else r)"

definition dispatch :: "raft_env \<Rightarrow> raft_message \<Rightarrow> peer_id \<Rightarrow> raft \<Rightarrow> raft option" where
  "dispatch e msg from r =
     (case rm_inner msg of
        VoteRequest m \<Rightarrow> HandleVoteRequest e (rm_term msg) m from r
      | VoteResponse g \<Rightarrow>
          if ShouldDropResponseDueToStaleTerm msg r then Some r
          else Some (HandleVoteResponse (rm_term msg) g from r)
      | AppendRequest m \<Rightarrow> HandleAppendRequest e (rm_term msg) m from r
      | AppendResponse m \<Rightarrow>
          if ShouldDropResponseDueToStaleTerm msg r then Some r
          else HandleAppendResponse e (rm_term msg) m from r
      | TimeoutNow b \<Rightarrow> if ShouldDropResponseDueToStaleTerm msg r then Some r else ElectionTimeout e r
      | RM_NOT_SET \<Rightarrow> Some r)"

definition Receive :: "raft_env \<Rightarrow> raft_message \<Rightarrow> peer_id \<Rightarrow> raft \<Rightarrow> raft option" where
  "Receive e msg from r =
     do { err \<leftarrow> ValidateReceivedMessage msg from r;
          if err \<noteq> OK then Some r
          else do { r1 \<leftarrow> UpdateTerm e msg r;
                    r2 \<leftarrow> dispatch e msg from (mark_seen from r1);
                    MaybeChangeStateAndSendMessages e r2 } }"

subsection \<open>Construction\<close>

definition fresh_raft ::
  "nat \<Rightarrow> peer_id \<Rightarrow> tree \<Rightarrow> leaf_id \<Rightarrow> leaf_id \<Rightarrow> membership \<Rightarrow> raft_log \<Rightarrow> raft_config \<Rightarrow> bool \<Rightarrow> nat \<Rightarrow> nat \<Rightarrow> raft" where
  "fresh_raft grp me t commit_leaf promise_leaf mem lg config committed_log super_majority rnd =
     (let start = (if committed_log then last_idx lg else 0) in
      \<lparr>r_group = grp, r_me = me, r_merkle = t, r_membership = mem, r_uncommitted = [], r_config = config,
       r_last_applied = start, r_current_term = 0, r_voted_for = None, r_role = FOLLOWER,
       r_follower = no_follower, r_candidate = no_candidate, r_leader = no_leader, r_log = lg,
       r_commit_leaf = commit_leaf, r_commit_idx = start, r_promise_leaf = promise_leaf, r_promise_idx = start,
       r_sendable = [], r_super_majority = super_majority, r_rand = rnd\<rparr>)"

definition Raft_new ::
  "raft_env \<Rightarrow> nat \<Rightarrow> peer_id \<Rightarrow> tree \<Rightarrow> membership \<Rightarrow> raft_log \<Rightarrow> raft_config \<Rightarrow> bool \<Rightarrow> nat \<Rightarrow> nat \<Rightarrow> raft option" where
  "Raft_new e grp me t mem lg config committed_log super_majority rnd =
     do { (cl, t1) \<leftarrow> Leaf_new t;
          (pl, t2) \<leftarrow> Leaf_new t1;
          let r = SetRole FOLLOWER (fresh_raft grp me t2 cl pl mem lg config committed_log super_majority rnd);
          (el, r1) \<leftarrow> RandomElectionTimeout e r;
          r2 \<leftarrow> UpdateMerkleTree e (r1\<lparr>r_follower := (r_follower r1)\<lparr>fs_election := el\<rparr>\<rparr>);
          if voting r2 \<and> length (voting_replicas (active_membership r2)) = 1
          then do { r3 \<leftarrow> ElectionTimeout e r2;
                    r4 \<leftarrow> MaybeChangeStateAndSendMessages e r3;
                    if r_sendable r4 = [] then Some r4 else None }
          else Some r2 }"

end
