(* ===== verification/RaftInv.thy ===== *)
theory RaftInv
  imports RaftRecv
begin

text \<open>
  The invariant of a Raft replica.  Its parts speak about the fields they need: the log with the
  indices into it (\<open>log_ok\<close>), the memberships not committed yet (\<open>unc_ok\<close>), the state of the role
  (\<open>role_ok\<close>), the leaves of the Merkle tree (\<open>tree_ok\<close>, and \<open>tree_sync\<close> for the hashes in them), and the
  queued messages (\<open>msgs_ok\<close>).  The relation \<open>ext\<close> says how a replica may change: indices and term
  grow, promised entries stay, and a vote given in a term is kept.
\<close>

subsection \<open>The log\<close>

text \<open>Entries as large as protobuf messages can be: with a hash chain of 32 bytes they take less than
  \<^term>\<open>2 ^ 62\<close> bytes, and a repeated field has fewer than \<^term>\<open>2 ^ 31\<close> elements.\<close>

definition entry_fits :: "raft_env \<Rightarrow> log_entry \<Rightarrow> bool" where
  "entry_fits e en \<longleftrightarrow>
     logentry_bytes_in_log (env_sizes e) (en\<lparr>le_hash_chain := []\<rparr>) + 32 + sizeof_string (env_sizes e) < 2 ^ 62 \<and>
     (\<forall>g. le_inner en = MembershipChange g \<longrightarrow> length g < 2 ^ 31)"

definition prev_hash :: "raft_log \<Rightarrow> nat \<Rightarrow> bytes option" where
  "prev_hash lg i = (if i = 1 then Some (replicate 32 0) else map_option le_hash_chain (entry_at lg (i - 1)))"

definition chain_ok :: "raft_env \<Rightarrow> raft_log \<Rightarrow> bool" where
  "chain_ok e lg \<longleftrightarrow> (\<forall>i en h. entry_at lg i = Some en \<and> prev_hash lg i = Some h \<longrightarrow>
     le_hash_chain en = HmacSha256 e h (chain_input e i en))"

definition log_ok :: "raft_env \<Rightarrow> raft_log \<Rightarrow> nat \<Rightarrow> nat \<Rightarrow> nat \<Rightarrow> bool" where
  "log_ok e lg applied commit promise \<longleftrightarrow>
     log_inv (env_sizes e) lg \<and> log_max_bytes lg < 2 ^ 63 \<and> (log_entries lg = [] \<longrightarrow> log_oldest lg = 1) \<and>
     log_oldest lg \<le> max 1 applied \<and> applied \<le> commit \<and> commit \<le> promise \<and> promise \<le> last_idx lg \<and>
     (\<forall>i en. entry_at lg i = Some en \<longrightarrow> entry_fits e en) \<and> chain_ok e lg"

lemma length_HmacSha256 [simp]: "length (HmacSha256 e k d) = 32"
  by (simp add: HmacSha256_def out_array_def)

lemma log_end_last:
  assumes "log_inv sz lg" "log_entries lg = [] \<longrightarrow> log_oldest lg = 1"
  shows "log_end lg = last_idx lg + 1" "next_idx lg = log_end lg" "u64_add (last_idx lg) 1 = log_end lg"
  using assms last_idx_eq [OF assms(1)]
  by (auto simp: log_end_def log_inv_def next_idx_def u64_simps)

lemma log_okD:
  assumes "log_ok e lg la ci pi"
  shows "log_inv (env_sizes e) lg" "log_end lg = last_idx lg + 1" "next_idx lg = last_idx lg + 1"
    "u64_add (last_idx lg) 1 = last_idx lg + 1" "la \<le> ci" "ci \<le> pi" "pi \<le> last_idx lg" "log_oldest lg \<le> max 1 la"
    "last_idx lg < 2 ^ 64 - 1"
  using assms log_end_last [of "env_sizes e" lg] by (auto simp: log_ok_def log_inv_def)

lemma entry_at_present:
  assumes "log_ok e lg la ci pi" "1 \<le> i" "la \<le> i" "i \<le> last_idx lg"
  obtains en where "entry_at lg i = Some en" "entry_ok en"
proof -
  have "log_oldest lg \<le> i" "i < log_end lg" using assms log_okD [OF assms(1)] by auto
  then obtain en where "entry_at lg i = Some en" by (auto simp: entry_at_eq)
  then show thesis using that log_inv_entry_ok [OF log_okD(1) [OF assms(1)]] by blast
qed

lemma entry_at_0: "log_inv sz lg \<Longrightarrow> entry_at lg 0 = None"
  by (auto simp: entry_at_eq log_inv_def)

lemma prev_hash_end:
  assumes "log_ok e lg la ci pi"
  shows "\<exists>h. prev_hash lg (log_end lg) = Some h \<and> NextHash e en lg = HmacSha256 e h (chain_input e (log_end lg) en)"
proof (cases "log_entries lg = []")
  case True
  then show ?thesis using assms log_okD(1-3) [OF assms] MostRecentHash_last [OF log_okD(1) [OF assms]]
    by (simp add: prev_hash_def NextHash_def log_ok_def log_end_def)
next
  case False
  have "log_end lg \<noteq> 1" using False log_okD(1) [OF assms] by (cases "log_entries lg") (auto simp: log_end_def log_inv_def)
  then show ?thesis
    using False log_okD(1-3) [OF assms] MostRecentHash_last [OF log_okD(1) [OF assms]]
      entry_at_last [OF log_okD(1) [OF assms] False]
    by (simp add: prev_hash_def NextHash_def)
qed

lemma log_inv_list_all: "list_all P (log_entries lg) \<longleftrightarrow> (\<forall>i en. entry_at lg i = Some en \<longrightarrow> P en)"
proof
  assume *: "\<forall>i en. entry_at lg i = Some en \<longrightarrow> P en"
  have "P (log_entries lg ! n)" if "n < length (log_entries lg)" for n
    using * [rule_format, of "log_oldest lg + n"] that by (simp add: entry_at_eq log_end_def)
  then show "list_all P (log_entries lg)" by (simp add: list_all_length)
qed (auto simp: list_all_length entry_at_eq log_end_def split: if_splits)

lemma entry_bytes_hash:
  "length (le_hash_chain en) = 32 \<Longrightarrow> logentry_bytes_in_log sz en =
     logentry_bytes_in_log sz (en\<lparr>le_hash_chain := []\<rparr>) + 32 + sizeof_string sz"
  by (simp add: logentry_bytes_in_log_def le_data_def Let_def)

lemma length_NextHash [simp]: "length (NextHash e en lg) = 32"
  by (simp add: NextHash_def Let_def)

lemma entry_fits_update [simp]:
  "entry_fits e (en\<lparr>le_hash_chain := h\<rparr>) = entry_fits e en" "entry_fits e (en\<lparr>le_term := t\<rparr>) = entry_fits e en"
  by (simp_all add: entry_fits_def logentry_bytes_in_log_def le_data_def Let_def)

lemma entry_membership_update [simp]:
  "entry_membership (en\<lparr>le_hash_chain := h\<rparr>) = entry_membership en"
  "entry_membership (en\<lparr>le_term := t\<rparr>) = entry_membership en"
  by (simp_all add: entry_membership_def)

lemma Append_ok:
  assumes ok: "log_ok e lg la ci pi" and fits: "entry_fits e en" and room: "log_end lg + 1 < 2 ^ 64"
    and hash: "le_hash_chain en = NextHash e en lg"
  shows "\<exists>err lg'. Append (env_sizes e) en la lg = Some (err, lg') \<and> log_ok e lg' la ci pi \<and>
    log_oldest lg \<le> log_oldest lg' \<and> log_oldest lg' \<le> max (log_oldest lg) la \<and> log_max_bytes lg' = log_max_bytes lg \<and>
    last_idx lg' = last_idx lg + (if err = OK then 1 else 0) \<and>
    entry_at lg' = (\<lambda>i. if err = OK \<and> i = last_idx lg + 1 then Some en
                        else if i < log_oldest lg' then None else entry_at lg i)"
proof -
  note d = log_okD [OF ok]
  have t: "la \<le> log_end lg" using d by linarith
  have mem: "logentry_bytes_in_log (env_sizes e) en + log_max_bytes lg < 2 ^ 64"
    using ok fits hash entry_bytes_hash [of en "env_sizes e"] by (simp add: log_ok_def entry_fits_def)
  obtain k err lg' where a: "Append (env_sizes e) en la lg = Some (err, lg')" "k \<le> length (log_entries lg)"
    "k = 0 \<or> log_oldest lg + k \<le> la" "err \<noteq> OK \<longrightarrow> lg' = drop_oldest (env_sizes e) k lg"
    "err = OK \<longrightarrow> lg' = (drop_oldest (env_sizes e) k lg)\<lparr>log_entries := drop k (log_entries lg) @ [en],
         log_curr_bytes := log_curr_bytes (drop_oldest (env_sizes e) k lg) + logentry_bytes_in_log (env_sizes e) en\<rparr>"
    using Append_spec [OF d(1) t mem] by blast
  note at = Append_entry_at [OF d(1) t mem a(1)]
  have inv: "log_inv (env_sizes e) lg'" by (rule log_inv_Append [OF d(1) t mem a(1) room])
  have mx: "log_max_bytes lg' = log_max_bytes lg" using a(4,5) by (cases "err = OK") auto
  have ne: "log_entries lg' = [] \<longrightarrow> log_oldest lg' = 1"
    using a(2-5) d ok by (cases "err = OK") (auto simp: log_ok_def log_end_def)
  have last: "last_idx lg' = last_idx lg + (if err = OK then 1 else 0)"
    using at(4) log_end_last(1) [OF inv ne] d(2) by (simp split: if_splits)
  have "prev_hash lg' i = Some h \<Longrightarrow> prev_hash lg i = Some h" if "entry_at lg' i \<noteq> None" for i h
    using that at(3) d(2) inv by (auto simp: prev_hash_def entry_at_eq log_end_def split: if_splits)
  moreover obtain h where "prev_hash lg (log_end lg) = Some h" "NextHash e en lg = HmacSha256 e h (chain_input e (log_end lg) en)"
    using prev_hash_end [OF ok] by blast
  ultimately have ch: "chain_ok e lg'" using ok hash at(3) unfolding chain_ok_def log_ok_def
    by (auto split: if_splits)
  have "log_ok e lg' la ci pi" using ok inv ne mx at ch last fits unfolding log_ok_def
    by (auto split: if_splits)
  then show ?thesis using a(1) at mx last d(2) by auto
qed

lemma Cancel_ok:
  assumes ok: "log_ok e lg la ci pi" and i: "pi < i" "i \<le> last_idx lg"
  shows "\<exists>lg'. CancelFrom i lg = (OK, lg') \<and> log_ok e lg' la ci pi \<and> log_oldest lg' = log_oldest lg \<and>
    log_max_bytes lg' = log_max_bytes lg \<and> last_idx lg' = i - 1 \<and>
    entry_at lg' = (\<lambda>j. if j < i then entry_at lg j else None)"
proof -
  note d = log_okD [OF ok]
  have b: "log_oldest lg \<le> i" "i \<le> log_end lg" using d i by auto
  obtain err lg' where c: "CancelFrom i lg = (err, lg')" by (cases "CancelFrom i lg")
  note at = entry_at_CancelFrom [OF b c]
  have inv: "log_inv (env_sizes e) lg'" by (rule log_inv_CancelFrom [OF d(1) b c])
  have mx: "log_max_bytes lg' = log_max_bytes lg" using c CancelFrom_spec [OF b] by auto
  have ne: "log_entries lg' = [] \<longrightarrow> log_oldest lg' = 1"
    using at(2,3) d i ok by (auto simp: log_end_def log_ok_def log_inv_def)
  have last: "last_idx lg' = i - 1" using at(2) log_end_last(1) [OF inv ne] by simp
  have "prev_hash lg' j = Some h \<Longrightarrow> prev_hash lg j = Some h" for j h
    using at(1) by (auto simp: prev_hash_def split: if_splits)
  then have "chain_ok e lg'" using ok at(1) unfolding chain_ok_def log_ok_def by (auto split: if_splits)
  then have "log_ok e lg' la ci pi" using ok inv ne mx at last i unfolding log_ok_def
    by (auto split: if_splits)
  then show ?thesis using c at mx last by auto
qed

subsection \<open>The invariant\<close>

definition act :: "membership \<Rightarrow> (nat \<times> membership) list \<Rightarrow> membership" where
  "act mem unc = (if unc \<noteq> [] then snd (last unc) else mem)"

lemma active_act: "active_membership r = act (r_membership r) (r_uncommitted r)"
  by (simp add: active_membership_def act_def)

definition mem_ok :: "membership \<Rightarrow> bool" where
  "mem_ok m \<longleftrightarrow> membership_inv m \<and> length (all_replicas m) < 2 ^ 31"

text \<open>The membership that the entry at an index changes to.\<close>

definition change_at :: "raft_log \<Rightarrow> nat \<Rightarrow> membership option" where
  "change_at lg i = (case entry_at lg i of None \<Rightarrow> None
     | Some en \<Rightarrow> (case entry_membership en of Inr (Some m) \<Rightarrow> Some m | _ \<Rightarrow> None))"

definition unc_ok :: "raft_log \<Rightarrow> nat \<Rightarrow> membership \<Rightarrow> (nat \<times> membership) list \<Rightarrow> bool" where
  "unc_ok lg commit mem unc \<longleftrightarrow>
     mem_ok mem \<and> (\<forall>m \<in> snd ` set unc. mem_ok m) \<and> sorted_wrt (<) (map fst unc) \<and>
     (\<forall>i m. (i, m) \<in> set unc \<longleftrightarrow> commit < i \<and> change_at lg i = Some m)"

definition repl_ok :: "nat \<Rightarrow> replication_state \<Rightarrow> bool" where
  "repl_ok lasti s \<longleftrightarrow> 1 \<le> rs_next_idx s \<and> rs_next_idx s \<le> lasti + 1 \<and> rs_match_idx s \<le> lasti \<and>
     rs_promise_idx s \<le> rs_match_idx s"

definition followers_ok :: "peer_id \<Rightarrow> membership \<Rightarrow> nat \<Rightarrow> (peer_id, replication_state) omap \<Rightarrow> bool" where
  "followers_ok me am lasti fs \<longleftrightarrow>
     om_inv fs \<and> fst ` set fs = set (all_replicas am) - {me} \<and> (\<forall>s \<in> snd ` set fs. repl_ok lasti s)"

definition role_ok ::
  "peer_id \<Rightarrow> membership \<Rightarrow> nat \<Rightarrow> peer_id option \<Rightarrow> role \<Rightarrow> peer_id list \<Rightarrow> (peer_id, replication_state) omap \<Rightarrow> nat \<Rightarrow> bool" where
  "role_ok me am trm vote rl votes fs lasti \<longleftrightarrow>
     (rl = CANDIDATE \<longrightarrow> 0 < trm \<and> vote = Some me \<and> me \<in> set (voting_replicas am) \<and> os_inv votes \<and>
        me \<in> set votes \<and> set votes \<subseteq> set (voting_replicas am)) \<and>
     (rl = LEADER \<longrightarrow> 0 < trm \<and> vote = Some me \<and> me \<in> set (voting_replicas am) \<and> followers_ok me am lasti fs)"

definition tree_ok :: "raft_env \<Rightarrow> tree \<Rightarrow> leaf_id \<Rightarrow> leaf_id \<Rightarrow> bool" where
  "tree_ok e t cl pl \<longleftrightarrow> pend (env_H e) t {} \<and> leaf_hash t cl \<noteq> None \<and> leaf_hash t pl \<noteq> None \<and> cl \<noteq> pl"

definition log_hash :: "raft_log \<Rightarrow> nat \<Rightarrow> hash" where
  "log_hash lg i = (case entry_at lg i of None \<Rightarrow> zero_hash | Some en \<Rightarrow> take 8 (le_hash_chain en))"

definition tree_sync :: "raft_log \<Rightarrow> nat \<Rightarrow> nat \<Rightarrow> tree \<Rightarrow> leaf_id \<Rightarrow> leaf_id \<Rightarrow> bool" where
  "tree_sync lg commit promise t cl pl \<longleftrightarrow>
     leaf_hash t cl = Some (log_hash lg commit) \<and> leaf_hash t pl = Some (log_hash lg promise)"

text \<open>What a replica relies on in messages of its peers beyond what it validates itself.\<close>

definition msg_ok :: "raft_env \<Rightarrow> raft_message \<Rightarrow> bool" where
  "msg_ok e msg \<longleftrightarrow> rm_term msg < 2 ^ 64 \<and>
     (case rm_inner msg of
        AppendRequest m \<Rightarrow> list_all (entry_fits e) (ar_entries m)
      | AppendResponse m \<Rightarrow> as_success m \<longrightarrow> as_promise_idx m \<le> as_match_idx m
      | _ \<Rightarrow> True)"

definition msgs_ok :: "raft_env \<Rightarrow> peer_id \<Rightarrow> sendable_message list \<Rightarrow> bool" where
  "msgs_ok e me ms \<longleftrightarrow> (\<forall>m \<in> set ms. msg_ok e (sm_message m) \<and> sm_to m \<noteq> Some me)"

definition base_inv :: "raft_env \<Rightarrow> raft \<Rightarrow> bool" where
  "base_inv e r \<longleftrightarrow>
     log_ok e (r_log r) (r_last_applied r) (r_commit_idx r) (r_promise_idx r) \<and>
     unc_ok (r_log r) (r_commit_idx r) (r_membership r) (r_uncommitted r) \<and>
     role_ok (r_me r) (act (r_membership r) (r_uncommitted r)) (r_current_term r) (r_voted_for r) (r_role r)
       (cs_votes_granted (r_candidate r)) (ls_followers (r_leader r)) (last_idx (r_log r)) \<and>
     tree_ok e (r_merkle r) (r_commit_leaf r) (r_promise_leaf r) \<and>
     msgs_ok e (r_me r) (r_sendable r) \<and>
     0 < cfg_election_ticks (r_config r) \<and> r_super_majority r < 2 ^ 32 \<and> r_current_term r < 2 ^ 64"

definition synced :: "raft \<Rightarrow> bool" where
  "synced r \<longleftrightarrow> tree_sync (r_log r) (r_commit_idx r) (r_promise_idx r) (r_merkle r) (r_commit_leaf r) (r_promise_leaf r)"

definition raft_inv :: "raft_env \<Rightarrow> raft \<Rightarrow> bool" where
  "raft_inv e r \<longleftrightarrow> base_inv e r \<and> synced r"

subsection \<open>How a replica may change\<close>

definition log_ext :: "nat \<Rightarrow> raft_log \<Rightarrow> raft_log \<Rightarrow> bool" where
  "log_ext promise a b \<longleftrightarrow> log_oldest a \<le> log_oldest b \<and> log_max_bytes b = log_max_bytes a \<and>
     (\<forall>i. i \<le> promise \<and> log_oldest b \<le> i \<longrightarrow> entry_at b i = entry_at a i)"

definition same_identity :: "raft \<Rightarrow> raft \<Rightarrow> bool" where
  "same_identity r r' \<longleftrightarrow> r_group r' = r_group r \<and> r_me r' = r_me r \<and> r_super_majority r' = r_super_majority r \<and>
     r_commit_leaf r' = r_commit_leaf r \<and> r_promise_leaf r' = r_promise_leaf r \<and>
     (\<forall>l. l \<noteq> r_commit_leaf r \<and> l \<noteq> r_promise_leaf r \<longrightarrow> leaf_hash (r_merkle r') l = leaf_hash (r_merkle r) l)"

definition ext :: "raft \<Rightarrow> raft \<Rightarrow> bool" where
  "ext r r' \<longleftrightarrow> same_identity r r' \<and> r_last_applied r \<le> r_last_applied r' \<and> r_current_term r \<le> r_current_term r' \<and>
     r_commit_idx r \<le> r_commit_idx r' \<and> r_promise_idx r \<le> r_promise_idx r' \<and>
     log_ext (r_promise_idx r) (r_log r) (r_log r') \<and>
     (r_current_term r' = r_current_term r \<and> r_voted_for r \<noteq> None \<longrightarrow> r_voted_for r' = r_voted_for r) \<and>
     (\<exists>ms. r_sendable r' = r_sendable r @ ms)"

lemma log_ext_refl [simp]: "log_ext p a a"
  by (simp add: log_ext_def)

lemma log_ext_trans: "log_ext p a b \<Longrightarrow> log_ext q b c \<Longrightarrow> p \<le> q \<Longrightarrow> log_ext p a c"
  by (auto simp: log_ext_def)

lemma ext_refl [simp]: "ext r r"
  by (simp add: ext_def same_identity_def)

lemma ext_trans: "ext a b \<Longrightarrow> ext b c \<Longrightarrow> ext a c"
  unfolding ext_def same_identity_def by (auto intro: log_ext_trans)

definition good :: "raft_env \<Rightarrow> raft \<Rightarrow> raft \<Rightarrow> bool" where
  "good e r r' \<longleftrightarrow> base_inv e r' \<and> ext r r' \<and> (synced r \<longrightarrow> synced r')"

lemma good_refl: "base_inv e r \<Longrightarrow> good e r r"
  by (simp add: good_def)

lemma good_trans: "good e a b \<Longrightarrow> good e b c \<Longrightarrow> good e a c"
  by (auto simp: good_def intro: ext_trans)

lemma good_base: "good e a b \<Longrightarrow> base_inv e b"
  by (simp add: good_def)

end
