(* ===== verification/RaftOps.thy ===== *)
theory RaftOps
  imports RaftInv
begin

text \<open>
  Every internal operation of a replica returns from a state with the invariant, keeps the invariant and
  changes the replica only as \<open>ext\<close> allows.
\<close>

lemmas good_defs = good_def base_inv_def ext_def same_identity_def synced_def

subsection \<open>Memberships\<close>

lemma from_replicas_length:
  "from_replicas out rs = Inr m \<Longrightarrow> length (all_replicas m) \<le> length (all_replicas out) + length rs"
proof (induction rs arbitrary: out)
  case (Cons r rs)
  have ins: "length (os_insert p s) \<le> Suc (length s)" for p :: peer_id and s
    by (induction p s rule: os_insert.induct) auto
  obtain p o2 where "from_replicas o2 rs = Inr m" "all_replicas o2 = os_insert p (all_replicas out)"
    using Cons.prems by (auto simp: Let_def split: sum.splits if_splits)
  then show ?case using Cons.IH [of o2] ins [of p "all_replicas out"] by simp
qed simp

lemma entry_membership_ok:
  assumes "entry_membership en = Inr (Some m)" "entry_fits e en"
  shows "mem_ok m"
proof -
  obtain g where g: "le_inner en = MembershipChange g" "Membership_FromProto g = Inr m"
    using assms(1) by (auto simp: entry_membership_def split: log_inner.splits sum.splits)
  then have "length (all_replicas m) \<le> length g"
    using from_replicas_length [of empty_membership g m] by (simp add: Membership_FromProto_def empty_membership_def)
  then show ?thesis using assms(2) g by (auto simp: mem_ok_def entry_fits_def intro: inv_intros)
qed

lemma mem_ok_quorum:
  assumes "mem_ok m" "voting_replicas m \<noteq> []" "s < 2 ^ 32"
  shows "quorum_bounds (length (voting_replicas m)) s"
    "0 < quorum_size (length (voting_replicas m)) s"
    "quorum_size (length (voting_replicas m)) s \<le> length (voting_replicas m)"
proof -
  have "card (set (voting_replicas m)) \<le> card (set (all_replicas m))"
    using assms by (intro card_mono) (auto simp: mem_ok_def membership_inv_def)
  then have "length (voting_replicas m) < 2 ^ 31"
    using assms by (simp add: mem_ok_def membership_inv_def os_inv_card)
  then show b: "quorum_bounds (length (voting_replicas m)) s" using assms by simp
  show "0 < quorum_size (length (voting_replicas m)) s" using quorum_size_pos [OF b] assms by simp
qed (rule quorum_size_le)

lemma act_mem_ok: "unc_ok lg ci mem unc \<Longrightarrow> mem_ok (act mem unc)"
  by (auto simp: unc_ok_def act_def)

subsection \<open>Followers of a leader\<close>

lemma repl_ok_new [simp]: "repl_ok l (no_replication\<lparr>rs_next_idx := Suc l\<rparr>)"
  "repl_ok l (no_replication\<lparr>rs_next_idx := Suc l, rs_send_probe := a, rs_send_heartbeat := b, rs_last_seen_ticks := t\<rparr>)"
  by (simp_all add: repl_ok_def no_replication_def)

lemma fold_add_new_follower:
  assumes "om_inv fs" "\<forall>s \<in> snd ` set fs. repl_ok l s" "next_idx (r_log r) = Suc l" "ls_followers (r_leader r) = fs"
  shows "\<exists>fs'. fold add_new_follower ps r = r\<lparr>r_leader := (r_leader r)\<lparr>ls_followers := fs'\<rparr>\<rparr> \<and> om_inv fs' \<and>
    fst ` set fs' = fst ` set fs \<union> (set ps - {r_me r}) \<and> (\<forall>s \<in> snd ` set fs'. repl_ok l s)"
  using assms
proof (induction ps arbitrary: r fs)
  case Nil
  then show ?case by (intro exI [of _ fs]) auto
next
  case (Cons p ps)
  let ?s = "no_replication\<lparr>rs_next_idx := Suc l, rs_send_probe := True, rs_send_heartbeat := True,
              rs_last_seen_ticks := int (cfg_election_ticks (r_config r))\<rparr>"
  define gs where "gs = (if p \<noteq> r_me r \<and> map_of fs p = None then om_put p ?s fs else fs)"
  have r1: "add_new_follower p r = r\<lparr>r_leader := (r_leader r)\<lparr>ls_followers := gs\<rparr>\<rparr>"
    using Cons.prems by (simp add: add_new_follower_def gs_def get_follower_def set_follower_def)
  have gs1: "om_inv gs" using Cons.prems(1) om_inv_put unfolding gs_def by auto
  have gs2: "\<forall>s \<in> snd ` set gs. repl_ok l s"
    unfolding gs_def using Cons.prems(2) om_put_all [OF Cons.prems(2) repl_ok_new(2)]
    by (simp only: split: if_split) blast
  have gs3: "fst ` set gs = fst ` set fs \<union> ({p} - {r_me r})"
    by (auto simp: gs_def fst_om_put map_of_eq_None_iff)
  let ?r1 = "r\<lparr>r_leader := (r_leader r)\<lparr>ls_followers := gs\<rparr>\<rparr>"
  obtain fs' where fs': "fold add_new_follower ps ?r1 = ?r1\<lparr>r_leader := (r_leader ?r1)\<lparr>ls_followers := fs'\<rparr>\<rparr>" "om_inv fs'"
    "fst ` set fs' = fst ` set gs \<union> (set ps - {r_me ?r1})" "\<forall>s \<in> snd ` set fs'. repl_ok l s"
    using Cons.IH [OF gs1 gs2, of ?r1] Cons.prems(3) by (simp del: fun_upd_apply) blast
  have "fold add_new_follower (p # ps) r = r\<lparr>r_leader := (r_leader r)\<lparr>ls_followers := fs'\<rparr>\<rparr>"
    using fs'(1) by (simp add: r1)
  moreover have "fst ` set fs' = fst ` set fs \<union> (set (p # ps) - {r_me r})" using fs'(3) gs3 by auto
  ultimately show ?case using fs'(2,4) by blast
qed

lemma om_inv_filter: "om_inv m \<Longrightarrow> om_inv (filter P m)"
  by (simp add: om_inv_def sorted_wrt_map sorted_wrt_filter)

lemma fst_filter_keys: "fst ` set (filter (\<lambda>(k, v). k \<in> A) m) = fst ` set m \<inter> A"
  by force

lemma HandleMembershipChange_follower: "r_role r \<noteq> LEADER \<Longrightarrow> HandleMembershipChange r = r"
  by (simp add: HandleMembershipChange_def)

lemma HandleMembershipChange_ok:
  assumes "om_inv (ls_followers (r_leader r))" "\<forall>s \<in> snd ` set (ls_followers (r_leader r)). repl_ok l s"
    "next_idx (r_log r) = Suc l" "r_me r \<notin> fst ` set (ls_followers (r_leader r))"
  shows "\<exists>fs. HandleMembershipChange r = r\<lparr>r_leader := (r_leader r)\<lparr>ls_followers := fs\<rparr>\<rparr> \<and>
    (r_role r = LEADER \<longrightarrow> followers_ok (r_me r) (active_membership r) l fs)"
proof (cases "r_role r = LEADER")
  case True
  let ?all = "all_replicas (active_membership r)"
  obtain fs where fs: "fold add_new_follower ?all r = r\<lparr>r_leader := (r_leader r)\<lparr>ls_followers := fs\<rparr>\<rparr>" "om_inv fs"
    "fst ` set fs = fst ` set (ls_followers (r_leader r)) \<union> (set ?all - {r_me r})" "\<forall>s \<in> snd ` set fs. repl_ok l s"
    using fold_add_new_follower [OF assms(1-3) refl] by blast
  let ?gs = "filter (\<lambda>(p, s). p \<in> set ?all) fs"
  have "om_inv ?gs" using fs(2) by (rule om_inv_filter)
  moreover have "fst ` set ?gs = set ?all - {r_me r}" unfolding fst_filter_keys fs(3) using assms(4) by blast
  moreover have "\<forall>s \<in> snd ` set ?gs. repl_ok l s" using fs(4) by auto
  ultimately show ?thesis using True fs(1)
    by (intro exI [of _ ?gs]) (simp add: HandleMembershipChange_def followers_ok_def Let_def)
next
  case False
  then show ?thesis
    by (intro exI [of _ "ls_followers (r_leader r)"]) (simp add: HandleMembershipChange_def)
qed

end
