(* ===== verification/RaftApp.thy ===== *)
theory RaftApp
  imports RaftOps
begin

text \<open>
  Appending to the log and cancelling its end keep the invariant of a replica.
\<close>

subsection \<open>Changes of the log\<close>

lemma unc_ok_cong:
  assumes "\<And>i. ci < i \<Longrightarrow> change_at lg' i = change_at lg i" "unc_ok lg ci mem unc"
  shows "unc_ok lg' ci mem unc"
proof -
  have "(ci < i \<and> change_at lg' i = Some m) = (ci < i \<and> change_at lg i = Some m)" for i m using assms(1) by auto
  then show ?thesis using assms(2) by (simp add: unc_ok_def)
qed

lemma followers_ok_mono: "followers_ok me am l fs \<Longrightarrow> l \<le> k \<Longrightarrow> followers_ok me am k fs"
  unfolding followers_ok_def repl_ok_def by fastforce

lemma role_ok_mono: "role_ok me am trm v rl votes fs l \<Longrightarrow> l \<le> k \<Longrightarrow> role_ok me am trm v rl votes fs k"
  by (auto simp: role_ok_def intro: followers_ok_mono)

lemma tree_sync_cong:
  "\<lbrakk>tree_sync lg ci pi t cl pl; entry_at lg' ci = entry_at lg ci; entry_at lg' pi = entry_at lg pi\<rbrakk> \<Longrightarrow>
   tree_sync lg' ci pi t cl pl"
  by (simp add: tree_sync_def log_hash_def)

lemma base_inv_log_ok: "base_inv e r \<Longrightarrow> log_ok e (r_log r) (r_last_applied r) (r_commit_idx r) (r_promise_idx r)"
  by (simp add: base_inv_def)

lemmas base_log = log_okD [OF base_inv_log_ok]

text \<open>A change of the log that keeps the entries up to the promised index.\<close>

lemma good_log_change:
  assumes "base_inv e r" and ok: "log_ok e lg (r_last_applied r) (r_commit_idx r) (r_promise_idx r)"
    and unc: "unc_ok lg (r_commit_idx r) (r_membership r) unc"
    and rl: "role_ok (r_me r) (act (r_membership r) unc) (r_current_term r) (r_voted_for r) (r_role r)
       (cs_votes_granted (r_candidate r)) (ls_followers ld) (last_idx lg)"
    and old: "log_oldest (r_log r) \<le> log_oldest lg" "log_max_bytes lg = log_max_bytes (r_log r)"
    and at: "\<And>i. i \<le> r_promise_idx r \<Longrightarrow> log_oldest lg \<le> i \<Longrightarrow> entry_at lg i = entry_at (r_log r) i"
  shows "good e r (r\<lparr>r_log := lg, r_uncommitted := unc, r_leader := ld\<rparr>)"
proof -
  note d = base_log [OF assms(1)] and d' = log_okD [OF ok]
  have same: "entry_at lg i = entry_at (r_log r) i" if "r_last_applied r \<le> i" "i \<le> r_promise_idx r" for i
  proof (cases "i = 0")
    case True
    then show ?thesis using entry_at_0 d(1) d'(1) by metis
  next
    case False
    then show ?thesis using that at d'(8) by simp
  qed
  have "tree_sync (r_log r) (r_commit_idx r) (r_promise_idx r) t cl pl \<Longrightarrow>
      tree_sync lg (r_commit_idx r) (r_promise_idx r) t cl pl" for t cl pl
    using same [of "r_commit_idx r"] same [of "r_promise_idx r"] d(5,6) by (elim tree_sync_cong) simp_all
  then have "synced r \<longrightarrow> synced (r\<lparr>r_log := lg, r_uncommitted := unc, r_leader := ld\<rparr>)"
    by (simp add: synced_def)
  moreover have "base_inv e (r\<lparr>r_log := lg, r_uncommitted := unc, r_leader := ld\<rparr>)"
    using assms(1) ok unc rl by (simp add: base_inv_def)
  moreover have "ext r (r\<lparr>r_log := lg, r_uncommitted := unc, r_leader := ld\<rparr>)"
    using old at by (simp add: ext_def same_identity_def log_ext_def)
  ultimately show ?thesis by (simp add: good_def)
qed

lemma from_replicas_error: "from_replicas out rs = Inl x \<Longrightarrow> x \<noteq> OK"
  by (induction rs arbitrary: out)
    (auto simp: Let_def PeerID_FromString_def split: sum.splits if_splits)

lemma entry_membership_error: "entry_membership en = Inl x \<Longrightarrow> x \<noteq> OK"
  by (auto simp: entry_membership_def Membership_FromProto_def split: log_inner.splits sum.splits
      dest!: from_replicas_error)

lemma base_parts:
  assumes "base_inv e r"
  shows "unc_ok (r_log r) (r_commit_idx r) (r_membership r) (r_uncommitted r)"
    "role_ok (r_me r) (act (r_membership r) (r_uncommitted r)) (r_current_term r) (r_voted_for r) (r_role r)
       (cs_votes_granted (r_candidate r)) (ls_followers (r_leader r)) (last_idx (r_log r))"
  using assms by (auto simp: base_inv_def)

text \<open>The log after an append, relative to the replica that it belongs to.\<close>

definition appended :: "raft \<Rightarrow> log_entry \<Rightarrow> error \<Rightarrow> raft_log \<Rightarrow> bool" where
  "appended r en err lg \<longleftrightarrow>
     log_oldest (r_log r) \<le> log_oldest lg \<and> log_max_bytes lg = log_max_bytes (r_log r) \<and>
     last_idx lg = last_idx (r_log r) + (if err = OK then 1 else 0) \<and>
     (\<forall>i. i \<le> last_idx (r_log r) \<longrightarrow> log_oldest lg \<le> i \<longrightarrow> entry_at lg i = entry_at (r_log r) i) \<and>
     (\<forall>i. r_commit_idx r < i \<longrightarrow>
        entry_at lg i = (if err = OK \<and> i = last_idx (r_log r) + 1 then Some en else entry_at (r_log r) i))"

lemma Append_appended:
  assumes inv: "base_inv e r" and fits: "entry_fits e en" and room: "log_end (r_log r) + 1 < 2 ^ 64"
    and hash: "le_hash_chain en = NextHash e en (r_log r)"
  obtains err lg where "Append (env_sizes e) en (r_last_applied r) (r_log r) = Some (err, lg)"
    "log_ok e lg (r_last_applied r) (r_commit_idx r) (r_promise_idx r)" "appended r en err lg"
proof -
  note d = base_log [OF inv]
  obtain err lg where a: "Append (env_sizes e) en (r_last_applied r) (r_log r) = Some (err, lg)"
    and ok: "log_ok e lg (r_last_applied r) (r_commit_idx r) (r_promise_idx r)"
    and old: "log_oldest (r_log r) \<le> log_oldest lg" "log_oldest lg \<le> max (log_oldest (r_log r)) (r_last_applied r)"
      "log_max_bytes lg = log_max_bytes (r_log r)"
    and lasti: "last_idx lg = last_idx (r_log r) + (if err = OK then 1 else 0)"
    and at: "entry_at lg = (\<lambda>i. if err = OK \<and> i = last_idx (r_log r) + 1 then Some en
                        else if i < log_oldest lg then None else entry_at (r_log r) i)"
    using Append_ok [OF base_inv_log_ok [OF inv] fits room hash] by blast
  have "\<forall>i. r_commit_idx r < i \<longrightarrow> \<not> i < log_oldest lg" using old(2) d(5,8) by fastforce
  then have "appended r en err lg" unfolding appended_def using old lasti by (auto simp: at not_less)
  with a ok show thesis by (rule that)
qed

lemma entry_at_past_last: "log_inv sz lg \<Longrightarrow> last_idx lg < i \<Longrightarrow> entry_at lg i = None"
  using entry_at_le_last [of sz lg i] by (cases "entry_at lg i") auto

lemma good_append:
  assumes inv: "base_inv e r" and ok: "log_ok e lg (r_last_applied r) (r_commit_idx r) (r_promise_idx r)"
    and app: "appended r en err lg" and plain: "err \<noteq> OK \<or> entry_membership en = Inr None"
  shows "good e r (r\<lparr>r_log := lg, r_uncommitted := r_uncommitted r, r_leader := r_leader r\<rparr>)"
proof (rule good_log_change [OF inv ok])
  note p = base_parts [OF inv] and d = base_log [OF inv]
  have "\<forall>i. r_commit_idx r < i \<longrightarrow>
      entry_at lg i = (if err = OK \<and> i = last_idx (r_log r) + 1 then Some en else entry_at (r_log r) i)"
    using app by (simp add: appended_def)
  then have "change_at lg i = change_at (r_log r) i" if "r_commit_idx r < i" for i
    using that plain entry_at_past_last [OF d(1), of "last_idx (r_log r) + 1"] by (auto simp: change_at_def)
  then show "unc_ok lg (r_commit_idx r) (r_membership r) (r_uncommitted r)" using p(1) by (rule unc_ok_cong)
  show "role_ok (r_me r) (act (r_membership r) (r_uncommitted r)) (r_current_term r) (r_voted_for r) (r_role r)
       (cs_votes_granted (r_candidate r)) (ls_followers (r_leader r)) (last_idx lg)"
    using role_ok_mono [OF p(2)] app by (simp add: appended_def)
qed (use app base_log(7) [OF inv] in \<open>auto simp: appended_def\<close>)

lemma unc_ok_append:
  assumes inv: "base_inv e r" and app: "appended r en OK lg" and m: "entry_membership en = Inr (Some m)" "entry_fits e en"
  shows "unc_ok lg (r_commit_idx r) (r_membership r) (r_uncommitted r @ [(last_idx lg, m)])"
    "r_uncommitted r = [] \<or> fst (last (r_uncommitted r)) < last_idx lg"
proof -
  note p = base_parts(1) [OF inv] and d = base_log [OF inv]
  have lasti: "last_idx lg = last_idx (r_log r) + 1" using app by (simp add: appended_def)
  have at: "change_at lg i = (if i = last_idx lg then Some m else change_at (r_log r) i)" if "r_commit_idx r < i" for i
    using that app m lasti by (simp add: appended_def change_at_def)
  have past: "change_at (r_log r) i = None" if "last_idx lg \<le> i" for i
    using that entry_at_past_last [OF d(1), of i] lasti by (simp add: change_at_def)
  have le: "i < last_idx lg" if "(i, k) \<in> set (r_uncommitted r)" for i k
    using that p past [of i] by (auto simp: unc_ok_def not_le [symmetric])
  then show "r_uncommitted r = [] \<or> fst (last (r_uncommitted r)) < last_idx lg"
    by (metis last_in_set prod.collapse)
  have "r_commit_idx r < last_idx lg" using d lasti by linarith
  moreover have "sorted_wrt (<) (map fst (r_uncommitted r @ [(last_idx lg, m)]))"
    using p le by (auto simp: unc_ok_def sorted_wrt_append)
  ultimately show "unc_ok lg (r_commit_idx r) (r_membership r) (r_uncommitted r @ [(last_idx lg, m)])"
    using p at past [of "last_idx lg"] entry_membership_ok [OF m] by (auto simp: unc_ok_def split: if_splits)
qed

text \<open>The followers after a change of the active membership.\<close>

lemma HandleMembershipChange_role:
  assumes "log_ok e (r_log r) la ci pi" "l \<le> last_idx (r_log r)" "r_role r = LEADER \<longrightarrow> followers_ok (r_me r) am l (ls_followers (r_leader r))"
  shows "\<exists>ld. HandleMembershipChange r = r\<lparr>r_leader := ld\<rparr> \<and> ls_relinquishing ld = ls_relinquishing (r_leader r) \<and>
    (r_role r = LEADER \<longrightarrow> followers_ok (r_me r) (active_membership r) (last_idx (r_log r)) (ls_followers ld))"
proof (cases "r_role r = LEADER")
  case True
  then have f: "followers_ok (r_me r) am (last_idx (r_log r)) (ls_followers (r_leader r))"
    using assms followers_ok_mono by blast
  then have "om_inv (ls_followers (r_leader r))" "\<forall>s \<in> snd ` set (ls_followers (r_leader r)). repl_ok (last_idx (r_log r)) s"
    "r_me r \<notin> fst ` set (ls_followers (r_leader r))" by (simp_all add: followers_ok_def)
  moreover have "next_idx (r_log r) = Suc (last_idx (r_log r))" using log_okD(3) [OF assms(1)] by simp
  ultimately obtain fs where "HandleMembershipChange r = r\<lparr>r_leader := (r_leader r)\<lparr>ls_followers := fs\<rparr>\<rparr>"
    "followers_ok (r_me r) (active_membership r) (last_idx (r_log r)) fs"
    using HandleMembershipChange_ok True by blast
  then show ?thesis by (intro exI [of _ "(r_leader r)\<lparr>ls_followers := fs\<rparr>"]) simp
next
  case False
  then show ?thesis using HandleMembershipChange_follower [OF False] by (intro exI [of _ "r_leader r"]) simp
qed

lemma leader_followers:
  "base_inv e r \<Longrightarrow> r_role r = LEADER \<longrightarrow>
     followers_ok (r_me r) (act (r_membership r) (r_uncommitted r)) (last_idx (r_log r)) (ls_followers (r_leader r))"
  using base_parts(2) by (simp add: role_ok_def)

lemma LogAppend_membership:
  assumes inv: "base_inv e r" and ok: "log_ok e lg (r_last_applied r) (r_commit_idx r) (r_promise_idx r)"
    and app: "appended r en OK lg" and m: "entry_membership en = Inr (Some m)" "entry_fits e en"
    and rl: "r_role r \<noteq> CANDIDATE" "r_role r = LEADER \<longrightarrow> r_me r \<in> set (voting_replicas m)"
  shows "\<exists>unc ld. AddUncommittedMembership (last_idx lg) m (r\<lparr>r_log := lg\<rparr>) =
      Some (r\<lparr>r_log := lg, r_uncommitted := unc, r_leader := ld\<rparr>) \<and>
    ls_relinquishing ld = ls_relinquishing (r_leader r) \<and> good e r (r\<lparr>r_log := lg, r_uncommitted := unc, r_leader := ld\<rparr>)"
proof -
  note u = unc_ok_append [OF inv app m] and p = base_parts(2) [OF inv]
  let ?unc = "r_uncommitted r @ [(last_idx lg, m)]"
  let ?r = "r\<lparr>r_log := lg, r_uncommitted := ?unc\<rparr>"
  have le: "last_idx (r_log r) \<le> last_idx lg" using app by (simp add: appended_def)
  have "\<exists>ld. HandleMembershipChange ?r = ?r\<lparr>r_leader := ld\<rparr> \<and> ls_relinquishing ld = ls_relinquishing (r_leader ?r) \<and>
    (r_role ?r = LEADER \<longrightarrow> followers_ok (r_me ?r) (active_membership ?r) (last_idx (r_log ?r)) (ls_followers ld))"
    using ok le leader_followers [OF inv]
    by (intro HandleMembershipChange_role [of e ?r "r_last_applied r" "r_commit_idx r" "r_promise_idx r"
          "last_idx (r_log r)" "act (r_membership r) (r_uncommitted r)"]) simp_all
  then obtain ld where ld: "HandleMembershipChange ?r = ?r\<lparr>r_leader := ld\<rparr>" "ls_relinquishing ld = ls_relinquishing (r_leader r)"
    "r_role r = LEADER \<longrightarrow> followers_ok (r_me r) m (last_idx lg) (ls_followers ld)"
    by (auto simp: active_act act_def)
  have "role_ok (r_me r) (act (r_membership r) ?unc) (r_current_term r) (r_voted_for r) (r_role r)
       (cs_votes_granted (r_candidate r)) (ls_followers ld) (last_idx lg)"
    using p rl ld(3) by (simp add: role_ok_def act_def)
  then have "good e r (r\<lparr>r_log := lg, r_uncommitted := ?unc, r_leader := ld\<rparr>)"
    using app base_log(7) [OF inv] by (intro good_log_change [OF inv ok u(1)]) (auto simp: appended_def)
  moreover have "AddUncommittedMembership (last_idx lg) m (r\<lparr>r_log := lg\<rparr>) = Some (?r\<lparr>r_leader := ld\<rparr>)"
    using u(2) ld(1) by (simp add: AddUncommittedMembership_def)
  ultimately show ?thesis using ld(2) by (intro exI [of _ ?unc] exI [of _ ld]) simp
qed

lemma LogAppend_ok:
  assumes inv: "base_inv e r" and fits: "entry_fits e en" and room: "log_end (r_log r) + 1 < 2 ^ 64"
    and hash: "le_hash_chain en = NextHash e en (r_log r)"
    and rl: "r_role r \<noteq> CANDIDATE"
      "\<And>m. r_role r = LEADER \<Longrightarrow> entry_membership en = Inr (Some m) \<Longrightarrow> r_me r \<in> set (voting_replicas m)"
  shows "\<exists>loc err lg unc ld. LogAppend e en r = Some ((loc, err), r\<lparr>r_log := lg, r_uncommitted := unc, r_leader := ld\<rparr>) \<and>
    good e r (r\<lparr>r_log := lg, r_uncommitted := unc, r_leader := ld\<rparr>) \<and>
    ls_relinquishing ld = ls_relinquishing (r_leader r) \<and>
    last_idx lg = last_idx (r_log r) + (if err = OK then 1 else 0) \<and>
    (entry_membership en = Inr None \<longrightarrow> unc = r_uncommitted r)"
proof (cases "entry_membership en")
  case (Inl x)
  have "r = r\<lparr>r_log := r_log r, r_uncommitted := r_uncommitted r, r_leader := r_leader r\<rparr>" by simp
  then show ?thesis using Inl entry_membership_error [OF Inl] good_refl [OF inv]
    by (intro exI [of _ default_location] exI [of _ x] exI [of _ "r_log r"] exI [of _ "r_uncommitted r"]
        exI [of _ "r_leader r"]) (simp add: LogAppend_def)
next
  case (Inr mem)
  obtain err lg where a: "Append (env_sizes e) en (r_last_applied r) (r_log r) = Some (err, lg)"
    "log_ok e lg (r_last_applied r) (r_commit_idx r) (r_promise_idx r)" "appended r en err lg"
    using Append_appended [OF inv fits room hash] by blast
  let ?loc = "\<lparr>loc_term = r_current_term r, loc_idx = last_idx lg, loc_hash_chain = le_hash_chain en\<rparr>"
  have lasti: "last_idx lg = last_idx (r_log r) + (if err = OK then 1 else 0)" using a(3) by (simp add: appended_def)
  show ?thesis
  proof (cases "err \<noteq> OK \<or> mem = None")
    case True
    then have "good e r (r\<lparr>r_log := lg, r_uncommitted := r_uncommitted r, r_leader := r_leader r\<rparr>)"
      using good_append [OF inv a(2,3)] Inr by auto
    then show ?thesis using True a(1) Inr lasti
      by (intro exI [of _ "if err = OK then ?loc else default_location"] exI [of _ err] exI [of _ lg]
          exI [of _ "r_uncommitted r"] exI [of _ "r_leader r"]) (auto simp: LogAppend_def Let_def)
  next
    case False
    then obtain m where m: "mem = Some m" "err = OK" by auto
    obtain unc ld where l: "AddUncommittedMembership (last_idx lg) m (r\<lparr>r_log := lg\<rparr>) =
        Some (r\<lparr>r_log := lg, r_uncommitted := unc, r_leader := ld\<rparr>)"
      "ls_relinquishing ld = ls_relinquishing (r_leader r)" "good e r (r\<lparr>r_log := lg, r_uncommitted := unc, r_leader := ld\<rparr>)"
      using LogAppend_membership [OF inv a(2) _ _ fits rl(1)] a(3) Inr m rl(2) by blast
    have "LogAppend e en r = Some ((?loc, OK), r\<lparr>r_log := lg, r_uncommitted := unc, r_leader := ld\<rparr>)"
      using a(1) Inr m l(1) by (simp add: LogAppend_def Let_def)
    then show ?thesis using l(2,3) lasti m Inr
      by (intro exI [of _ ?loc] exI [of _ OK] exI [of _ lg] exI [of _ unc] exI [of _ ld]) simp
  qed
qed

end
