(* ===== verification/RaftIdx.thy ===== *)
theory RaftIdx
  imports RaftApp
begin

text \<open>
  Moving the commit and promise indices forward and cancelling the end of the log, with the memberships
  that become committed or are dropped by it.
\<close>

subsection \<open>Memberships that are committed or cancelled\<close>

lemma promote_committed_eq:
  assumes "promote_committed ci mem unc = (mem', unc')" "sorted_wrt (<) (map fst unc)"
  shows "unc' = filter (\<lambda>p. ci < fst p) unc" "act mem' unc' = act mem unc"
    "mem_ok mem \<Longrightarrow> \<forall>m \<in> snd ` set unc. mem_ok m \<Longrightarrow> mem_ok mem'"
proof -
  have "unc' = filter (\<lambda>p. ci < fst p) unc \<and> act mem' unc' = act mem unc \<and>
    (mem_ok mem \<longrightarrow> (\<forall>m \<in> snd ` set unc. mem_ok m) \<longrightarrow> mem_ok mem')"
    using assms
  proof (induction ci mem unc rule: promote_committed.induct)
    case (2 ci mem i m unc)
    show ?case
    proof (cases "i \<le> ci")
      case True
      then show ?thesis using 2 by (auto simp: act_def)
    next
      case False
      moreover have "\<forall>p \<in> set unc. i < fst p" using 2(3) by simp
      ultimately have "filter (\<lambda>p. ci < fst p) unc = unc" by (fastforce simp: filter_id_conv)
      then show ?thesis using False 2(2) by auto
    qed
  qed simp
  then show "unc' = filter (\<lambda>p. ci < fst p) unc" "act mem' unc' = act mem unc"
    "mem_ok mem \<Longrightarrow> \<forall>m \<in> snd ` set unc. mem_ok m \<Longrightarrow> mem_ok mem'" by blast+
qed

lemma discard_cancelled_eq:
  "sorted_wrt (<) (map fst unc) \<Longrightarrow> discard_cancelled l unc = filter (\<lambda>p. fst p \<le> l) unc"
proof (induction unc rule: rev_induct)
  case (snoc x unc)
  then have s: "sorted_wrt (<) (map fst unc)" "\<forall>p \<in> set unc. fst p < fst x" by (auto simp: sorted_wrt_append)
  show ?case
  proof (cases "fst x > l")
    case True
    then show ?thesis using snoc.IH [OF s(1)] by (simp add: discard_cancelled_def)
  next
    case False
    then have "filter (\<lambda>p. fst p \<le> l) unc = unc" using s(2) by (auto simp: filter_id_conv)
    then show ?thesis using False by (simp add: discard_cancelled_def)
  qed
qed (simp add: discard_cancelled_def)

text \<open>The memberships after the log was cut and the commit index moved to \<open>c\<close>.\<close>

lemma unc_ok_filter:
  assumes u: "unc_ok lg ci mem unc" and c: "ci \<le> c" and m: "mem_ok mem'"
    and low: "\<And>i. c < i \<Longrightarrow> i \<le> last_idx lg' \<Longrightarrow> change_at lg' i = change_at lg i"
    and high: "\<And>i. last_idx lg' < i \<Longrightarrow> change_at lg' i = None"
  shows "unc_ok lg' c mem' (filter (\<lambda>p. fst p \<le> last_idx lg') (filter (\<lambda>p. c < fst p) unc))"
proof -
  have "(ci < i \<and> change_at lg i = Some k) \<and> c < i \<and> i \<le> last_idx lg' \<longleftrightarrow> c < i \<and> change_at lg' i = Some k" for i k
    using low [of i] high [of i] c by (cases "i \<le> last_idx lg'") auto
  moreover have "sorted_wrt (<) (map fst (filter (\<lambda>p. fst p \<le> last_idx lg') (filter (\<lambda>p. c < fst p) unc)))"
    using u by (simp add: unc_ok_def sorted_wrt_map sorted_wrt_filter)
  ultimately show ?thesis using u m by (auto simp: unc_ok_def)
qed

lemma change_past_last: "log_inv sz lg \<Longrightarrow> last_idx lg < i \<Longrightarrow> change_at lg i = None"
  by (simp add: change_at_def entry_at_past_last)

lemma MaybeChange_shape:
  assumes "sorted_wrt (<) (map fst (r_uncommitted r))"
  obtains mem unc where "promote_committed (r_commit_idx r) (r_membership r) (r_uncommitted r) =
      (mem, filter (\<lambda>p. r_commit_idx r < fst p) (r_uncommitted r))"
    "unc = filter (\<lambda>p. fst p \<le> last_idx (r_log r)) (filter (\<lambda>p. r_commit_idx r < fst p) (r_uncommitted r))"
    "MaybeChangeUncommittedMembershipsBasedOnLog r =
       (if length unc \<noteq> length (r_uncommitted r)
        then HandleMembershipChange (r\<lparr>r_membership := mem, r_uncommitted := unc\<rparr>)
        else r\<lparr>r_membership := mem, r_uncommitted := unc\<rparr>)"
proof -
  obtain mem unc1 where p: "promote_committed (r_commit_idx r) (r_membership r) (r_uncommitted r) = (mem, unc1)"
    by (cases "promote_committed (r_commit_idx r) (r_membership r) (r_uncommitted r)")
  have u: "unc1 = filter (\<lambda>p. r_commit_idx r < fst p) (r_uncommitted r)" by (rule promote_committed_eq(1) [OF p assms])
  then have "sorted_wrt (<) (map fst unc1)" using assms by (simp add: sorted_wrt_map sorted_wrt_filter)
  then have "discard_cancelled (last_idx (r_log r)) unc1 = filter (\<lambda>p. fst p \<le> last_idx (r_log r)) unc1"
    by (rule discard_cancelled_eq)
  then show thesis using that p u by (simp add: MaybeChangeUncommittedMembershipsBasedOnLog_def Let_def)
qed

lemma unc_ok_bounds:
  assumes "unc_ok lg ci mem unc" "log_inv sz lg" "q \<in> set unc"
  shows "ci < fst q" "fst q \<le> last_idx lg"
proof -
  have "(fst q, snd q) \<in> set unc" using assms(3) by simp
  then have *: "ci < fst q" "change_at lg (fst q) = Some (snd q)" using assms(1) unfolding unc_ok_def by blast+
  show "ci < fst q" by fact
  show "fst q \<le> last_idx lg" using * change_past_last [OF assms(2), of "fst q"] by force
qed

subsection \<open>Cancelling unpromised entries\<close>

lemma promote_none:
  assumes "\<forall>p \<in> set unc. ci < fst p"
  shows "promote_committed ci mem unc = (mem, unc)"
  using assms by (cases unc) auto

lemma Cancel_good:
  assumes inv: "base_inv e r" and rl: "r_role r = FOLLOWER" and i: "r_promise_idx r < i" "i \<le> last_idx (r_log r)"
  shows "\<exists>lg unc. CancelFrom i (r_log r) = (OK, lg) \<and> last_idx lg = i - 1 \<and>
    MaybeChangeUncommittedMembershipsBasedOnLog (r\<lparr>r_log := lg\<rparr>) = r\<lparr>r_log := lg, r_uncommitted := unc, r_leader := r_leader r\<rparr> \<and>
    good e r (r\<lparr>r_log := lg, r_uncommitted := unc, r_leader := r_leader r\<rparr>)"
proof -
  note p = base_parts [OF inv] and d = base_log [OF inv]
  obtain lg where c: "CancelFrom i (r_log r) = (OK, lg)" "log_ok e lg (r_last_applied r) (r_commit_idx r) (r_promise_idx r)"
    "log_oldest lg = log_oldest (r_log r)" "log_max_bytes lg = log_max_bytes (r_log r)" "last_idx lg = i - 1"
    "entry_at lg = (\<lambda>j. if j < i then entry_at (r_log r) j else None)"
    using Cancel_ok [OF base_inv_log_ok [OF inv] i] by blast
  let ?r = "r\<lparr>r_log := lg\<rparr>"
  have s: "sorted_wrt (<) (map fst (r_uncommitted r))" "\<forall>p \<in> set (r_uncommitted r). r_commit_idx r < fst p"
    using p(1) by (auto simp: unc_ok_def)
  obtain mem unc where u: "promote_committed (r_commit_idx r) (r_membership r) (r_uncommitted r) =
      (mem, filter (\<lambda>p. r_commit_idx r < fst p) (r_uncommitted r))"
    "unc = filter (\<lambda>p. fst p \<le> last_idx lg) (filter (\<lambda>p. r_commit_idx r < fst p) (r_uncommitted r))"
    "MaybeChangeUncommittedMembershipsBasedOnLog ?r = (if length unc \<noteq> length (r_uncommitted r)
        then HandleMembershipChange (?r\<lparr>r_membership := mem, r_uncommitted := unc\<rparr>)
        else ?r\<lparr>r_membership := mem, r_uncommitted := unc\<rparr>)"
    using MaybeChange_shape [of ?r] s(1) by auto
  have mem: "mem = r_membership r" using u(1) promote_none [OF s(2)] by simp
  have U: "unc_ok lg (r_commit_idx r) (r_membership r) unc"
    unfolding u(2) using p(1) i c(5,6) change_past_last [OF log_okD(1) [OF c(2)]]
    by (intro unc_ok_filter [OF p(1)]) (auto simp: unc_ok_def change_at_def)
  have "good e r (r\<lparr>r_log := lg, r_uncommitted := unc, r_leader := r_leader r\<rparr>)"
    using c(3,4,6) i rl by (intro good_log_change [OF inv c(2) U]) (auto simp: role_ok_def)
  moreover have "MaybeChangeUncommittedMembershipsBasedOnLog ?r = r\<lparr>r_log := lg, r_uncommitted := unc, r_leader := r_leader r\<rparr>"
    unfolding u(3) mem using rl by (simp add: HandleMembershipChange_def)
  ultimately show ?thesis using c(1,5) by blast
qed

subsection \<open>Moving the indices\<close>

lemma promise_good:
  assumes "base_inv e r" "r_promise_idx r \<le> p" "p \<le> last_idx (r_log r)"
  shows "base_inv e (r\<lparr>r_promise_idx := p\<rparr>)" "ext r (r\<lparr>r_promise_idx := p\<rparr>)"
  using assms by (auto simp: base_inv_def log_ok_def ext_def same_identity_def)

lemma commit_good:
  assumes inv: "base_inv e r" and c: "r_commit_idx r \<le> c" "c \<le> r_promise_idx r"
  shows "\<exists>mem unc ld. MaybeChangeUncommittedMembershipsBasedOnLog (r\<lparr>r_commit_idx := c\<rparr>) =
      r\<lparr>r_commit_idx := c, r_membership := mem, r_uncommitted := unc, r_leader := ld\<rparr> \<and>
    act mem unc = act (r_membership r) (r_uncommitted r) \<and> ls_relinquishing ld = ls_relinquishing (r_leader r) \<and>
    base_inv e (r\<lparr>r_commit_idx := c, r_membership := mem, r_uncommitted := unc, r_leader := ld\<rparr>) \<and>
    ext r (r\<lparr>r_commit_idx := c, r_membership := mem, r_uncommitted := unc, r_leader := ld\<rparr>)"
proof -
  note p = base_parts [OF inv] and d = base_log [OF inv]
  let ?r = "r\<lparr>r_commit_idx := c\<rparr>" and ?last = "last_idx (r_log r)"
  have s: "sorted_wrt (<) (map fst (r_uncommitted r))" using p(1) by (simp add: unc_ok_def)
  obtain mem unc where u: "promote_committed c (r_membership r) (r_uncommitted r) =
      (mem, filter (\<lambda>p. c < fst p) (r_uncommitted r))"
    "unc = filter (\<lambda>p. fst p \<le> ?last) (filter (\<lambda>p. c < fst p) (r_uncommitted r))"
    "MaybeChangeUncommittedMembershipsBasedOnLog ?r = (if length unc \<noteq> length (r_uncommitted r)
        then HandleMembershipChange (?r\<lparr>r_membership := mem, r_uncommitted := unc\<rparr>)
        else ?r\<lparr>r_membership := mem, r_uncommitted := unc\<rparr>)"
    using MaybeChange_shape [of ?r] s by auto
  have unc: "unc = filter (\<lambda>p. c < fst p) (r_uncommitted r)"
    unfolding u(2) filter_filter using unc_ok_bounds(2) [OF p(1) d(1)] by (intro filter_cong) auto
  have a: "act mem unc = act (r_membership r) (r_uncommitted r)" unfolding unc by (rule promote_committed_eq(2) [OF u(1) s])
  have "mem_ok mem" using promote_committed_eq(3) [OF u(1) s] p(1) by (simp add: unc_ok_def)
  then have U: "unc_ok (r_log r) c mem unc" unfolding u(2)
    using change_past_last [OF d(1)] by (intro unc_ok_filter [OF p(1) c(1)]) auto
  let ?r1 = "?r\<lparr>r_membership := mem, r_uncommitted := unc\<rparr>"
  have "\<exists>ld. HandleMembershipChange ?r1 = ?r1\<lparr>r_leader := ld\<rparr> \<and> ls_relinquishing ld = ls_relinquishing (r_leader ?r1) \<and>
    (r_role ?r1 = LEADER \<longrightarrow> followers_ok (r_me ?r1) (active_membership ?r1) (last_idx (r_log ?r1)) (ls_followers ld))"
    using leader_followers [OF inv] base_inv_log_ok [OF inv]
    by (intro HandleMembershipChange_role [of e ?r1 "r_last_applied r" "r_commit_idx r" "r_promise_idx r"
          ?last "act (r_membership r) (r_uncommitted r)"]) simp_all
  then obtain ld1 where ld1: "HandleMembershipChange ?r1 = ?r1\<lparr>r_leader := ld1\<rparr>"
    "ls_relinquishing ld1 = ls_relinquishing (r_leader r)"
    "r_role r = LEADER \<longrightarrow> followers_ok (r_me r) (act (r_membership r) (r_uncommitted r)) ?last (ls_followers ld1)"
    by (elim exE conjE) (simp add: active_act a)
  define ld where "ld = (if length unc \<noteq> length (r_uncommitted r) then ld1 else r_leader r)"
  have ld: "MaybeChangeUncommittedMembershipsBasedOnLog ?r = ?r1\<lparr>r_leader := ld\<rparr>"
    "ls_relinquishing ld = ls_relinquishing (r_leader r)"
    "r_role r = LEADER \<longrightarrow> followers_ok (r_me r) (act (r_membership r) (r_uncommitted r)) ?last (ls_followers ld)"
    using leader_followers [OF inv] ld1 unfolding u(3) ld_def by simp_all
  have "role_ok (r_me r) (act mem unc) (r_current_term r) (r_voted_for r) (r_role r)
       (cs_votes_granted (r_candidate r)) (ls_followers ld) ?last"
    using p(2) ld(3) a by (simp add: role_ok_def)
  then have "base_inv e (?r1\<lparr>r_leader := ld\<rparr>)" using inv U c by (simp add: base_inv_def log_ok_def)
  moreover have "ext r (?r1\<lparr>r_leader := ld\<rparr>)" using c by (simp add: ext_def same_identity_def)
  ultimately show ?thesis using ld(1,2) a by (intro exI [of _ mem] exI [of _ unc] exI [of _ ld]) simp
qed

end
