(* ===== verification/RaftLead.thy ===== *)
theory RaftLead
  imports RaftIdx
begin

text \<open>
  Elections, replication and the Merkle tree: the operations behind \<^verbatim>\<open>MaybeChangeStateAndSendMessages\<close>
  return from every state with the invariant and keep it.
\<close>

subsection \<open>Steps that elect nobody\<close>

definition not_grant :: "sendable_message \<Rightarrow> bool" where
  "not_grant m \<longleftrightarrow> rm_inner (sm_message m) \<noteq> VoteResponse True"

definition calm_role :: "raft \<Rightarrow> raft \<Rightarrow> bool" where
  "calm_role r r' \<longleftrightarrow> r_role r' = FOLLOWER \<or>
     r_role r' = r_role r \<and> r_current_term r' = r_current_term r \<and>
     cs_votes_granted (r_candidate r') = cs_votes_granted (r_candidate r)"

definition calm :: "raft \<Rightarrow> raft \<Rightarrow> bool" where
  "calm r r' \<longleftrightarrow> calm_role r r' \<and> (\<exists>ms. r_sendable r' = r_sendable r @ ms \<and> list_all not_grant ms)"

lemma calm_refl [simp]: "calm r r"
  by (simp add: calm_def calm_role_def)

lemma calm_role_trans: "calm_role a b \<Longrightarrow> calm_role b c \<Longrightarrow> calm_role a c"
  by (auto simp: calm_role_def)

lemma calm_trans: "calm a b \<Longrightarrow> calm b c \<Longrightarrow> calm a c"
  unfolding calm_def using calm_role_trans by (fastforce simp: list_all_append)

subsection \<open>Small steps\<close>

lemma AddSendable_good:
  assumes "base_inv e r" "msg_ok e (sm_message m)" "sm_to m \<noteq> Some (r_me r)"
  obtains r' where "AddSendableMessage m r = Some r'" "good e r r'" "r' = r \<or> r' = r\<lparr>r_sendable := r_sendable r @ [m]\<rparr>"
proof -
  have "msgs_ok e (r_me r) (r_sendable r @ [m])" using assms by (simp add: base_inv_def msgs_ok_def)
  then have g: "good e r (r\<lparr>r_sendable := r_sendable r @ [m]\<rparr>)" using assms(1) by (simp add: good_defs)
  have "AddSendableMessage m r = Some r \<or> AddSendableMessage m r = Some (r\<lparr>r_sendable := r_sendable r @ [m]\<rparr>)"
    using assms(3) by (simp add: AddSendableMessage_def split: option.split)
  then show thesis using that g good_refl [OF assms(1)] by metis
qed

lemma RandomElectionTimeout_ok:
  assumes "0 < cfg_election_ticks (r_config r)"
  obtains t where "RandomElectionTimeout e r = Some (t, r\<lparr>r_rand := r_rand r + 1\<rparr>)"
  using assms by (simp add: RandomElectionTimeout_def Let_def)

lemma base_config: "base_inv e r \<Longrightarrow> 0 < cfg_election_ticks (r_config r)"
  by (simp add: base_inv_def)

text \<open>Updates of fields that the invariant does not mention.\<close>

lemma good_rand: "base_inv e r \<Longrightarrow> good e r (r\<lparr>r_rand := n\<rparr>)"
  by (simp add: good_defs)

lemma good_follower: "base_inv e r \<Longrightarrow> good e r (r\<lparr>r_follower := f\<rparr>)"
  by (simp add: good_defs)

lemma good_become_follower:
  "base_inv e r \<Longrightarrow> good e r ((SetRole FOLLOWER r)\<lparr>r_rand := n, r_follower := f\<rparr>)"
  by (simp add: good_defs SetRole_def role_ok_def)

lemma followers_ok_put:
  assumes "followers_ok me am l fs" "map_of fs p \<noteq> None" "repl_ok l s"
  shows "followers_ok me am l (om_put p s fs)"
proof -
  have "p \<in> fst ` set fs" using assms(2) by (metis map_of_eq_None_iff)
  then have "fst ` set (om_put p s fs) = fst ` set fs" by (auto simp: fst_om_put)
  moreover have "\<forall>s \<in> snd ` set (om_put p s fs). repl_ok l s"
    using assms(1,3) by (intro om_put_all [of fs "repl_ok l"]) (simp_all add: followers_ok_def)
  ultimately show ?thesis using assms(1) by (simp add: followers_ok_def om_inv_put)
qed

lemma set_follower_good:
  assumes "base_inv e r" "get_follower r p \<noteq> None" "r_role r = LEADER \<longrightarrow> repl_ok (last_idx (r_log r)) s"
  shows "good e r (set_follower p s r)" "calm r (set_follower p s r)"
proof -
  have "role_ok (r_me r) (act (r_membership r) (r_uncommitted r)) (r_current_term r) (r_voted_for r) (r_role r)
       (cs_votes_granted (r_candidate r)) (om_put p s (ls_followers (r_leader r))) (last_idx (r_log r))"
    using base_parts(2) [OF assms(1)] assms(2,3) followers_ok_put by (auto simp: role_ok_def get_follower_def)
  then show "good e r (set_follower p s r)" using assms(1) by (simp add: good_defs set_follower_def)
  show "calm r (set_follower p s r)" by (simp add: calm_def calm_role_def set_follower_def)
qed

lemma follower_repl_ok:
  assumes "base_inv e r" "r_role r = LEADER" "get_follower r p = Some s"
  shows "repl_ok (last_idx (r_log r)) s"
proof -
  have "(p, s) \<in> set (ls_followers (r_leader r))" using assms(3) by (simp add: get_follower_def map_of_SomeD)
  then show ?thesis using leader_followers [OF assms(1)] assms(2) by (force simp: followers_ok_def)
qed

lemma map_followers_good:
  assumes "base_inv e r" "\<And>l s. repl_ok l s \<Longrightarrow> repl_ok l (f s)"
  shows "good e r (map_followers f r)" "calm r (map_followers f r)"
proof -
  have m: "map fst (map (\<lambda>(p, s). (p, f s)) fs) = map fst fs" "snd ` set (map (\<lambda>(p, s). (p, f s)) fs) = f ` snd ` set fs"
    for fs :: "(peer_id, replication_state) omap" by (induction fs) auto
  have "fst ` set (map (\<lambda>(p, s). (p, f s)) fs) = fst ` set fs" for fs :: "(peer_id, replication_state) omap"
    using arg_cong [OF m(1) [of fs], of set] by (simp only: set_map)
  then have "followers_ok me am l (map (\<lambda>(p, s). (p, f s)) fs)" if "followers_ok me am l fs" for me am l fs
    using that assms(2) unfolding followers_ok_def om_inv_def m by simp
  then have "role_ok (r_me r) (act (r_membership r) (r_uncommitted r)) (r_current_term r) (r_voted_for r) (r_role r)
       (cs_votes_granted (r_candidate r)) (map (\<lambda>(p, s). (p, f s)) (ls_followers (r_leader r))) (last_idx (r_log r))"
    using base_parts(2) [OF assms(1)] by (simp add: role_ok_def)
  then show "good e r (map_followers f r)" using assms(1) by (simp add: good_defs map_followers_def)
  show "calm r (map_followers f r)" by (simp add: calm_def calm_role_def map_followers_def)
qed

subsection \<open>Elections\<close>

lemma base_term: "base_inv e r \<Longrightarrow> r_current_term r < 2 ^ 64"
  by (simp add: base_inv_def)

lemma ElectionTimeout_ok:
  assumes inv: "base_inv e r" and trm: "r_current_term r + 1 < 2 ^ 64"
  obtains r' where "ElectionTimeout e r = Some r'" "good e r r'" "r_log r' = r_log r"
    "calm r r' \<or> r_role r' = CANDIDATE \<and> cs_votes_granted (r_candidate r') = [r_me r] \<and>
       r_current_term r' = r_current_term r + 1 \<and> (\<exists>ms. r_sendable r' = r_sendable r @ ms \<and> list_all not_grant ms)"
proof (cases "voting r \<and> r_role r \<noteq> LEADER")
  case False
  obtain t where t: "RandomElectionTimeout e r = Some (t, r\<lparr>r_rand := r_rand r + 1\<rparr>)"
    by (rule RandomElectionTimeout_ok [OF base_config [OF inv]])
  let ?r = "r\<lparr>r_rand := r_rand r + 1, r_follower := (r_follower r)\<lparr>fs_election := t\<rparr>\<rparr>"
  have "good e r ?r" "calm r ?r" using inv by (simp_all add: good_defs calm_def calm_role_def)
  moreover have "ElectionTimeout e r = Some ?r \<or> ElectionTimeout e r = Some r" "r_log ?r = r_log r"
    using False t by (auto simp: ElectionTimeout_def)
  ultimately show ?thesis using that good_refl [OF inv] calm_refl [of r] by metis
next
  case True
  let ?r0 = "SetRole CANDIDATE (r\<lparr>r_current_term := u64_add (r_current_term r) 1, r_voted_for := Some (r_me r)\<rparr>)"
  have "0 < cfg_election_ticks (r_config ?r0)" using base_config [OF inv] by (simp add: SetRole_def)
  then obtain t where t: "RandomElectionTimeout e ?r0 = Some (t, ?r0\<lparr>r_rand := r_rand ?r0 + 1\<rparr>)"
    by (rule RandomElectionTimeout_ok)
  let ?r3 = "?r0\<lparr>r_rand := r_rand ?r0 + 1, r_candidate := \<lparr>cs_votes_granted = [r_me r], cs_election = t\<rparr>\<rparr>"
  have me: "r_me r \<in> set (voting_replicas (act (r_membership r) (r_uncommitted r)))"
    using True by (simp add: voting_def active_act)
  have t1: "u64_add (r_current_term r) 1 = r_current_term r + 1" using trm by (simp add: u64_simps)
  have "base_inv e ?r3" using inv me trm t1 by (simp add: base_inv_def SetRole_def role_ok_def os_inv_def)
  moreover have "ext r ?r3" "synced ?r3 = synced r"
    using t1 by (simp_all add: ext_def same_identity_def synced_def SetRole_def)
  ultimately have g: "good e r ?r3" "base_inv e ?r3" by (simp_all add: good_def)
  obtain m where m: "RequestVoteMessage ?r3 = Some m" "msg_ok e m" "rm_inner m \<noteq> VoteResponse True"
    using trm t1 by (simp add: RequestVoteMessage_def SetRole_def msg_ok_def)
  obtain r' where r': "AddSendableMessage (Broadcast m) ?r3 = Some r'" "good e ?r3 r'"
    "r' = ?r3 \<or> r' = ?r3\<lparr>r_sendable := r_sendable ?r3 @ [Broadcast m]\<rparr>"
    using AddSendable_good [OF g(2), of "Broadcast m"] m(2) by (auto simp: Broadcast_def)
  have e: "ElectionTimeout e r = Some r'" using True t m(1) r'(1) by (simp add: ElectionTimeout_def Let_def)
  have "r_log r' = r_log r" "r_role r' = CANDIDATE" "cs_votes_granted (r_candidate r') = [r_me r]"
    "r_current_term r' = r_current_term r + 1" "\<exists>ms. r_sendable r' = r_sendable r @ ms \<and> list_all not_grant ms"
    using r'(3) t1 m(3) by (auto simp: SetRole_def not_grant_def Broadcast_def)
  then show ?thesis using that [OF e good_trans [OF g(1) r'(2)]] by simp
qed

end
