(* ===== verification/RaftSend.thy ===== *)
theory RaftSend
  imports RaftLead
begin

text \<open>
  The leader's work: requests, taking over after an election, advancing the promise and commit indices
  from the acknowledgements of a quorum, and sending entries.
\<close>

subsection \<open>Requests\<close>

lemma ClientRequestInternal_ok:
  assumes inv: "base_inv e r" and fits: "entry_fits e en" and room: "log_end (r_log r) + 1 < 2 ^ 64"
    and lead: "\<And>m. r_role r = LEADER \<Longrightarrow> entry_membership en = Inr (Some m) \<Longrightarrow> r_me r \<in> set (voting_replicas m)"
  obtains loc err lg unc ld where
    "ClientRequestInternal e en r = Some ((loc, err), r\<lparr>r_log := lg, r_uncommitted := unc, r_leader := ld\<rparr>)"
    "good e r (r\<lparr>r_log := lg, r_uncommitted := unc, r_leader := ld\<rparr>)"
    "ls_relinquishing ld = ls_relinquishing (r_leader r)" "last_idx lg \<le> last_idx (r_log r) + 1"
    "entry_membership en = Inr None \<longrightarrow> unc = r_uncommitted r"
proof (cases "r_role r \<noteq> LEADER \<or> ls_relinquishing (r_leader r)")
  case True
  have "r\<lparr>r_log := r_log r, r_uncommitted := r_uncommitted r, r_leader := r_leader r\<rparr> = r" by simp
  then show ?thesis
    using that [where loc = default_location and err = "E_Raft Raft_AppendEntryNotLeader" and lg = "r_log r"
        and unc = "r_uncommitted r" and ld = "r_leader r"]
      True good_refl [OF inv] by (simp add: ClientRequestInternal_def Let_def)
next
  case False
  define en1 where "en1 = en\<lparr>le_term := r_current_term r\<rparr>"
  define en2 where "en2 = en1\<lparr>le_hash_chain := NextHash e en1 (r_log r)\<rparr>"
  have h: "le_hash_chain en2 = NextHash e en2 (r_log r)"
    by (simp add: en2_def NextHash_def chain_input_def Let_def cong: log_inner.case_cong)
  have c: "ClientRequestInternal e en r = LogAppend e en2 r"
    using False by (simp add: ClientRequestInternal_def en2_def en1_def ByteArrayToString_def Let_def)
  have em: "entry_membership en2 = entry_membership en" "entry_fits e en2" using fits by (simp_all add: en2_def en1_def)
  have "r_role r \<noteq> CANDIDATE" using False by auto
  then obtain loc err lg unc ld where
    l: "LogAppend e en2 r = Some ((loc, err), r\<lparr>r_log := lg, r_uncommitted := unc, r_leader := ld\<rparr>)"
    "good e r (r\<lparr>r_log := lg, r_uncommitted := unc, r_leader := ld\<rparr>)"
    "ls_relinquishing ld = ls_relinquishing (r_leader r)"
    "last_idx lg = last_idx (r_log r) + (if err = OK then 1 else 0)" "entry_membership en2 = Inr None \<longrightarrow> unc = r_uncommitted r"
    using LogAppend_ok [OF inv em(2) room h] lead unfolding em(1) by blast
  show ?thesis by (rule that [OF l(1) [folded c] l(2,3)]) (use l(4,5) em(1) in auto)
qed

text \<open>The entry without content that leaders append.\<close>

lemma noop_request_ok:
  assumes inv: "base_inv e r" and fits: "entry_fits e default_entry" and room: "log_end (r_log r) + 1 < 2 ^ 64"
  obtains res lg ld where "ClientRequestInternal e default_entry r = Some (res, r\<lparr>r_log := lg, r_leader := ld\<rparr>)"
    "good e r (r\<lparr>r_log := lg, r_leader := ld\<rparr>)" "ls_relinquishing ld = ls_relinquishing (r_leader r)"
    "last_idx lg \<le> last_idx (r_log r) + 1"
proof -
  have em: "entry_membership default_entry = Inr None" by (simp add: entry_membership_def default_entry_def)
  show thesis
  proof (rule ClientRequestInternal_ok [OF inv fits room])
    fix loc err lg unc ld
    assume c: "ClientRequestInternal e default_entry r = Some ((loc, err), r\<lparr>r_log := lg, r_uncommitted := unc, r_leader := ld\<rparr>)"
      "good e r (r\<lparr>r_log := lg, r_uncommitted := unc, r_leader := ld\<rparr>)"
      "ls_relinquishing ld = ls_relinquishing (r_leader r)" "last_idx lg \<le> last_idx (r_log r) + 1"
      "entry_membership default_entry = Inr None \<longrightarrow> unc = r_uncommitted r"
    then have "r\<lparr>r_log := lg, r_uncommitted := unc, r_leader := ld\<rparr> = r\<lparr>r_log := lg, r_leader := ld\<rparr>" using em by simp
    then show thesis using that c(1-4) by metis
  qed (use em in auto)
qed

subsection \<open>Becoming leader\<close>

lemma fold_set_follower:
  assumes "om_inv fs" "\<forall>s \<in> snd ` set fs. repl_ok l s" "next_idx (r_log r) = Suc l" "ls_followers (r_leader r) = fs"
  shows "\<exists>fs'. fold (\<lambda>peer r. set_follower peer (no_replication\<lparr>rs_next_idx := next_idx (r_log r)\<rparr>) r) ps r =
      r\<lparr>r_leader := (r_leader r)\<lparr>ls_followers := fs'\<rparr>\<rparr> \<and> om_inv fs' \<and>
    fst ` set fs' = fst ` set fs \<union> set ps \<and> (\<forall>s \<in> snd ` set fs'. repl_ok l s)"
  using assms
proof (induction ps arbitrary: r fs)
  case Nil
  then show ?case by (intro exI [of _ fs]) auto
next
  case (Cons p ps)
  let ?s = "no_replication\<lparr>rs_next_idx := Suc l\<rparr>" and ?F = "\<lambda>peer r. set_follower peer (no_replication\<lparr>rs_next_idx := next_idx (r_log r)\<rparr>) r"
  let ?r1 = "r\<lparr>r_leader := (r_leader r)\<lparr>ls_followers := om_put p ?s fs\<rparr>\<rparr>"
  have r1: "?F p r = ?r1" using Cons.prems by (simp add: set_follower_def)
  have 1: "om_inv (om_put p ?s fs)" by (rule om_inv_put [OF Cons.prems(1)])
  have 2: "\<forall>s \<in> snd ` set (om_put p ?s fs). repl_ok l s" by (rule om_put_all [of fs "repl_ok l", OF Cons.prems(2)]) simp
  have "next_idx (r_log ?r1) = Suc l" using Cons.prems(3) by simp
  then obtain fs' where fs': "fold ?F ps ?r1 = ?r1\<lparr>r_leader := (r_leader ?r1)\<lparr>ls_followers := fs'\<rparr>\<rparr>" "om_inv fs'"
    "fst ` set fs' = fst ` set (om_put p ?s fs) \<union> set ps" "\<forall>s \<in> snd ` set fs'. repl_ok l s"
    using Cons.IH [OF 1 2, of ?r1] by auto
  have "fold ?F (p # ps) r = r\<lparr>r_leader := (r_leader r)\<lparr>ls_followers := fs'\<rparr>\<rparr>" using fs'(1) by (simp add: r1)
  moreover have "fst ` set fs' = fst ` set fs \<union> set (p # ps)" using fs'(3) by (auto simp: fst_om_put)
  ultimately show ?case using fs'(2,4) by blast
qed

lemma candidate_quorum:
  assumes inv: "base_inv e r" and rl: "r_role r = CANDIDATE"
    and q: "membership_quorum_size r \<le> length (cs_votes_granted (r_candidate r))"
  shows "voting_quorum (active_membership r) (r_super_majority r) (set (cs_votes_granted (r_candidate r)))"
proof -
  let ?m = "act (r_membership r) (r_uncommitted r)" and ?v = "cs_votes_granted (r_candidate r)"
  have p: "os_inv ?v" "set ?v \<subseteq> set (voting_replicas ?m)" "r_me r \<in> set (voting_replicas ?m)"
    using base_parts(2) [OF inv] rl by (auto simp: role_ok_def)
  have m: "mem_ok ?m" by (rule act_mem_ok [OF base_parts(1) [OF inv]])
  have "voting_replicas ?m \<noteq> []" using p(3) by auto
  then have "quorum_bounds (length (voting_replicas ?m)) (r_super_majority r)"
    using mem_ok_quorum(1) [OF m] inv by (auto simp: base_inv_def)
  then show ?thesis using p m q os_inv_card [OF p(1)] \<open>voting_replicas ?m \<noteq> []\<close>
    by (simp add: voting_quorum_def active_act mem_ok_def membership_inv_def membership_quorum_size_def)
qed

lemma MaybeBecomeLeader_ok:
  assumes inv: "base_inv e r" and fits: "entry_fits e default_entry" and room: "log_end (r_log r) + 1 < 2 ^ 64"
  obtains r' where "MaybeBecomeLeader e r = Some r'" "good e r r'" "last_idx (r_log r') \<le> last_idx (r_log r) + 1"
    "r' = r \<or> r_role r = CANDIDATE \<and> r_role r' = LEADER \<and> r_current_term r' = r_current_term r \<and> r_sendable r' = r_sendable r \<and>
      active_membership r' = active_membership r \<and>
      voting_quorum (active_membership r) (r_super_majority r) (set (cs_votes_granted (r_candidate r)))"
proof (cases "r_role r = CANDIDATE \<and> membership_quorum_size r \<le> length (cs_votes_granted (r_candidate r))")
  case False
  then show ?thesis using that [of r] good_refl [OF inv] by (auto simp: MaybeBecomeLeader_def)
next
  case True
  note d = base_log [OF inv]
  let ?F = "\<lambda>peer r. set_follower peer (no_replication\<lparr>rs_next_idx := next_idx (r_log r)\<rparr>) r"
  let ?r1 = "(SetRole LEADER r)\<lparr>r_leader := no_leader\<lparr>ls_heartbeat := 0\<rparr>\<rparr>"
  have pe: "set (peers ?r1) = set (all_replicas (act (r_membership r) (r_uncommitted r))) - {r_me r}"
    by (auto simp: peers_def active_act SetRole_def)
  obtain fs where fs: "fold ?F (peers ?r1) ?r1 = ?r1\<lparr>r_leader := (r_leader ?r1)\<lparr>ls_followers := fs\<rparr>\<rparr>" "om_inv fs"
    "fst ` set fs = set (peers ?r1)" "\<forall>s \<in> snd ` set fs. repl_ok (last_idx (r_log r)) s"
    using fold_set_follower [of "[]" "last_idx (r_log r)" ?r1 "peers ?r1"] d(3) by (auto simp: SetRole_def no_leader_def)
  let ?r2 = "?r1\<lparr>r_leader := (r_leader ?r1)\<lparr>ls_followers := fs\<rparr>\<rparr>"
  have "role_ok (r_me r) (act (r_membership r) (r_uncommitted r)) (r_current_term r) (r_voted_for r) LEADER votes fs (last_idx (r_log r))"
    for votes using base_parts(2) [OF inv] True fs(2-4) pe by (simp add: role_ok_def followers_ok_def)
  then have "base_inv e ?r2" using inv by (simp add: base_inv_def SetRole_def)
  moreover have "ext r ?r2" "synced ?r2 = synced r" by (simp_all add: ext_def same_identity_def SetRole_def synced_def)
  ultimately have g: "good e r ?r2" "base_inv e ?r2" by (simp_all add: good_def)
  have "log_end (r_log ?r2) + 1 < 2 ^ 64" using room by (simp add: SetRole_def)
  then obtain res lg ld where c: "ClientRequestInternal e default_entry ?r2 = Some (res, ?r2\<lparr>r_log := lg, r_leader := ld\<rparr>)"
    "good e ?r2 (?r2\<lparr>r_log := lg, r_leader := ld\<rparr>)" "last_idx lg \<le> last_idx (r_log ?r2) + 1"
    by (rule noop_request_ok [OF g(2) fits])
  let ?r3 = "?r2\<lparr>r_log := lg, r_leader := ld\<rparr>"
  have b: "MaybeBecomeLeader e r = Some ?r3" using True fs(1) c(1) by (simp add: MaybeBecomeLeader_def Let_def)
  have same: "active_membership ?r3 = active_membership r" "r_current_term ?r3 = r_current_term r" "r_sendable ?r3 = r_sendable r"
    "r_role ?r3 = LEADER" by (simp_all add: active_act SetRole_def)
  have "last_idx (r_log ?r3) \<le> last_idx (r_log r) + 1" using c(3) by (simp add: SetRole_def)
  then show ?thesis
    by (rule that [OF b good_trans [OF g(1) c(2)]]) (use same candidate_quorum [OF inv] True in blast)
qed

end
