(* ===== verification/RaftCommit.thy ===== *)
theory RaftCommit
  imports RaftSend
begin

text \<open>
  Advancing the promise and commit indices from the acknowledgements of a quorum, the hashes of the two
  indices in the Merkle tree, and sending entries to followers.
\<close>

subsection \<open>The k-th largest of a list\<close>

lemma length_filter_sort_descending: "length (filter P (sort_descending xs)) = length (filter P xs)"
  by (simp add: sort_descending_def rev_filter [symmetric] filter_sort)

lemma sorted_descending: "sorted_wrt (\<ge>) (sort_descending xs)"
  by (simp add: sort_descending_def sorted_wrt_rev)

lemma length_sort_descending [simp]: "length (sort_descending xs) = length xs" "set (sort_descending xs) = set xs"
  by (simp_all add: sort_descending_def)

lemma descending_drop:
  assumes "sorted_wrt (\<ge>) (zs :: nat list)" "x \<in> set (drop k zs)" "k < length zs"
  shows "x \<le> zs ! k"
proof -
  obtain i where "i < length zs - k" "x = zs ! (k + i)" using assms(2,3) by (auto simp: in_set_conv_nth)
  then show ?thesis using sorted_wrt_nth_less [OF assms(1), of k "k + i"] by (cases "i = 0") auto
qed

lemma descending_count:
  assumes "sorted_wrt (\<ge>) (zs :: nat list)" "k < length zs"
  shows "Suc k \<le> length (filter (\<lambda>x. zs ! k \<le> x) zs)"
proof -
  have "filter (\<lambda>x. zs ! k \<le> x) (take (Suc k) zs) = take (Suc k) zs"
    using assms sorted_wrt_nth_less [OF assms(1), of _ k] by (auto simp: filter_id_conv in_set_conv_nth less_Suc_eq)
  then have "filter (\<lambda>x. zs ! k \<le> x) zs = take (Suc k) zs @ filter (\<lambda>x. zs ! k \<le> x) (drop (Suc k) zs)"
    by (metis append_take_drop_id filter_append)
  then show ?thesis using assms(2) by simp
qed

lemma descending_nth_ge:
  assumes "sorted_wrt (\<ge>) zs" "k < length zs" "Suc k \<le> length (filter (\<lambda>x. v \<le> x) zs)"
  shows "(v :: nat) \<le> zs ! k"
proof (rule ccontr)
  assume "\<not> v \<le> zs ! k"
  then have "filter (\<lambda>x. v \<le> x) (drop k zs) = []"
    using descending_drop [OF assms(1) _ assms(2)] by (fastforce simp: filter_empty_conv)
  then have "filter (\<lambda>x. v \<le> x) zs = filter (\<lambda>x. v \<le> x) (take k zs)"
    by (metis append_Nil2 append_take_drop_id filter_append)
  then have "length (filter (\<lambda>x. v \<le> x) zs) \<le> k"
    using length_filter_le [of "\<lambda>x. v \<le> x" "take k zs"] by simp
  then show False using assms(3) by simp
qed

lemma kth_largest_count:
  "k < length xs \<Longrightarrow> Suc k \<le> length (filter (\<lambda>x. sort_descending xs ! k \<le> x) xs)"
  using descending_count [OF sorted_descending, of k xs] by (simp add: length_filter_sort_descending)

lemma kth_largest_mono:
  assumes "list_all2 (\<le>) xs ys" "k < length xs"
  shows "sort_descending xs ! k \<le> sort_descending ys ! k"
proof (rule descending_nth_ge [OF sorted_descending])
  have "length (filter (\<lambda>x. v \<le> x) xs) \<le> length (filter (\<lambda>x. v \<le> x) ys)" for v
    using assms(1) by (induction rule: list_all2_induct) auto
  then show "Suc k \<le> length (filter (\<lambda>x. sort_descending xs ! k \<le> x) (sort_descending ys))"
    using kth_largest_count [OF assms(2)] order_trans by (fastforce simp: length_filter_sort_descending)
qed (use assms list_all2_lengthD [OF assms(1)] in auto)

subsection \<open>Advancing the indices\<close>

lemma voting_followers_length:
  assumes inv: "base_inv e r" and rl: "r_role r = LEADER"
  shows "length (voting_followers r) + 1 = length (voting_replicas (active_membership r))"
proof -
  let ?am = "act (r_membership r) (r_uncommitted r)" and ?fs = "ls_followers (r_leader r)"
  let ?g = "filter (\<lambda>(p, s). p \<in> set (voting_replicas ?am)) ?fs"
  have f: "followers_ok (r_me r) ?am (last_idx (r_log r)) ?fs" using leader_followers [OF inv] rl by simp
  have me: "r_me r \<in> set (voting_replicas ?am)" using base_parts(2) [OF inv] rl by (simp add: role_ok_def)
  have m: "membership_inv ?am" using act_mem_ok [OF base_parts(1) [OF inv]] by (simp add: mem_ok_def)
  have g: "fst ` set ?g = set (voting_replicas ?am) - {r_me r}"
    unfolding fst_filter_keys using f m by (auto simp: followers_ok_def membership_inv_def)
  have "om_inv ?g" using f by (intro om_inv_filter) (simp add: followers_ok_def)
  then have "distinct (map fst ?g)" by (rule om_inv_distinct)
  then have "length ?g = card (set (voting_replicas ?am) - {r_me r})"
    using distinct_card [of "map fst ?g"] g by (simp only: set_map length_map)
  moreover have "card (set (voting_replicas ?am)) = length (voting_replicas ?am)"
    using m by (simp add: membership_inv_def os_inv_card)
  moreover have "0 < length (voting_replicas ?am)" using me by (cases "voting_replicas ?am") auto
  ultimately show ?thesis using me by (simp add: voting_followers_def active_act card_Diff_singleton)
qed

lemma quorum_index:
  assumes inv: "base_inv e r" and rl: "r_role r = LEADER"
  shows "u64_sub (membership_quorum_size r) 1 = membership_quorum_size r - 1"
    "membership_quorum_size r - 1 < length (voting_followers r) + 1" "0 < membership_quorum_size r"
proof -
  let ?am = "act (r_membership r) (r_uncommitted r)"
  have "voting_replicas ?am \<noteq> []" using base_parts(2) [OF inv] rl by (auto simp: role_ok_def)
  then have q: "0 < membership_quorum_size r" "membership_quorum_size r \<le> length (voting_replicas ?am)"
    "length (voting_replicas ?am) < 2 ^ 32"
    using mem_ok_quorum [OF act_mem_ok [OF base_parts(1) [OF inv]]] inv
    by (auto simp: membership_quorum_size_def active_act base_inv_def)
  then show "u64_sub (membership_quorum_size r) 1 = membership_quorum_size r - 1" by (simp add: u64_simps)
  show "membership_quorum_size r - 1 < length (voting_followers r) + 1" "0 < membership_quorum_size r"
    using q voting_followers_length [OF inv rl] by (simp_all add: active_act)
qed

lemma voting_followers_ok:
  assumes "base_inv e r" "r_role r = LEADER"
  shows "list_all (repl_ok (last_idx (r_log r))) (voting_followers r)"
  using leader_followers [OF assms(1)] assms(2)
  by (fastforce simp: list_all_iff voting_followers_def followers_ok_def)

text \<open>The indices that a leader moves to are acknowledged by a quorum: \<open>ack_set\<close> are the voters known to hold
  the log up to an index, and \<open>promise_set\<close> those known to have promised it.\<close>

definition ack_set :: "raft \<Rightarrow> nat \<Rightarrow> peer_id set" where
  "ack_set r i = insert (r_me r) {p \<in> set (voting_replicas (active_membership r)).
     \<exists>s. get_follower r p = Some s \<and> i \<le> rs_match_idx s}"

definition promise_set :: "raft \<Rightarrow> nat \<Rightarrow> peer_id set" where
  "promise_set r i = insert (r_me r) {p \<in> set (voting_replicas (active_membership r)).
     \<exists>s. get_follower r p = Some s \<and> i \<le> rs_promise_idx s}"

lemma count_followers:
  assumes inv: "base_inv e r" and rl: "r_role r = LEADER"
    and n: "n \<le> Suc (length (filter (\<lambda>x. i \<le> x) (map f (voting_followers r))))" "0 < n" "membership_quorum_size r \<le> n"
  shows "voting_quorum (active_membership r) (r_super_majority r)
    (insert (r_me r) {p \<in> set (voting_replicas (active_membership r)). \<exists>s. get_follower r p = Some s \<and> i \<le> f s})"
proof -
  let ?am = "act (r_membership r) (r_uncommitted r)" and ?fs = "ls_followers (r_leader r)"
  let ?g = "filter (\<lambda>(p, s). i \<le> f s) (filter (\<lambda>(p, s). p \<in> set (voting_replicas ?am)) ?fs)"
  let ?A = "{p \<in> set (voting_replicas ?am). \<exists>s. get_follower r p = Some s \<and> i \<le> f s}"
  have fo: "followers_ok (r_me r) ?am (last_idx (r_log r)) ?fs" using leader_followers [OF inv] rl by simp
  have me: "r_me r \<in> set (voting_replicas ?am)" using base_parts(2) [OF inv] rl by (simp add: role_ok_def)
  have m: "mem_ok ?am" by (rule act_mem_ok [OF base_parts(1) [OF inv]])
  have om: "om_inv ?fs" using fo by (simp add: followers_ok_def)
  have "om_inv ?g" by (intro om_inv_filter om)
  then have d: "distinct (map fst ?g)" by (rule om_inv_distinct)
  have "fst ` set ?g \<subseteq> ?A"
    using om_inv_distinct [OF om] by (auto simp: get_follower_def)
  then have "card (fst ` set ?g) \<le> card ?A" by (intro card_mono) auto
  then have l: "length ?g \<le> card ?A" using distinct_card [OF d] by (simp only: set_map length_map)
  have "length (filter (\<lambda>x. i \<le> x) (map f (voting_followers r))) = length ?g"
    by (simp add: voting_followers_def active_act filter_map comp_def case_prod_unfold)
  moreover have "r_me r \<notin> fst ` set ?fs" using fo by (simp add: followers_ok_def)
  then have "get_follower r (r_me r) = None" by (simp add: get_follower_def map_of_eq_None_iff)
  then have "r_me r \<notin> ?A" by simp
  ultimately have "n \<le> card (insert (r_me r) ?A)" using l n(1) by simp
  moreover have "voting_replicas ?am \<noteq> []" using me by auto
  moreover have "quorum_bounds (length (voting_replicas ?am)) (r_super_majority r)"
    by (rule mem_ok_quorum(1) [OF m \<open>voting_replicas ?am \<noteq> []\<close>]) (use inv in \<open>simp add: base_inv_def\<close>)
  ultimately show ?thesis using me m n(3)
    by (auto simp: voting_quorum_def active_act mem_ok_def membership_inv_def membership_quorum_size_def)
qed

lemma MaybeAdvance_indices:
  assumes inv: "base_inv e r" and rl: "r_role r = LEADER"
  obtains np nc where
    "vector_at (sort_descending (map rs_match_idx (voting_followers r) @ [last_idx (r_log r)]))
       (u64_sub (membership_quorum_size r) 1) = Some np"
    "vector_at (sort_descending (map rs_promise_idx (voting_followers r) @ [max np (r_promise_idx r)]))
       (u64_sub (membership_quorum_size r) 1) = Some nc"
    "np \<le> last_idx (r_log r)" "nc \<le> max np (r_promise_idx r)"
    "voting_quorum (active_membership r) (r_super_majority r) (ack_set r np)"
    "voting_quorum (active_membership r) (r_super_majority r) (promise_set r nc)"
proof -
  note q = quorum_index [OF inv rl] and d = base_log [OF inv]
  have ok: "\<forall>s \<in> set (voting_followers r). rs_match_idx s \<le> last_idx (r_log r) \<and> rs_promise_idx s \<le> rs_match_idx s"
    using voting_followers_ok [OF inv rl] by (auto simp: list_all_iff repl_ok_def)
  let ?k = "membership_quorum_size r - 1"
  let ?st = "map rs_match_idx (voting_followers r) @ [last_idx (r_log r)]"
  define np where "np = sort_descending ?st ! ?k"
  let ?pr = "map rs_promise_idx (voting_followers r) @ [max np (r_promise_idx r)]"
  define nc where "nc = sort_descending ?pr ! ?k"
  have k: "?k < length ?st" "?k < length ?pr" using q(2) by simp_all
  have "np \<in> set (sort_descending ?st)" unfolding np_def using k by (intro nth_mem) simp
  then have np: "np \<le> last_idx (r_log r)" using ok by auto
  have "list_all2 (\<le>) ?pr ?st" using ok np d(7) by (auto simp: list_all2_append list_all2_map1 list_all2_map2 list.rel_refl_strong)
  then have "nc \<le> np" unfolding nc_def np_def by (rule kth_largest_mono) (use k in simp)
  have "Suc ?k \<le> length (filter (\<lambda>x. np \<le> x) ?st)" "Suc ?k \<le> length (filter (\<lambda>x. nc \<le> x) ?pr)"
    using kth_largest_count [OF k(1)] kth_largest_count [OF k(2)] unfolding np_def nc_def by simp_all
  then have "Suc ?k \<le> Suc (length (filter (\<lambda>x. np \<le> x) (map rs_match_idx (voting_followers r))))"
    "Suc ?k \<le> Suc (length (filter (\<lambda>x. nc \<le> x) (map rs_promise_idx (voting_followers r))))"
    by (simp_all split: if_splits)
  then have vq: "voting_quorum (active_membership r) (r_super_majority r) (ack_set r np)"
    "voting_quorum (active_membership r) (r_super_majority r) (promise_set r nc)"
    unfolding ack_set_def promise_set_def using q(3) by (intro count_followers [OF inv rl]; simp)+
  have "vector_at (sort_descending ?st) (u64_sub (membership_quorum_size r) 1) = Some np"
    "vector_at (sort_descending ?pr) (u64_sub (membership_quorum_size r) 1) = Some nc"
    using k q(1) by (simp_all add: vector_at_def np_def nc_def)
  then show thesis by (rule that) (use np \<open>nc \<le> np\<close> vq in auto)
qed

lemma commit_step:
  assumes inv: "base_inv e r" and c: "c \<le> r_promise_idx r"
    and r': "r' = (if c > r_commit_idx r then MaybeChangeUncommittedMembershipsBasedOnLog (r\<lparr>r_commit_idx := c\<rparr>) else r)"
  shows "base_inv e r'" "ext r r'" "calm r r'" "r_log r' = r_log r" "active_membership r' = active_membership r"
    "ls_relinquishing (r_leader r') = ls_relinquishing (r_leader r)" "r_promise_idx r' = r_promise_idx r"
    "r_commit_idx r' = max c (r_commit_idx r)"
proof -
  have "base_inv e r' \<and> ext r r' \<and> calm r r' \<and> r_log r' = r_log r \<and> active_membership r' = active_membership r \<and>
    ls_relinquishing (r_leader r') = ls_relinquishing (r_leader r) \<and> r_promise_idx r' = r_promise_idx r \<and>
    r_commit_idx r' = max c (r_commit_idx r)"
  proof (cases "c > r_commit_idx r")
    case True
    obtain mem unc ld where "MaybeChangeUncommittedMembershipsBasedOnLog (r\<lparr>r_commit_idx := c\<rparr>) =
        r\<lparr>r_commit_idx := c, r_membership := mem, r_uncommitted := unc, r_leader := ld\<rparr>"
      "act mem unc = act (r_membership r) (r_uncommitted r)" "ls_relinquishing ld = ls_relinquishing (r_leader r)"
      "base_inv e (r\<lparr>r_commit_idx := c, r_membership := mem, r_uncommitted := unc, r_leader := ld\<rparr>)"
      "ext r (r\<lparr>r_commit_idx := c, r_membership := mem, r_uncommitted := unc, r_leader := ld\<rparr>)"
      using commit_good [OF inv _ c] True by auto
    then show ?thesis using True by (simp add: r' active_act calm_def calm_role_def)
  next
    case False
    then show ?thesis using inv by (simp add: r')
  qed
  then show "base_inv e r'" "ext r r'" "calm r r'" "r_log r' = r_log r" "active_membership r' = active_membership r"
    "ls_relinquishing (r_leader r') = ls_relinquishing (r_leader r)" "r_promise_idx r' = r_promise_idx r"
    "r_commit_idx r' = max c (r_commit_idx r)" by blast+
qed

lemma MaybeAdvance_ok:
  assumes inv: "base_inv e r"
  obtains r' where "MaybeAdvanceCommitIndex r = Some r'" "base_inv e r'" "ext r r'" "calm r r'" "r_log r' = r_log r"
    "active_membership r' = active_membership r" "ls_relinquishing (r_leader r') = ls_relinquishing (r_leader r)"
    "r_role r = LEADER \<and> r_promise_idx r < r_promise_idx r' \<longrightarrow>
       voting_quorum (active_membership r) (r_super_majority r) (ack_set r (r_promise_idx r'))"
    "r_role r = LEADER \<and> r_commit_idx r < r_commit_idx r' \<longrightarrow>
       voting_quorum (active_membership r) (r_super_majority r) (promise_set r (r_commit_idx r'))"
proof (cases "r_role r = LEADER")
  case False
  then show ?thesis using that [of r] inv by (simp add: MaybeAdvanceCommitIndex_def)
next
  case True
  obtain np nc where i:
    "vector_at (sort_descending (map rs_match_idx (voting_followers r) @ [last_idx (r_log r)]))
       (u64_sub (membership_quorum_size r) 1) = Some np"
    "vector_at (sort_descending (map rs_promise_idx (voting_followers r) @ [max np (r_promise_idx r)]))
       (u64_sub (membership_quorum_size r) 1) = Some nc"
    "np \<le> last_idx (r_log r)" "nc \<le> max np (r_promise_idx r)"
    "voting_quorum (active_membership r) (r_super_majority r) (ack_set r np)"
    "voting_quorum (active_membership r) (r_super_majority r) (promise_set r nc)"
    by (rule MaybeAdvance_indices [OF inv True])
  let ?r1 = "r\<lparr>r_promise_idx := max np (r_promise_idx r)\<rparr>"
  have r1: "(if np > r_promise_idx r then r\<lparr>r_promise_idx := np\<rparr> else r) = ?r1" by simp
  have p: "base_inv e ?r1" "ext r ?r1" using promise_good [OF inv, of "max np (r_promise_idx r)"] i(3) base_log(7) [OF inv] by simp_all
  define r2 where "r2 = (if nc > r_commit_idx ?r1
      then MaybeChangeUncommittedMembershipsBasedOnLog (?r1\<lparr>r_commit_idx := nc\<rparr>) else ?r1)"
  have "nc \<le> r_promise_idx ?r1" using i(4) by simp
  note r2 = commit_step [OF p(1) this r2_def]
  have c2: "calm r r2" using r2(3) by (simp add: calm_def calm_role_def)
  let ?f = "\<lambda>s. s\<lparr>rs_send_heartbeat := True\<rparr>"
  define r3 where "r3 = (if np > r_promise_idx r \<or> nc > r_commit_idx ?r1 then map_followers ?f r2 else r2)"
  have m: "good e r2 (map_followers ?f r2)" "calm r2 (map_followers ?f r2)"
    by (rule map_followers_good [OF r2(1)]; simp add: repl_ok_def)+
  have r3: "base_inv e r3" "ext r2 r3" "calm r2 r3" "r_log r3 = r_log r2" "active_membership r3 = active_membership r2"
    "ls_relinquishing (r_leader r3) = ls_relinquishing (r_leader r2)" "r_promise_idx r3 = r_promise_idx r2"
    "r_commit_idx r3 = r_commit_idx r2"
    using m r2(1) by (simp_all add: r3_def good_def map_followers_def active_act)
  have "voting_followers ?r1 = voting_followers r" by (simp add: voting_followers_def active_act)
  then have "MaybeAdvanceCommitIndex r = Some r3"
    using True i(1,2) unfolding MaybeAdvanceCommitIndex_def r3_def r2_def r1 [symmetric]
    by (simp add: Let_def max_def split: if_splits)
  then show ?thesis
    by (rule that) (use r3 r2 ext_trans [OF ext_trans [OF p(2) r2(2)] r3(2)] calm_trans [OF c2 r3(3)] i(5,6) in \<open>auto simp: max_def active_act\<close>)
qed

end
