(* ===== verification/RaftStep.thy ===== *)
theory RaftStep
  imports RaftCommit
begin

text \<open>
  The Merkle leaves of the commit and promise indices, the messages to followers, and
  \<^verbatim>\<open>MaybeChangeStateAndSendMessages\<close>, with which every operation of a replica ends.
\<close>

subsection \<open>The Merkle tree\<close>

lemma MerkleHash_log_hash:
  assumes "log_inv sz lg"
  shows "MerkleHashFromLogIter lg (At lg i) = Some (log_hash lg i)"
proof (cases "entry_at lg i")
  case None
  then show ?thesis by (simp add: MerkleHashFromLogIter_def log_hash_def entry_at_def)
next
  case (Some en)
  then have "length (le_hash_chain en) = 32" using log_inv_entry_ok [OF assms] by (simp add: entry_ok_def)
  then show ?thesis using Some by (simp add: MerkleHashFromLogIter_def log_hash_def entry_at_def)
qed

lemma UpdateMerkle_ok:
  assumes inv: "base_inv e r"
  obtains t where "UpdateMerkleTree e r = Some (r\<lparr>r_merkle := t\<rparr>)" "base_inv e (r\<lparr>r_merkle := t\<rparr>)"
    "synced (r\<lparr>r_merkle := t\<rparr>)" "ext r (r\<lparr>r_merkle := t\<rparr>)"
proof -
  note d = base_log(1) [OF inv]
  have tr: "pend (env_H e) (r_merkle r) {}" "leaf_hash (r_merkle r) (r_commit_leaf r) \<noteq> None"
    "leaf_hash (r_merkle r) (r_promise_leaf r) \<noteq> None" "r_commit_leaf r \<noteq> r_promise_leaf r"
    using inv by (auto simp: base_inv_def tree_ok_def)
  let ?hc = "log_hash (r_log r) (r_commit_idx r)" and ?hp = "log_hash (r_log r) (r_promise_idx r)"
  obtain t1 where t1: "Leaf_Update (env_H e) (r_commit_leaf r) ?hc (r_merkle r) = Some t1" "pend (env_H e) t1 {}"
    "leaf_hash t1 = (leaf_hash (r_merkle r))(r_commit_leaf r \<mapsto> ?hc)"
    by (rule mt.update_same [OF tr(1,2)])
  then have "leaf_hash t1 (r_promise_leaf r) \<noteq> None" using tr(3) by simp
  then obtain t2 where t2: "Leaf_Update (env_H e) (r_promise_leaf r) ?hp t1 = Some t2" "pend (env_H e) t2 {}"
    "leaf_hash t2 = (leaf_hash t1)(r_promise_leaf r \<mapsto> ?hp)"
    by (rule mt.update_same [OF t1(2)])
  have "UpdateMerkleTree e r = Some (r\<lparr>r_merkle := t2\<rparr>)"
    using t1(1) t2(1) by (simp add: UpdateMerkleTree_def MerkleHash_log_hash [OF d])
  moreover have "base_inv e (r\<lparr>r_merkle := t2\<rparr>)" using inv t1(3) t2(2,3) tr(4) by (simp add: base_inv_def tree_ok_def)
  moreover have "synced (r\<lparr>r_merkle := t2\<rparr>)" using t1(3) t2(3) tr(4) by (simp add: synced_def tree_sync_def)
  moreover have "ext r (r\<lparr>r_merkle := t2\<rparr>)" using t1(3) t2(3) by (simp add: ext_def same_identity_def)
  ultimately show thesis by (rule that)
qed

lemma VerifyMerkle_ok:
  assumes inv: "base_inv e r" and s: "synced r"
  shows "VerifyMerkleTree e r = Some OK"
proof -
  have "pend (env_H e) (r_merkle r) {}" using inv by (simp add: base_inv_def tree_ok_def)
  then show ?thesis using s mt.verify_law
    by (simp add: VerifyMerkleTree_def MerkleHash_log_hash [OF base_log(1) [OF inv]] synced_def tree_sync_def)
qed

subsection \<open>Sending entries\<close>

lemma collect_entries_subset:
  "en \<in> set (collect_entries sz lg mx sent limit idx) \<Longrightarrow> \<exists>i. entry_at lg i = Some en"
proof (induction sz lg mx sent limit idx rule: collect_entries.induct)
  case (1 sz lg mx sent limit idx)
  note eq = collect_entries.simps [of sz lg mx sent limit idx]
  from 1(2) have lim: "idx < limit" by (cases "idx < limit") (simp_all add: eq)
  with 1(2) obtain a where a: "Iter_Entry lg (At lg idx) = Some a" by (cases "Iter_Entry lg (At lg idx)") (simp_all add: eq)
  show ?case
  proof (cases "en = a")
    case True
    then show ?thesis using a by (auto simp: entry_at_def)
  next
    case False
    then have "\<not> mx \<le> u64_add sent (ByteSizeLong sz a)"
      "en \<in> set (collect_entries sz lg mx (u64_add sent (ByteSizeLong sz a)) limit (idx + 1))"
      using 1(2) lim a by (auto simp: eq Let_def split: if_splits)
    then show ?thesis using 1(1) [OF lim a refl] by simp
  qed
qed

lemma AppendEntries_ok:
  assumes inv: "base_inv e r" and p: "p \<noteq> r_me r"
  obtains fs ms where "AppendEntries e p r = Some (r\<lparr>r_leader := (r_leader r)\<lparr>ls_followers := fs\<rparr>, r_sendable := r_sendable r @ ms\<rparr>)"
    "good e r (r\<lparr>r_leader := (r_leader r)\<lparr>ls_followers := fs\<rparr>, r_sendable := r_sendable r @ ms\<rparr>)" "list_all not_grant ms"
proof -
  have same: "r\<lparr>r_leader := (r_leader r)\<lparr>ls_followers := ls_followers (r_leader r)\<rparr>, r_sendable := r_sendable r @ []\<rparr> = r" by simp
  show thesis
  proof (cases "AppendEntries e p r = Some r")
    case True
    then show ?thesis using that [where fs = "ls_followers (r_leader r)" and ms = "[]"] good_refl [OF inv] same by simp
  next
    case False
    then have rl: "r_role r = LEADER" by (rule contrapos_np) (simp add: AppendEntries_def)
    with False obtain s where s: "get_follower r p = Some s" by (cases "get_follower r p") (simp_all add: AppendEntries_def)
    define app where "app = append_message e (last_idx (r_log r) \<ge> rs_next_idx s \<and> \<not> rs_send_probe s) (rs_next_idx s)
        (if u64_sub (rs_next_idx s) 1 = 0 then 0 else Iter_Term (r_log r) (At (r_log r) (u64_sub (rs_next_idx s) 1))) r"
    define s' where "s' = s\<lparr>rs_send_heartbeat := False,
        rs_inflight := Some (u64_add (u64_sub (rs_next_idx s) 1) (length (ar_entries app)))\<rparr>"
    let ?m = "Reply p \<lparr>rm_group = r_group r, rm_term = r_current_term r, rm_inner = AppendRequest app\<rparr>"
    have a: "AppendEntries e p r = AddSendableMessage ?m (set_follower p s' r)"
      using False unfolding AppendEntries_def app_def s'_def Let_def rl s option.case
      by (simp only: if_False simp_thms split: if_split_asm if_split)
    have "repl_ok (last_idx (r_log r)) s'" using follower_repl_ok [OF inv rl s] by (simp add: repl_ok_def s'_def)
    then have g: "good e r (set_follower p s' r)" using set_follower_good(1) [OF inv] s by auto
    have "list_all (entry_fits e) (ar_entries app)"
      using base_inv_log_ok [OF inv] collect_entries_subset unfolding log_ok_def
      by (fastforce simp: app_def append_message_def Let_def list_all_iff)
    then have "msg_ok e (sm_message ?m)" using base_term [OF inv] by (simp add: msg_ok_def Reply_def)
    moreover have "sm_to ?m \<noteq> Some (r_me (set_follower p s' r))" using p by (simp add: Reply_def set_follower_def)
    ultimately obtain r' where r': "AddSendableMessage ?m (set_follower p s' r) = Some r'" "good e (set_follower p s' r) r'"
      "r' = set_follower p s' r \<or> r' = (set_follower p s' r)\<lparr>r_sendable := r_sendable (set_follower p s' r) @ [?m]\<rparr>"
      by (rule AddSendable_good [OF good_base [OF g]])
    then have "\<exists>ms. list_all not_grant ms \<and> r' = r\<lparr>r_leader := (r_leader r)\<lparr>ls_followers := om_put p s' (ls_followers (r_leader r))\<rparr>,
        r_sendable := r_sendable r @ ms\<rparr>"
      by (auto simp: set_follower_def not_grant_def Reply_def intro: exI [of _ "[]"] exI [of _ "[?m]"])
    then show ?thesis using that a r'(1) good_trans [OF g r'(2)] by auto
  qed
qed

lemma append_to_all_ok:
  assumes "base_inv e r" "r_me r \<notin> set ps"
  shows "\<exists>fs ms. append_to_all e ps r = Some (r\<lparr>r_leader := (r_leader r)\<lparr>ls_followers := fs\<rparr>, r_sendable := r_sendable r @ ms\<rparr>) \<and>
    good e r (r\<lparr>r_leader := (r_leader r)\<lparr>ls_followers := fs\<rparr>, r_sendable := r_sendable r @ ms\<rparr>) \<and> list_all not_grant ms"
  using assms
proof (induction ps arbitrary: r)
  case Nil
  then show ?case using good_refl by (intro exI [of _ "ls_followers (r_leader r)"] exI [of _ "[]"]) simp
next
  case (Cons p ps)
  obtain fs ms where a: "AppendEntries e p r = Some (r\<lparr>r_leader := (r_leader r)\<lparr>ls_followers := fs\<rparr>, r_sendable := r_sendable r @ ms\<rparr>)"
    "good e r (r\<lparr>r_leader := (r_leader r)\<lparr>ls_followers := fs\<rparr>, r_sendable := r_sendable r @ ms\<rparr>)" "list_all not_grant ms"
    by (rule AppendEntries_ok [OF Cons.prems(1), of p]) (use Cons.prems in auto)
  let ?r = "r\<lparr>r_leader := (r_leader r)\<lparr>ls_followers := fs\<rparr>, r_sendable := r_sendable r @ ms\<rparr>"
  obtain gs ns where b: "append_to_all e ps ?r = Some (?r\<lparr>r_leader := (r_leader ?r)\<lparr>ls_followers := gs\<rparr>, r_sendable := r_sendable ?r @ ns\<rparr>)"
    "good e ?r (?r\<lparr>r_leader := (r_leader ?r)\<lparr>ls_followers := gs\<rparr>, r_sendable := r_sendable ?r @ ns\<rparr>)" "list_all not_grant ns"
    using Cons.IH [OF good_base [OF a(2)]] Cons.prems(2) by auto
  show ?case using a b good_trans [OF a(2) b(2)]
    by (intro exI [of _ gs] exI [of _ "ms @ ns"]) simp
qed

lemma TryToRelinquish_ok:
  assumes inv: "base_inv e r"
  obtains r' where "TryToRelinquishLeadership e r = Some r'" "good e r r'" "calm r r'" "r_log r' = r_log r"
    "active_membership r' = active_membership r"
proof (cases "find (\<lambda>peer. peer \<noteq> r_me r \<and> (case get_follower r peer of None \<Rightarrow> False
                    | Some s \<Rightarrow> rs_match_idx s = last_idx (r_log r))) (voting_replicas (active_membership r))")
  case None
  then show ?thesis using that [of r] good_refl [OF inv] by (simp add: TryToRelinquishLeadership_def)
next
  case (Some p)
  let ?m = "Reply p \<lparr>rm_group = r_group r, rm_term = r_current_term r, rm_inner = TimeoutNow True\<rparr>"
  have "p \<noteq> r_me r" using Some by (auto simp: find_Some_iff)
  then have "msg_ok e (sm_message ?m)" "sm_to ?m \<noteq> Some (r_me r)"
    using base_term [OF inv] by (simp_all add: msg_ok_def Reply_def)
  then obtain r1 where r1: "AddSendableMessage ?m r = Some r1" "good e r r1"
    "r1 = r \<or> r1 = r\<lparr>r_sendable := r_sendable r @ [?m]\<rparr>" by (rule AddSendable_good [OF inv])
  have "0 < cfg_election_ticks (r_config (SetRole FOLLOWER r1))"
    using base_config [OF good_base [OF r1(2)]] by (simp add: SetRole_def)
  then obtain t where t: "RandomElectionTimeout e (SetRole FOLLOWER r1) =
      Some (t, (SetRole FOLLOWER r1)\<lparr>r_rand := r_rand (SetRole FOLLOWER r1) + 1\<rparr>)" by (rule RandomElectionTimeout_ok)
  let ?r' = "(SetRole FOLLOWER r1)\<lparr>r_rand := r_rand (SetRole FOLLOWER r1) + 1, r_follower := no_follower\<lparr>fs_election := t\<rparr>\<rparr>"
  have "good e r ?r'" by (rule good_trans [OF r1(2) good_become_follower [OF good_base [OF r1(2)]]])
  moreover have "TryToRelinquishLeadership e r = Some ?r'"
    using Some r1(1) t by (simp add: TryToRelinquishLeadership_def)
  moreover have "calm r ?r'" "r_log ?r' = r_log r" "active_membership ?r' = active_membership r"
    using r1(3) by (auto simp: calm_def calm_role_def SetRole_def active_act not_grant_def Reply_def)
  ultimately show ?thesis using that by blast
qed

subsection \<open>The common end of all operations\<close>

text \<open>A candidate that is elected by the step from \<open>r\<close> to \<open>r'\<close>.\<close>

definition elected :: "raft \<Rightarrow> raft \<Rightarrow> bool" where
  "elected r r' \<longleftrightarrow> r_role r = CANDIDATE \<and> r_role r' \<noteq> CANDIDATE \<and>
     (r_role r' = LEADER \<longrightarrow> r_current_term r' = r_current_term r) \<and>
     voting_quorum (active_membership r') (r_super_majority r) (set (cs_votes_granted (r_candidate r))) \<and>
     (\<exists>ms. r_sendable r' = r_sendable r @ ms \<and> list_all not_grant ms)"

lemma calm_frame:
  "calm r (r\<lparr>r_leader := ld, r_sendable := r_sendable r @ ms\<rparr>) \<longleftrightarrow> list_all not_grant ms"
  "calm r (r\<lparr>r_merkle := t\<rparr>)"
  by (simp_all add: calm_def calm_role_def)

text \<open>The part after a possible election.\<close>

lemma advance_and_send_ok:
  assumes inv: "base_inv e r" and s: "synced r"
  obtains r2 r3 r' where "MaybeAdvanceCommitIndex r = Some r2" "UpdateMerkleTree e r2 = Some r3"
    "do { r4 \<leftarrow> append_to_all e (peers r3) r3;
          if r_role r4 = LEADER \<and> ls_relinquishing (r_leader r4) then TryToRelinquishLeadership e r4 else Some r4 } = Some r'"
    "good e r r'" "synced r'" "calm r r'" "r_log r' = r_log r" "active_membership r' = active_membership r"
proof -
  obtain r2 where r2: "MaybeAdvanceCommitIndex r = Some r2" "base_inv e r2" "ext r r2" "calm r r2" "r_log r2 = r_log r"
    "active_membership r2 = active_membership r" by (rule MaybeAdvance_ok [OF inv])
  obtain t where t: "UpdateMerkleTree e r2 = Some (r2\<lparr>r_merkle := t\<rparr>)" "base_inv e (r2\<lparr>r_merkle := t\<rparr>)"
    "synced (r2\<lparr>r_merkle := t\<rparr>)" "ext r2 (r2\<lparr>r_merkle := t\<rparr>)" by (rule UpdateMerkle_ok [OF r2(2)])
  let ?r3 = "r2\<lparr>r_merkle := t\<rparr>"
  have "r_me ?r3 \<notin> set (peers ?r3)" by (simp add: peers_def)
  then obtain fs ms where a: "append_to_all e (peers ?r3) ?r3 =
      Some (?r3\<lparr>r_leader := (r_leader ?r3)\<lparr>ls_followers := fs\<rparr>, r_sendable := r_sendable ?r3 @ ms\<rparr>)"
    "good e ?r3 (?r3\<lparr>r_leader := (r_leader ?r3)\<lparr>ls_followers := fs\<rparr>, r_sendable := r_sendable ?r3 @ ms\<rparr>)" "list_all not_grant ms"
    using append_to_all_ok [OF t(2)] by blast
  let ?r4 = "?r3\<lparr>r_leader := (r_leader ?r3)\<lparr>ls_followers := fs\<rparr>, r_sendable := r_sendable ?r3 @ ms\<rparr>"
  obtain r5 where r5: "TryToRelinquishLeadership e ?r4 = Some r5" "good e ?r4 r5" "calm ?r4 r5" "r_log r5 = r_log ?r4"
    "active_membership r5 = active_membership ?r4" by (rule TryToRelinquish_ok [OF good_base [OF a(2)]])
  define r' where "r' = (if r_role ?r4 = LEADER \<and> ls_relinquishing (r_leader ?r4) then r5 else ?r4)"
  have r': "good e ?r4 r'" "calm ?r4 r'" "r_log r' = r_log ?r4" "active_membership r' = active_membership ?r4"
    using r5 good_refl [OF good_base [OF a(2)]] by (simp_all add: r'_def)
  have "calm r ?r3" using r2(4) by (simp add: calm_def calm_role_def)
  then have c: "calm r r'" using calm_trans calm_trans [OF _ r'(2)] calm_frame(1) [of ?r3] a(3) by blast
  have g: "good e ?r3 r'" by (rule good_trans [OF a(2) r'(1)])
  have x: "good e r r'" using g t(3) ext_trans [OF ext_trans [OF r2(3) t(4)]] by (auto simp: good_def)
  have y: "synced r'" using g t(3) by (simp add: good_def)
  have z: "r_log r' = r_log r" "active_membership r' = active_membership r" using r'(3,4) r2(5,6) by (simp_all add: active_act)
  have "do { r4 \<leftarrow> append_to_all e (peers ?r3) ?r3;
      if r_role r4 = LEADER \<and> ls_relinquishing (r_leader r4) then TryToRelinquishLeadership e r4 else Some r4 } = Some r'"
    using a(1) r5(1) by (simp add: r'_def)
  then show thesis by (rule that [OF r2(1) t(1) _ x y c z])
qed

lemma MaybeChangeState_ok:
  assumes inv: "base_inv e r" and s: "synced r" and fits: "entry_fits e default_entry" and room: "log_end (r_log r) + 1 < 2 ^ 64"
  obtains r' where "MaybeChangeStateAndSendMessages e r = Some r'" "good e r r'" "synced r'" "calm r r' \<or> elected r r'"
    "last_idx (r_log r') \<le> last_idx (r_log r) + 1"
proof -
  obtain r1 where r1: "MaybeBecomeLeader e r = Some r1" "good e r r1" "last_idx (r_log r1) \<le> last_idx (r_log r) + 1"
    "r1 = r \<or> r_role r = CANDIDATE \<and> r_role r1 = LEADER \<and> r_current_term r1 = r_current_term r \<and> r_sendable r1 = r_sendable r \<and>
      active_membership r1 = active_membership r \<and>
      voting_quorum (active_membership r) (r_super_majority r) (set (cs_votes_granted (r_candidate r)))"
    by (rule MaybeBecomeLeader_ok [OF inv fits room])
  have s1: "synced r1" "base_inv e r1" using r1(2) s by (auto simp: good_def)
  obtain r2 r3 r' where r': "MaybeAdvanceCommitIndex r1 = Some r2" "UpdateMerkleTree e r2 = Some r3"
    "do { r4 \<leftarrow> append_to_all e (peers r3) r3;
          if r_role r4 = LEADER \<and> ls_relinquishing (r_leader r4) then TryToRelinquishLeadership e r4 else Some r4 } = Some r'"
    "good e r1 r'" "synced r'" "calm r1 r'" "r_log r' = r_log r1" "active_membership r' = active_membership r1"
    by (rule advance_and_send_ok [OF s1(2,1)])
  have "MaybeChangeStateAndSendMessages e r = Some r'"
    using r1(1) VerifyMerkle_ok [OF s1(2,1)] r'(1-3) by (simp add: MaybeChangeStateAndSendMessages_def)
  moreover have "calm r r' \<or> elected r r'" 
    using r1(4) r'(6,8) by (auto simp: elected_def calm_def calm_role_def)
  ultimately show thesis using that good_trans [OF r1(2) r'(4)] r'(5,7) r1(3) by simp
qed

end
