(* ===== verification/RaftHandle.thy ===== *)
theory RaftHandle
  imports RaftStep
begin

text \<open>
  The handlers of received messages: none of their CHECKs can fail on a message that passed validation,
  and all of them keep the invariant.
\<close>

subsection \<open>Votes\<close>

text \<open>A vote granted between \<open>r\<close> and \<open>r'\<close>: it is cast in a term in which no other vote was or will be cast.\<close>

definition granted :: "raft \<Rightarrow> raft \<Rightarrow> sendable_message \<Rightarrow> bool" where
  "granted r r' m \<longleftrightarrow> (\<exists>p. sm_to m = Some p \<and>
     r_current_term r \<le> rm_term (sm_message m) \<and> rm_term (sm_message m) \<le> r_current_term r' \<and>
     (rm_term (sm_message m) = r_current_term r \<longrightarrow> r_voted_for r = None \<or> r_voted_for r = Some p) \<and>
     (rm_term (sm_message m) = r_current_term r' \<longrightarrow> r_voted_for r' = Some p))"

definition step_grants :: "raft \<Rightarrow> raft \<Rightarrow> bool" where
  "step_grants r r' \<longleftrightarrow> (\<exists>ms. r_sendable r' = r_sendable r @ ms \<and>
     (\<forall>m \<in> set ms. \<not> not_grant m \<longrightarrow> granted r r' m) \<and>
     (\<forall>m \<in> set ms. \<forall>m' \<in> set ms. \<not> not_grant m \<and> \<not> not_grant m' \<longrightarrow> m = m'))"

lemma calm_step_grants: "calm r r' \<Longrightarrow> step_grants r r'"
  unfolding calm_def step_grants_def by (fastforce simp: list_all_iff)

lemma ext_term_vote:
  assumes "ext r r'"
  shows "r_current_term r \<le> r_current_term r'"
    "r_current_term r' = r_current_term r \<Longrightarrow> r_voted_for r \<noteq> None \<Longrightarrow> r_voted_for r' = r_voted_for r"
  using assms by (simp_all add: ext_def)

lemma step_grants_after:
  assumes "ext a b" "step_grants a b" "ext b c" "\<exists>ms. r_sendable c = r_sendable b @ ms \<and> list_all not_grant ms"
  shows "step_grants a c"
proof -
  obtain ms ns where m: "r_sendable b = r_sendable a @ ms" "\<forall>m \<in> set ms. \<not> not_grant m \<longrightarrow> granted a b m"
    "\<forall>m \<in> set ms. \<forall>m' \<in> set ms. \<not> not_grant m \<and> \<not> not_grant m' \<longrightarrow> m = m'"
    "r_sendable c = r_sendable b @ ns" "list_all not_grant ns"
    using assms(2,4) by (auto simp: step_grants_def)
  have "granted a c m" if "granted a b m" for m
    using that ext_term_vote [OF assms(3)] unfolding granted_def by (metis le_antisym le_trans option.distinct(1))
  then show ?thesis using m unfolding step_grants_def
    by (intro exI [of _ "ms @ ns"]) (auto simp: list_all_iff)
qed

lemma step_grants_before:
  assumes "ext a b" "calm a b" "ext b c" "step_grants b c"
  shows "step_grants a c"
proof -
  obtain ms ns where m: "r_sendable b = r_sendable a @ ms" "list_all not_grant ms" "r_sendable c = r_sendable b @ ns"
    "\<forall>m \<in> set ns. \<not> not_grant m \<longrightarrow> granted b c m" "\<forall>m \<in> set ns. \<forall>m' \<in> set ns. \<not> not_grant m \<and> \<not> not_grant m' \<longrightarrow> m = m'"
    using assms(2,4) by (auto simp: step_grants_def calm_def)
  have "granted a c m" if "granted b c m" for m
    using that ext_term_vote [OF assms(1)] unfolding granted_def by (metis le_antisym le_trans option.collapse)
  then show ?thesis using m unfolding step_grants_def
    by (intro exI [of _ "ms @ ns"]) (auto simp: list_all_iff)
qed

lemma HandleVoteRequest_ok:
  assumes inv: "base_inv e r" and from_: "from \<noteq> r_me r"
  obtains r' where "HandleVoteRequest e t m from r = Some r'" "good e r r'" "calm_role r r'" "step_grants r r'" "r_log r' = r_log r"
    "active_membership r' = active_membership r"
proof (cases "t > r_current_term r")
  case True
  then show ?thesis using that [of r] good_refl [OF inv] calm_step_grants [of r r]
    by (simp add: HandleVoteRequest_def Let_def calm_role_def)
next
  case False
  define grant where "grant \<longleftrightarrow> t = r_current_term r \<and>
     (vr_last_log_term m > last_term (r_log r) \<or> vr_last_log_term m = last_term (r_log r) \<and> vr_last_log_idx m \<ge> last_idx (r_log r)) \<and>
     (r_voted_for r = None \<or> r_voted_for r = Some from)"
  let ?r1 = "r\<lparr>r_voted_for := Some from\<rparr>"
  have "0 < cfg_election_ticks (r_config ?r1)" using base_config [OF inv] by simp
  then obtain el where el: "RandomElectionTimeout e ?r1 = Some (el, ?r1\<lparr>r_rand := r_rand ?r1 + 1\<rparr>)" by (rule RandomElectionTimeout_ok)
  define r1 where "r1 = (if grant then ?r1\<lparr>r_rand := r_rand ?r1 + 1, r_follower := (r_follower r)\<lparr>fs_election := el\<rparr>\<rparr> else r)"
  have g: "good e r r1"
  proof (cases grant)
    case True
    then have v: "r_voted_for r \<noteq> None \<longrightarrow> r_voted_for r = Some from" by (auto simp: grant_def)
    then have "r_role r = FOLLOWER" using base_parts(2) [OF inv] from_ by (cases "r_role r") (auto simp: role_ok_def)
    then show ?thesis using True v inv by (simp add: r1_def good_defs role_ok_def)
  next
    case False
    then show ?thesis using good_refl [OF inv] by (simp add: r1_def)
  qed
  let ?m = "Reply from \<lparr>rm_group = r_group r1, rm_term = r_current_term r1, rm_inner = VoteResponse grant\<rparr>"
  have f: "r_me r1 = r_me r" "r_current_term r1 = r_current_term r" "r_log r1 = r_log r" "r_role r1 = r_role r"
    "r_candidate r1 = r_candidate r" "active_membership r1 = active_membership r" "r_sendable r1 = r_sendable r"
    "grant \<longrightarrow> r_voted_for r1 = Some from" by (simp_all add: r1_def active_act)
  have "msg_ok e (sm_message ?m)" "sm_to ?m \<noteq> Some (r_me r1)"
    using from_ base_term [OF inv] f(1,2) by (simp_all add: msg_ok_def Reply_def)
  then obtain r' where r': "AddSendableMessage ?m r1 = Some r'" "good e r1 r'" "r' = r1 \<or> r' = r1\<lparr>r_sendable := r_sendable r1 @ [?m]\<rparr>"
    by (rule AddSendable_good [OF good_base [OF g]])
  have h: "HandleVoteRequest e t m from r = Some r'"
    using False el r'(1) unfolding HandleVoteRequest_def Let_def grant_def [symmetric] by (cases grant) (simp_all add: r1_def)
  have s: "calm_role r r'" "r_log r' = r_log r" "active_membership r' = active_membership r"
    using r'(3) f by (auto simp: calm_role_def active_act)
  have "step_grants r r'"
  proof (cases "r' = r1")
    case True
    then show ?thesis using f(7) by (simp add: step_grants_def)
  next
    case False
    then have "r' = r1\<lparr>r_sendable := r_sendable r1 @ [?m]\<rparr>" using r'(3) by simp
    moreover have "granted r (r1\<lparr>r_sendable := r_sendable r1 @ [?m]\<rparr>) ?m" if grant
      using that f(2,8) by (simp add: granted_def Reply_def grant_def)
    ultimately show ?thesis using f(7) by (auto simp: step_grants_def not_grant_def Reply_def)
  qed
  then show ?thesis by (rule that [OF h good_trans [OF g r'(2)] s(1) _ s(2,3)])
qed

lemma HandleVoteResponse_ok:
  assumes inv: "base_inv e r"
  shows "good e r (HandleVoteResponse t g from r)" "r_log (HandleVoteResponse t g from r) = r_log r"
    "r_role (HandleVoteResponse t g from r) = r_role r" "r_sendable (HandleVoteResponse t g from r) = r_sendable r"
    "r_current_term (HandleVoteResponse t g from r) = r_current_term r"
    "p \<in> set (cs_votes_granted (r_candidate (HandleVoteResponse t g from r))) \<Longrightarrow>
       p \<in> set (cs_votes_granted (r_candidate r)) \<or> p = from \<and> g \<and> t = r_current_term r"
  using inv
  by (auto simp: HandleVoteResponse_def good_defs role_ok_def active_act os_inv_insert split: if_splits)

subsection \<open>Entries of the leader\<close>

text \<open>The state of a follower with another log.\<close>

definition with_log :: "raft_log \<Rightarrow> (nat \<times> membership) list \<Rightarrow> leader_state \<Rightarrow> raft \<Rightarrow> raft" where
  "with_log lg unc ld r = r\<lparr>r_log := lg, r_uncommitted := unc, r_leader := ld\<rparr>"

lemma with_log_simps [simp]:
  "with_log lg unc ld (with_log lg' unc' ld' r) = with_log lg unc ld r"
  "r_log (with_log lg unc ld r) = lg" "r_role (with_log lg unc ld r) = r_role r" "r_me (with_log lg unc ld r) = r_me r"
  "r_commit_idx (with_log lg unc ld r) = r_commit_idx r" "r_promise_idx (with_log lg unc ld r) = r_promise_idx r"
  "r_current_term (with_log lg unc ld r) = r_current_term r" "with_log (r_log r) (r_uncommitted r) (r_leader r) r = r"
  by (simp_all add: with_log_def)

lemma calm_with_log [simp]: "calm r (with_log lg unc ld r)"
  by (simp add: with_log_def calm_def calm_role_def)

lemma resolve_conflict_ok:
  assumes inv: "base_inv e r" and rl: "r_role r = FOLLOWER" and idx: "1 \<le> idx" "idx \<le> last_idx (r_log r) + 1"
  obtains b lg unc ld where "resolve_conflict idx en r = (b, with_log lg unc ld r)" "good e r (with_log lg unc ld r)"
    "last_idx lg \<le> last_idx (r_log r)" "b \<longrightarrow> idx \<le> last_idx lg + 1" "\<not> b \<longrightarrow> lg = r_log r"
proof -
  let ?t = "Iter_Term (r_log r) (At (r_log r) idx)"
  have same: "r = with_log (r_log r) (r_uncommitted r) (r_leader r) r" by simp
  show thesis
  proof (cases "?t \<noteq> 0 \<and> ?t \<noteq> le_term en \<and> r_promise_idx r < idx")
    case True
    then have "entry_at (r_log r) idx \<noteq> None" by (auto simp: Iter_Term_At split: option.splits)
    then have "idx \<le> last_idx (r_log r)" using entry_at_le_last [OF base_log(1) [OF inv]] by auto
    then obtain lg unc where c: "CancelFrom idx (r_log r) = (OK, lg)" "last_idx lg = idx - 1"
      "MaybeChangeUncommittedMembershipsBasedOnLog (r\<lparr>r_log := lg\<rparr>) = with_log lg unc (r_leader r) r"
      "good e r (with_log lg unc (r_leader r) r)"
      using Cancel_good [OF inv rl] True unfolding with_log_def by blast
    have "r_commit_idx r < idx" using True base_log(6) [OF inv] by simp
    then have "resolve_conflict idx en r = (True, with_log lg unc (r_leader r) r)"
      using True c(1,3) by (simp add: resolve_conflict_def Let_def)
    then show ?thesis using that c(2,4) idx \<open>idx \<le> last_idx (r_log r)\<close> by (metis diff_le_self le_add_diff_inverse2 order_refl order_trans)
  next
    case False
    then have "resolve_conflict idx en r = (\<not> (?t \<noteq> 0 \<and> ?t \<noteq> le_term en), r)"
      by (auto simp: resolve_conflict_def Let_def)
    then show ?thesis using that same good_refl [OF inv] idx(2) by (metis order_refl)
  qed
qed

lemma append_new_ok:
  assumes inv: "base_inv e r" and rl: "r_role r = FOLLOWER" and idx: "idx \<le> last_idx (r_log r) + 1"
    and fits: "entry_fits e en" and room: "log_end (r_log r) + 1 < 2 ^ 64"
  obtains b lg unc ld where "append_new e idx en r = Some (b, with_log lg unc ld r)" "good e r (with_log lg unc ld r)"
    "last_idx (r_log r) \<le> last_idx lg" "last_idx lg \<le> last_idx (r_log r) + 1" "b \<longrightarrow> idx \<le> last_idx lg"
proof -
  have same: "r = with_log (r_log r) (r_uncommitted r) (r_leader r) r" by simp
  have nx: "u64_add (last_idx (r_log r)) 1 = last_idx (r_log r) + 1" by (rule base_log(4) [OF inv])
  show thesis
  proof (cases "idx = last_idx (r_log r) + 1 \<and> le_hash_chain en = NextHash e en (r_log r)")
    case True
    obtain loc err lg unc ld where l: "LogAppend e en r = Some ((loc, err), with_log lg unc ld r)" "good e r (with_log lg unc ld r)"
      "last_idx lg = last_idx (r_log r) + (if err = OK then 1 else 0)"
      using LogAppend_ok [OF inv fits room conjunct2 [OF True]] rl unfolding with_log_def by (metis role.distinct(1,3))
    then have "append_new e idx en r = Some (err = OK, with_log lg unc ld r)" using True nx by (simp add: append_new_def)
    then show ?thesis by (rule that) (use l(2,3) True in auto)
  next
    case False
    then have "append_new e idx en r = Some (idx \<noteq> last_idx (r_log r) + 1, with_log (r_log r) (r_uncommitted r) (r_leader r) r)"
      using nx by (auto simp: append_new_def)
    then show ?thesis by (rule that) (use good_refl [OF inv] idx in auto)
  qed
qed

lemma process_entries_ok:
  assumes "base_inv e r" "r_role r = FOLLOWER" "prev + i \<le> last_idx (r_log r)" "list_all (entry_fits e) ens"
    "log_end (r_log r) + length ens + 1 < 2 ^ 64"
  shows "\<exists>lp lg unc ld. process_entries e prev i (prev + i) ens r = Some (lp, with_log lg unc ld r) \<and> good e r (with_log lg unc ld r) \<and>
    lp \<le> last_idx lg \<and> last_idx lg \<le> last_idx (r_log r) + length ens"
  using assms
proof (induction ens arbitrary: r i)
  case Nil
  then show ?case using good_refl
    by (intro exI [of _ "prev + i"] exI [of _ "r_log r"] exI [of _ "r_uncommitted r"] exI [of _ "r_leader r"]) simp
next
  case (Cons en ens)
  note inv = Cons.prems(1) and rl = Cons.prems(2) and d = base_log [OF Cons.prems(1)]
  let ?idx = "prev + i + 1"
  have u: "u64_add (u64_add prev i) 1 = ?idx" using Cons.prems(3,5) d(2) by (simp add: u64_simps)
  have "1 \<le> ?idx" "?idx \<le> last_idx (r_log r) + 1" using Cons.prems(3) by simp_all
  then obtain b lg unc ld where c: "resolve_conflict ?idx en r = (b, with_log lg unc ld r)" "good e r (with_log lg unc ld r)"
    "last_idx lg \<le> last_idx (r_log r)" "b \<longrightarrow> ?idx \<le> last_idx lg + 1" "\<not> b \<longrightarrow> lg = r_log r"
    by (rule resolve_conflict_ok [OF inv rl])
  show ?case
  proof (cases b)
    case False
    then show ?thesis using c u Cons.prems(3)
      by (intro exI [of _ "prev + i"] exI [of _ lg] exI [of _ unc] exI [of _ ld]) simp
  next
    case True
    let ?r1 = "with_log lg unc ld r"
    note inv1 = good_base [OF c(2)] and d1 = base_log [OF good_base [OF c(2)]]
    have end1: "log_end lg \<le> log_end (r_log r)" using d1(2) d(2) c(3) by simp
    obtain b2 lg2 unc2 ld2 where a: "append_new e ?idx en ?r1 = Some (b2, with_log lg2 unc2 ld2 ?r1)" "good e ?r1 (with_log lg2 unc2 ld2 ?r1)"
      "last_idx (r_log ?r1) \<le> last_idx lg2" "last_idx lg2 \<le> last_idx (r_log ?r1) + 1" "b2 \<longrightarrow> ?idx \<le> last_idx lg2"
      by (rule append_new_ok [OF inv1, of ?idx en]) (use rl c(4) True Cons.prems(4,5) end1 in auto)
    have g: "good e r (with_log lg2 unc2 ld2 r)" using good_trans [OF c(2) a(2)] by simp
    show ?thesis
    proof (cases b2)
      case False
      have "prev + i \<le> last_idx lg2" using c(4) True a(3) by simp
      moreover have "last_idx lg2 \<le> last_idx (r_log r) + length (en # ens)" using a(4) c(3) by simp
      moreover have "process_entries e prev i (prev + i) (en # ens) r = Some (prev + i, with_log lg2 unc2 ld2 r)"
        using c(1) u True False a(1) by simp
      ultimately show ?thesis using g by blast
    next
      case b2: True
      let ?r2 = "with_log lg2 unc2 ld2 r"
      note inv2 = good_base [OF g]
      have "log_end lg2 \<le> log_end (r_log r) + 1" using base_log(2) [OF inv2] d(2) a(4) c(3) by simp
      then obtain lp lg3 unc3 ld3 where p: "process_entries e prev (i + 1) ?idx ens ?r2 = Some (lp, with_log lg3 unc3 ld3 ?r2)"
        "good e ?r2 (with_log lg3 unc3 ld3 ?r2)" "lp \<le> last_idx lg3" "last_idx lg3 \<le> last_idx lg2 + length ens"
        using Cons.IH [OF inv2, of "i + 1"] rl a(5) b2 Cons.prems(4,5) by auto
      have "process_entries e prev i (prev + i) (en # ens) r = Some (lp, with_log lg3 unc3 ld3 r)"
        using c(1) u True b2 a(1) p(1) by simp
      moreover have "last_idx lg3 \<le> last_idx (r_log r) + length (en # ens)" using p(4) a(4) c(3) by simp
      moreover have "good e r (with_log lg3 unc3 ld3 r)" using good_trans [OF g p(2)] by simp
      ultimately show ?thesis using p(3) by blast
    qed
  qed
qed

end
