(* ===== verification/RaftRep.thy ===== *)
theory RaftRep
  imports RaftHandle
begin

text \<open>
  The handlers of log replication and of the messages as a whole.  None of their CHECKs can fail on a message that
  passed validation, and all of them keep the invariant of a replica.
\<close>

subsection \<open>Append requests\<close>

lemma MaybeChange_promise:
  "r_role r \<noteq> LEADER \<Longrightarrow> MaybeChangeUncommittedMembershipsBasedOnLog (r\<lparr>r_promise_idx := p, r_commit_idx := c\<rparr>) =
     (MaybeChangeUncommittedMembershipsBasedOnLog (r\<lparr>r_commit_idx := c\<rparr>))\<lparr>r_promise_idx := p\<rparr>"
  by (simp add: MaybeChangeUncommittedMembershipsBasedOnLog_def Let_def split_beta HandleMembershipChange_follower)

lemma MaybeChange_keeps_promise:
  "r_role r \<noteq> LEADER \<Longrightarrow> r_promise_idx (MaybeChangeUncommittedMembershipsBasedOnLog r) = r_promise_idx r"
  by (simp add: MaybeChangeUncommittedMembershipsBasedOnLog_def Let_def split_beta HandleMembershipChange_follower)

lemma advance_follower_ok:
  assumes inv: "base_inv e r" and rl: "r_role r = FOLLOWER" and i: "c \<le> p" "p \<le> last_idx (r_log r)"
  shows "base_inv e (advance_follower c p r)" "ext r (advance_follower c p r)" "calm r (advance_follower c p r)"
    "r_log (advance_follower c p r) = r_log r"
proof -
  let ?r = "r\<lparr>r_promise_idx := max p (r_promise_idx r)\<rparr>"
  have "max p (r_promise_idx r) \<le> last_idx (r_log r)" using i(2) base_log(7) [OF inv] by simp
  note b = promise_good [OF inv max.cobounded2 this]
  have eq: "advance_follower c p r =
      (if c > r_commit_idx ?r then MaybeChangeUncommittedMembershipsBasedOnLog (?r\<lparr>r_commit_idx := c\<rparr>) else ?r)"
    using MaybeChange_promise [of r] MaybeChange_keeps_promise [of "r\<lparr>r_commit_idx := c\<rparr>"] rl
    by (auto simp: advance_follower_def Let_def max_def)
  have "c \<le> r_promise_idx ?r" using i(1) by simp
  note s = commit_step [OF b(1) this eq]
  have "calm r ?r" by (simp add: calm_def calm_role_def)
  then show "base_inv e (advance_follower c p r)" "ext r (advance_follower c p r)" "calm r (advance_follower c p r)"
    "r_log (advance_follower c p r) = r_log r"
    using s(1) ext_trans [OF b(2) s(2)] calm_trans [OF _ s(3)] s(4) by simp_all
qed

lemma follow_leader_ok:
  assumes inv: "base_inv e r"
  obtains r' where "follow_leader e t from r = Some r'" "good e r r'" "calm r r'" "r_log r' = r_log r"
    "t = r_current_term r \<longrightarrow> r_role r \<noteq> LEADER \<longrightarrow> r_role r' = FOLLOWER" "r_current_term r' = r_current_term r"
    "r_me r' = r_me r"
proof -
  have el: "\<exists>n. RandomElectionTimeout e q = Some (n, q\<lparr>r_rand := r_rand q + 1\<rparr>)" if "r_config q = r_config r" for q
    using RandomElectionTimeout_ok [of q e thesis for thesis] base_config [OF inv] that by metis
  consider "t \<noteq> r_current_term r \<or> r_role r = LEADER" | "t = r_current_term r" "r_role r = CANDIDATE"
    | "t = r_current_term r" "r_role r = FOLLOWER" by (cases "r_role r") auto
  then show thesis
  proof cases
    case 1
    then show ?thesis using that [of r] good_refl [OF inv] by (auto simp: follow_leader_def)
  next
    case 2
    then obtain n where "follow_leader e t from r =
      Some ((SetRole FOLLOWER r)\<lparr>r_rand := r_rand r + 1, r_follower := \<lparr>fs_leader = Some from, fs_election = n\<rparr>\<rparr>)"
      using el [of "SetRole FOLLOWER r"] 2 by (auto simp: follow_leader_def SetRole_def)
    then show ?thesis by (rule that [OF _ good_become_follower [OF inv]]) (simp_all add: SetRole_def calm_def calm_role_def)
  next
    case 3
    then obtain n where "follow_leader e t from r =
      Some (r\<lparr>r_rand := r_rand r + 1, r_follower := (r_follower r)\<lparr>fs_leader := Some from, fs_election := n\<rparr>\<rparr>)"
      using el [of "r\<lparr>r_follower := (r_follower r)\<lparr>fs_leader := Some from\<rparr>\<rparr>"] 3 by (auto simp: follow_leader_def)
    then show ?thesis
      by (rule that [OF _ good_trans [OF good_rand [OF inv] good_follower [OF good_base [OF good_rand [OF inv]]]]])
        (use 3 in \<open>simp_all add: calm_def calm_role_def\<close>)
  qed
qed

lemma AddSendable_calm:
  "\<lbrakk>not_grant m; r' = r \<or> r' = r\<lparr>r_sendable := r_sendable r @ [m]\<rparr>\<rbrakk> \<Longrightarrow> calm r r' \<and> r_log r' = r_log r"
  by (auto simp: calm_def calm_role_def)

lemma reply_append_ok:
  assumes inv: "base_inv e r" and from_: "from \<noteq> r_me r"
  shows "\<exists>r'. reject_append from r = Some r' \<and> good e r r' \<and> calm r r' \<and> r_log r' = r_log r"
    "\<exists>r'. accept_append from lp r = Some r' \<and> good e r r' \<and> calm r r' \<and> r_log r' = r_log r"
proof -
  let ?m = "\<lambda>a. Reply from \<lparr>rm_group = r_group r, rm_term = r_current_term r, rm_inner = AppendResponse a\<rparr>"
  have m: "sm_to (?m a) \<noteq> Some (r_me r)" "not_grant (?m a)" "as_success a \<longrightarrow> as_promise_idx a \<le> as_match_idx a \<Longrightarrow> msg_ok e (sm_message (?m a))" for a
    using from_ base_term [OF inv] by (simp_all add: Reply_def msg_ok_def not_grant_def)
  have send: "\<exists>r'. AddSendableMessage (?m a) r = Some r' \<and> good e r r' \<and> calm r r' \<and> r_log r' = r_log r"
    if "as_success a \<longrightarrow> as_promise_idx a \<le> as_match_idx a" for a
    using AddSendable_good [OF inv m(3) [OF that] m(1)] AddSendable_calm [OF m(2)] by metis
  show "\<exists>r'. reject_append from r = Some r' \<and> good e r r' \<and> calm r r' \<and> r_log r' = r_log r"
    unfolding reject_append_def by (rule send) simp
  show "\<exists>r'. accept_append from lp r = Some r' \<and> good e r r' \<and> calm r r' \<and> r_log r' = r_log r"
    unfolding accept_append_def by (rule send) simp
qed

lemma accept_entries_ok:
  assumes inv: "base_inv e r" and s: "synced r" and rl: "r_role r = FOLLOWER" and from_: "from \<noteq> r_me r"
    and prev: "prev \<le> last_idx (r_log r)" and fits: "list_all (entry_fits e) ens" and room: "log_end (r_log r) + length ens + 1 < 2 ^ 64"
    and cp: "c \<le> p"
  obtains r' where "do { (last_processed, r2) \<leftarrow> process_entries e prev 0 prev ens r;
       let leader_commit = min c last_processed;
       let leader_promise = min p last_processed;
       if leader_commit > r_commit_idx r2 \<or> leader_promise > r_promise_idx r2 then
         do { err \<leftarrow> VerifyMerkleTree e r2;
              if err \<noteq> OK then Some r2
              else do { r3 \<leftarrow> UpdateMerkleTree e (advance_follower leader_commit leader_promise r2);
                        accept_append from last_processed r3 } }
       else accept_append from last_processed r2 } = Some r'"
    "base_inv e r'" "ext r r'" "synced r'" "calm r r'" "last_idx (r_log r') \<le> last_idx (r_log r) + length ens"
proof -
  obtain lp lg unc ld where p: "process_entries e prev 0 prev ens r = Some (lp, with_log lg unc ld r)" "good e r (with_log lg unc ld r)"
    "lp \<le> last_idx lg" "last_idx lg \<le> last_idx (r_log r) + length ens"
    using process_entries_ok [OF inv rl, of prev 0 ens] prev fits room by auto
  define r2 where "r2 = with_log lg unc ld r"
  have g: "good e r r2" "base_inv e r2" "synced r2" "ext r r2" "calm r r2" "r_role r2 = FOLLOWER" "from \<noteq> r_me r2" "r_log r2 = lg"
    using p(2) s rl from_ by (simp_all add: r2_def good_def)
  show thesis
  proof (cases "min c lp > r_commit_idx r2 \<or> min p lp > r_promise_idx r2")
    case True
    let ?a = "advance_follower (min c lp) (min p lp) r2"
    have "min c lp \<le> min p lp" "min p lp \<le> last_idx (r_log r2)" using cp p(3) g(8) by auto
    note a = advance_follower_ok [OF g(2,6) this]
    obtain t where t: "UpdateMerkleTree e ?a = Some (?a\<lparr>r_merkle := t\<rparr>)" "base_inv e (?a\<lparr>r_merkle := t\<rparr>)"
      "synced (?a\<lparr>r_merkle := t\<rparr>)" "ext ?a (?a\<lparr>r_merkle := t\<rparr>)" by (rule UpdateMerkle_ok [OF a(1)])
    define r3 where "r3 = ?a\<lparr>r_merkle := t\<rparr>"
    have e3: "ext r r3" "calm r r3" "r_log r3 = lg"
      using ext_trans [OF g(4) ext_trans [OF a(2) t(4)]] calm_trans [OF g(5) calm_trans [OF a(3) calm_frame(2)]] a(4) g(8)
      by (simp_all add: r3_def)
    have "r_me r3 = r_me r" using e3(1) by (simp add: ext_def same_identity_def)
    then obtain r' where r': "accept_append from lp r3 = Some r'" "good e r3 r'" "calm r3 r'" "r_log r' = r_log r3"
      using reply_append_ok(2) [of e r3 "from" lp] t(2) from_ by (auto simp: r3_def)
    show ?thesis
      by (rule that [of r']) (use p(1,4) True VerifyMerkle_ok [OF g(2,3)] t r' e3 calm_trans [OF e3(2) r'(3)]
          ext_trans [OF e3(1)] in \<open>simp_all add: r2_def [symmetric] r3_def [symmetric] good_def\<close>)
  next
    case False
    obtain r' where r': "accept_append from lp r2 = Some r'" "good e r2 r'" "calm r2 r'" "r_log r' = r_log r2"
      using reply_append_ok(2) [OF g(2,7)] by blast
    show ?thesis
      by (rule that [of r']) (use p(1,4) False r' g(3,8) calm_trans [OF g(5) r'(3)] ext_trans [OF g(4)] in
          \<open>auto simp: r2_def [symmetric] good_def\<close>)
  qed
qed

lemma HandleAppendRequest_ok:
  assumes inv: "base_inv e r" and s: "synced r" and from_: "from \<noteq> r_me r"
    and fits: "list_all (entry_fits e) (ar_entries m)" and room: "log_end (r_log r) + length (ar_entries m) + 1 < 2 ^ 64"
    and cp: "ar_leader_commit m \<le> ar_leader_promise m"
  obtains r' where "HandleAppendRequest e t m from r = Some r'" "base_inv e r'" "ext r r'" "synced r'" "calm r r'"
    "last_idx (r_log r') \<le> last_idx (r_log r) + length (ar_entries m)"
proof (cases "t > r_current_term r \<or> t = r_current_term r \<and> r_role r = LEADER")
  case True
  then show ?thesis using that [of r] inv s by (auto simp: HandleAppendRequest_def Let_def)
next
  case False
  obtain r1 where f: "follow_leader e t from r = Some r1" "good e r r1" "calm r r1" "r_log r1 = r_log r"
    "t = r_current_term r \<longrightarrow> r_role r \<noteq> LEADER \<longrightarrow> r_role r1 = FOLLOWER" "r_current_term r1 = r_current_term r"
    "r_me r1 = r_me r" by (rule follow_leader_ok [OF inv])
  have g: "base_inv e r1" "ext r r1" "synced r1" "from \<noteq> r_me r1" using f(2,7) s from_ by (simp_all add: good_def)
  let ?prev = "ar_prev_log_idx m"
  define ok where "ok \<longleftrightarrow> ?prev = 0 \<or> Iter_Valid (r_log r) (At (r_log r) ?prev) \<and>
    ar_prev_log_term m = Iter_Term (r_log r) (At (r_log r) ?prev)"
  show ?thesis
  proof (cases "t = r_current_term r \<and> ok")
    case True
    have "?prev \<le> last_idx (r_log r1)"
      using True entry_at_le_last [OF base_log(1) [OF inv]] f(4) by (auto simp: ok_def Iter_Valid_At)
    then obtain r' where r': "do { (last_processed, r2) \<leftarrow> process_entries e ?prev 0 ?prev (ar_entries m) r1;
         let leader_commit = min (ar_leader_commit m) last_processed;
         let leader_promise = min (ar_leader_promise m) last_processed;
         if leader_commit > r_commit_idx r2 \<or> leader_promise > r_promise_idx r2 then
           do { err \<leftarrow> VerifyMerkleTree e r2;
                if err \<noteq> OK then Some r2
                else do { r3 \<leftarrow> UpdateMerkleTree e (advance_follower leader_commit leader_promise r2);
                          accept_append from last_processed r3 } }
         else accept_append from last_processed r2 } = Some r'"
      "base_inv e r'" "ext r1 r'" "synced r'" "calm r1 r'" "last_idx (r_log r') \<le> last_idx (r_log r1) + length (ar_entries m)"
      using accept_entries_ok [OF g(1,3) _ g(4) _ fits _ cp] f(4,5) True False room by auto
    have "HandleAppendRequest e t m from r = Some r'"
      using True False f(1,5,6) r'(1) unfolding HandleAppendRequest_def Let_def ok_def [symmetric] by simp
    then show ?thesis by (rule that [OF _ r'(2) ext_trans [OF g(2) r'(3)] r'(4) calm_trans [OF f(3) r'(5)]]) (use r'(6) f(4) in simp)
  next
    case no: False
    obtain r' where r': "reject_append from r1 = Some r'" "good e r1 r'" "calm r1 r'" "r_log r' = r_log r1"
      using reply_append_ok(1) [OF g(1,4)] by blast
    have "HandleAppendRequest e t m from r = Some r'"
      using no False f(1,5,6) r'(1) unfolding HandleAppendRequest_def Let_def ok_def [symmetric] by auto
    moreover have "base_inv e r'" "synced r'" "ext r1 r'" using r'(2) g(3) by (simp_all add: good_def)
    ultimately show ?thesis using that ext_trans [OF g(2)] calm_trans [OF f(3) r'(3)] r'(4) f(4) by simp
  qed
qed

subsection \<open>Append responses\<close>

lemma append_succeeded_ok:
  assumes "repl_ok l s" "as_match_idx m \<le> l" "as_promise_idx m \<le> as_match_idx m" "l < 2 ^ 64 - 1"
  shows "repl_ok l (append_succeeded m s)"
  using assms by (auto simp: repl_ok_def append_succeeded_def Let_def u64_simps split: option.splits)

lemma back_up_chunk_bounds:
  assumes "1 \<le> n" "cur \<le> n" "n < 2 ^ 64"
  shows "1 \<le> back_up_chunk sz lg m rem n cur \<and> back_up_chunk sz lg m rem n cur \<le> n"
  using assms
proof (induction sz lg m rem n cur rule: back_up_chunk.induct)
  case (1 sz lg m rem n cur)
  let ?s = "Iter_SerializedSize sz lg (At lg n)"
  show ?case
  proof (cases "cur = 2 ^ 64 - 1 \<or> cur \<le> m \<or> ?s > rem")
    case True
    then show ?thesis using 1(2) by (subst (1 2) back_up_chunk.simps) (auto simp: Let_def)
  next
    case False
    then have "u64_sub cur 1 = cur - 1" "1 \<le> cur" "cur < 2 ^ 64" using 1(3,4) by (simp_all add: u64_simps)
    then have "1 \<le> back_up_chunk sz lg m (u64_sub rem ?s) cur (cur - 1) \<and> back_up_chunk sz lg m (u64_sub rem ?s) cur (cur - 1) \<le> cur"
      using 1(1) [OF _ _ refl] False by simp
    moreover have "back_up_chunk sz lg m rem n cur = back_up_chunk sz lg m (u64_sub rem ?s) cur (cur - 1)"
      using False \<open>u64_sub cur 1 = cur - 1\<close> by (subst back_up_chunk.simps) (simp add: Let_def)
    ultimately show ?thesis using 1(3) by simp
  qed
qed

lemma append_rejected_ok:
  assumes "repl_ok l s" "as_match_idx m \<le> l" "l < 2 ^ 64 - 1"
  shows "repl_ok l (append_rejected e m r s)"
proof -
  define n where "n = max (u64_add (as_match_idx m) 1) (min (u64_sub (rs_next_idx s) 1) (u64_add (as_last_log_idx m) 1))"
  have "u64_add (as_match_idx m) 1 = as_match_idx m + 1" using assms by (simp add: u64_simps)
  moreover have "u64_sub (rs_next_idx s) 1 = rs_next_idx s - 1" using assms by (simp add: u64_simps repl_ok_def)
  ultimately have n: "1 \<le> n" "n \<le> l + 1" "n < 2 ^ 64" using assms by (auto simp: n_def repl_ok_def)
  then have "u64_sub n 1 \<le> n" using u64_sub_1_less [of n] by simp
  then have "1 \<le> rs_next_idx (append_rejected e m r s)" "rs_next_idx (append_rejected e m r s) \<le> n"
    using back_up_chunk_bounds [OF n(1) _ n(3)] by (simp_all add: append_rejected_def n_def Let_def)
  then show ?thesis using assms(1) n(2) by (simp add: repl_ok_def append_rejected_def Let_def)
qed

lemma HandleAppendResponse_ok:
  assumes inv: "base_inv e r" and i: "as_match_idx m \<le> last_idx (r_log r)" "as_success m \<longrightarrow> as_promise_idx m \<le> as_match_idx m"
    and hash: "\<And>en. entry_at (r_log r) (as_match_idx m) = Some en \<Longrightarrow> as_match_hash_chain m = le_hash_chain en"
  obtains r' where "HandleAppendResponse e t m from r = Some r'" "good e r r'" "calm r r'" "r_log r' = r_log r"
proof (cases "t = r_current_term r \<and> r_role r = LEADER \<and> get_follower r from \<noteq> None")
  case False
  then show ?thesis using that [of r] good_refl [OF inv] by (auto simp: HandleAppendResponse_def)
next
  case True
  then obtain s where s: "get_follower r from = Some s" by auto
  let ?s = "if as_success m then append_succeeded m s else append_rejected e m r s"
  have "repl_ok (last_idx (r_log r)) s" using follower_repl_ok [OF inv _ s] True by simp
  then have ok: "repl_ok (last_idx (r_log r)) ?s"
    using append_succeeded_ok append_rejected_ok i base_log(9) [OF inv] by simp
  have "HandleAppendResponse e t m from r = Some (set_follower from ?s r)"
    using True s i(1) hash by (auto simp: HandleAppendResponse_def entry_at_def [symmetric] split: option.splits)
  then show ?thesis by (rule that) (use set_follower_good [OF inv, of "from" ?s] s ok in \<open>simp_all add: set_follower_def\<close>)
qed

subsection \<open>Validation\<close>

lemma stored_entry:
  assumes "base_inv e r" "i \<noteq> 0" "oldest_stored_idx (r_log r) \<le> i" "i \<le> last_idx (r_log r)"
  obtains en where "entry_at (r_log r) i = Some en"
  using assms base_log(1,2) [OF assms(1)]
  by (auto simp: entry_at_eq oldest_stored_idx_def last_idx_eq split: if_splits)

lemma CheckLogHash_returns:
  assumes inv: "base_inv e r"
  shows "\<exists>err. CheckLogHash r i t h f = Some err"
proof (cases "i = 0 \<or> i < oldest_stored_idx (r_log r) \<or> i > last_idx (r_log r)")
  case True
  then show ?thesis by (auto simp: CheckLogHash_def Let_def)
next
  case False
  then have "i \<noteq> 0" "oldest_stored_idx (r_log r) \<le> i" "i \<le> last_idx (r_log r)" by simp_all
  then obtain en where en: "entry_at (r_log r) i = Some en" by (rule stored_entry [OF inv])
  then show ?thesis using False by (simp add: CheckLogHash_def Let_def entry_at_def [symmetric])
qed

lemma CheckLogHash_present:
  assumes "base_inv e r" "CheckLogHash r i 0 h False = Some OK"
  shows "i \<le> last_idx (r_log r)" "entry_at (r_log r) i = Some en \<Longrightarrow> h = le_hash_chain en"
  using assms(2) entry_at_0 [OF base_log(1) [OF assms(1)]]
  by (auto simp: CheckLogHash_def Let_def entry_at_def [symmetric] split: if_splits option.splits)

lemma check_entries_returns:
  assumes inv: "base_inv e r"
  shows "\<exists>err. check_entries r prev i ens = Some err"
proof (induction ens arbitrary: i)
  case (Cons en ens)
  obtain err where "CheckLogHash r (u64_add (u64_add prev i) 1) (le_term en) (le_hash_chain en) True = Some err"
    using CheckLogHash_returns [OF inv] by blast
  then show ?case using Cons by simp
qed simp

lemma Validate_returns:
  assumes inv: "base_inv e r"
  obtains err where "ValidateReceivedMessage msg from r = Some err"
proof -
  note c = CheckLogHash_returns [OF inv] and ce = check_entries_returns [OF inv]
  have "\<exists>err. ValidateReceivedMessage msg from r = Some err"
  proof (cases "rm_inner msg")
    case (AppendRequest m)
    then show ?thesis
      using c [of "ar_prev_log_idx m" "ar_prev_log_term m" "ar_prev_log_hash_chain m" True]
        ce [of "ar_prev_log_idx m" 0 "ar_entries m"] by (auto simp: ValidateReceivedMessage_def)
  next
    case (AppendResponse m)
    then show ?thesis using c [of "as_match_idx m" 0 "as_match_hash_chain m" False] by (auto simp: ValidateReceivedMessage_def)
  qed (use c in \<open>simp_all add: ValidateReceivedMessage_def\<close>)
  then show thesis using that by blast
qed

lemma Validate_sender:
  "ValidateReceivedMessage msg from r = Some OK \<Longrightarrow> from \<in> set (all_replicas (active_membership r))"
  by (simp add: ValidateReceivedMessage_def split: if_splits)

lemma Validate_append_request:
  "ValidateReceivedMessage msg from r = Some OK \<Longrightarrow> rm_inner msg = AppendRequest m \<Longrightarrow>
   ar_leader_commit m \<le> ar_leader_promise m"
  by (auto simp: ValidateReceivedMessage_def bind_eq_Some_conv split: if_splits)

lemma Validate_append_response:
  assumes inv: "base_inv e r" and v: "ValidateReceivedMessage msg from r = Some OK" and m: "rm_inner msg = AppendResponse m"
  shows "as_match_idx m \<le> last_idx (r_log r)"
    "entry_at (r_log r) (as_match_idx m) = Some en \<Longrightarrow> as_match_hash_chain m = le_hash_chain en"
proof -
  have "CheckLogHash r (as_match_idx m) 0 (as_match_hash_chain m) False = Some OK"
    using v m by (auto simp: ValidateReceivedMessage_def bind_eq_Some_conv split: if_splits)
  note CheckLogHash_present [OF inv this]
  then show "as_match_idx m \<le> last_idx (r_log r)"
    "entry_at (r_log r) (as_match_idx m) = Some en \<Longrightarrow> as_match_hash_chain m = le_hash_chain en" by simp_all
qed

end
