(* ===== verification/RaftEvents.thy ===== *)
theory RaftEvents
  imports RaftRep
begin

text \<open>
  The entry points of a replica: received messages, clock ticks, requests of the layer above, delivery of
  committed entries, and construction.  Each of them returns, keeps the invariant and the promises of the
  replica, and changes its role only as an election allows.
\<close>

subsection \<open>Campaigns\<close>

text \<open>
  \<open>own r r'\<close> are the votes that \<open>r'\<close> may still count of the campaign of \<open>r\<close>; \<open>V t\<close> are the votes for term \<open>t\<close> that a step received.
\<close>

definition own :: "raft \<Rightarrow> raft \<Rightarrow> peer_id set" where
  "own r r' = insert (r_me r)
     (if r_role r = CANDIDATE \<and> r_current_term r' = r_current_term r then set (cs_votes_granted (r_candidate r)) else {})"

definition campaigns :: "(nat \<Rightarrow> peer_id set) \<Rightarrow> raft \<Rightarrow> raft \<Rightarrow> bool" where
  "campaigns V r r' \<longleftrightarrow> (r_role r' = CANDIDATE \<longrightarrow> set (cs_votes_granted (r_candidate r')) \<subseteq> own r r' \<union> V (r_current_term r'))"

definition keeps_lead :: "raft \<Rightarrow> raft \<Rightarrow> bool" where
  "keeps_lead r r' \<longleftrightarrow> (r_role r' = LEADER \<longrightarrow> r_role r = LEADER \<and> r_current_term r' = r_current_term r)"

definition elections :: "(nat \<Rightarrow> peer_id set) \<Rightarrow> raft \<Rightarrow> raft \<Rightarrow> bool" where
  "elections V r r' \<longleftrightarrow> campaigns V r r' \<and>
     (keeps_lead r r' \<or> (\<exists>Q. Q \<subseteq> own r r' \<union> V (r_current_term r') \<and> voting_quorum (active_membership r') (r_super_majority r) Q))"

lemma calm_campaigns: "calm r r' \<Longrightarrow> campaigns V r r'" "calm r r' \<Longrightarrow> keeps_lead r r'"
  by (auto simp: calm_def calm_role_def campaigns_def keeps_lead_def own_def)

lemma calm_role_campaigns: "calm_role r r' \<Longrightarrow> campaigns V r r'" "calm_role r r' \<Longrightarrow> keeps_lead r r'"
  by (auto simp: calm_role_def campaigns_def keeps_lead_def own_def)

lemma campaigns_after_calm:
  assumes "ext r a" "calm r a" "campaigns V a b" "keeps_lead a b"
  shows "campaigns V r b" "keeps_lead r b"
  using assms by (auto simp: calm_def calm_role_def campaigns_def keeps_lead_def own_def ext_def same_identity_def split: if_splits)

lemma elections_final:
  assumes "ext r b" "campaigns V r b" "keeps_lead r b" "calm b r' \<or> elected b r'"
  shows "elections V r r'"
  using assms(4)
proof
  assume "calm b r'"
  then have "r_role r' = FOLLOWER \<or> r_role r' = r_role b \<and> r_current_term r' = r_current_term b \<and>
    cs_votes_granted (r_candidate r') = cs_votes_granted (r_candidate b)" by (simp add: calm_def calm_role_def)
  then show ?thesis using assms(2,3) by (elim disjE) (simp_all add: elections_def campaigns_def keeps_lead_def own_def)
next
  assume e: "elected b r'"
  show ?thesis
  proof (cases "r_role r' = LEADER")
    case True
    then have "set (cs_votes_granted (r_candidate b)) \<subseteq> own r r' \<union> V (r_current_term r')"
      using e assms(2) by (auto simp: elected_def campaigns_def own_def split: if_splits)
    then show ?thesis using e assms(1) True
      by (auto simp: elections_def elected_def campaigns_def ext_def same_identity_def)
  next
    case False
    then show ?thesis using e by (simp add: elections_def elected_def campaigns_def keeps_lead_def)
  qed
qed

lemma sends_no_grant: "calm b r' \<or> elected b r' \<Longrightarrow> \<exists>ms. r_sendable r' = r_sendable b @ ms \<and> list_all not_grant ms"
  by (auto simp: calm_def elected_def)

text \<open>The end that the events share: advance, update the Merkle tree and send.\<close>

lemma finish_event:
  assumes g: "base_inv e b" "synced b" "ext r b" and c: "campaigns V r b" "keeps_lead r b" "step_grants r b"
    and fits: "entry_fits e default_entry" and room: "log_end (r_log b) + 1 < 2 ^ 64"
  obtains r' where "MaybeChangeStateAndSendMessages e b = Some r'" "raft_inv e r'" "ext r r'" "elections V r r'" "step_grants r r'"
    "last_idx (r_log r') \<le> last_idx (r_log b) + 1"
proof -
  obtain r' where r': "MaybeChangeStateAndSendMessages e b = Some r'" "good e b r'" "synced r'" "calm b r' \<or> elected b r'"
    "last_idx (r_log r') \<le> last_idx (r_log b) + 1"
    by (rule MaybeChangeState_ok [OF g(1,2) fits room])
  have x: "ext b r'" "base_inv e r'" using r'(2) by (simp_all add: good_def)
  show thesis
    by (rule that [OF r'(1) _ ext_trans [OF g(3) x(1)] elections_final [OF g(3) c(1,2) r'(4)]
          step_grants_after [OF g(3) c(3) x(1) sends_no_grant [OF r'(4)]] r'(5)])
      (simp add: raft_inv_def x(2) r'(3))
qed

subsection \<open>Received messages\<close>

lemma UpdateTerm_ok:
  assumes inv: "base_inv e r" and t: "rm_term msg < 2 ^ 64"
  obtains r' where "UpdateTerm e msg r = Some r'" "good e r r'" "calm r r'" "r_log r' = r_log r" "r_me r' = r_me r"
    "r_current_term r' = max (r_current_term r) (rm_term msg)"
proof (cases "rm_term msg \<le> r_current_term r")
  case True
  then show ?thesis using that [of r] good_refl [OF inv] by (simp add: UpdateTerm_def)
next
  case False
  let ?r = "r\<lparr>r_current_term := rm_term msg\<rparr>"
  have "0 < cfg_election_ticks (r_config ?r)" using base_config [OF inv] by simp
  then obtain el where el: "RandomElectionTimeout e ?r = Some (el, ?r\<lparr>r_rand := r_rand ?r + 1\<rparr>)" by (rule RandomElectionTimeout_ok)
  have "\<exists>el q. UpdateTerm e msg r =
      Some ((SetRole FOLLOWER q)\<lparr>r_follower := \<lparr>fs_leader = None, fs_election = el\<rparr>, r_voted_for := None\<rparr>) \<and>
      (q = ?r \<or> q = ?r\<lparr>r_rand := r_rand r + 1\<rparr>)"
    using False el by (cases "r_role r") (simp_all add: UpdateTerm_def, blast+)
  then obtain el q where u: "UpdateTerm e msg r =
      Some ((SetRole FOLLOWER q)\<lparr>r_follower := \<lparr>fs_leader = None, fs_election = el\<rparr>, r_voted_for := None\<rparr>)"
    "q = ?r \<or> q = ?r\<lparr>r_rand := r_rand r + 1\<rparr>" by blast
  moreover have "?r = ?r\<lparr>r_rand := r_rand r\<rparr>" by simp
  ultimately obtain n where q: "q = r\<lparr>r_current_term := rm_term msg, r_rand := n\<rparr>" by metis
  show ?thesis
    by (rule that [OF u(1)])
      (use False inv t in \<open>simp_all add: q SetRole_def good_defs role_ok_def calm_def calm_role_def\<close>)
qed

lemma mark_seen_ok:
  assumes inv: "base_inv e r"
  shows "good e r (mark_seen from r)" "calm r (mark_seen from r)" "r_log (mark_seen from r) = r_log r"
    "r_current_term (mark_seen from r) = r_current_term r" "r_me (mark_seen from r) = r_me r"
proof -
  consider "mark_seen from r = r" | s where "get_follower r from = Some s" "r_role r = LEADER"
    "mark_seen from r = set_follower from (s\<lparr>rs_last_seen_ticks := 0\<rparr>) r"
    by (cases "r_role r = LEADER"; cases "get_follower r from") (auto simp: mark_seen_def)
  then have "good e r (mark_seen from r) \<and> calm r (mark_seen from r)"
  proof cases
    case 2
    have "repl_ok (last_idx (r_log r)) (s\<lparr>rs_last_seen_ticks := 0\<rparr>)"
      using follower_repl_ok [OF inv 2(2,1)] by (simp add: repl_ok_def)
    then show ?thesis using set_follower_good [OF inv, of "from"] 2 by simp
  qed (use good_refl [OF inv] in simp)
  then show "good e r (mark_seen from r)" "calm r (mark_seen from r)" by simp_all
  show "r_log (mark_seen from r) = r_log r" "r_current_term (mark_seen from r) = r_current_term r" "r_me (mark_seen from r) = r_me r"
    by (simp_all add: mark_seen_def set_follower_def split: option.splits)
qed

definition votes_in :: "peer_id \<Rightarrow> raft_message \<Rightarrow> nat \<Rightarrow> peer_id set" where
  "votes_in from msg t = (if rm_inner msg = VoteResponse True \<and> rm_term msg = t then {from} else {})"

definition msg_entries :: "raft_message \<Rightarrow> nat" where
  "msg_entries msg = (case rm_inner msg of AppendRequest m \<Rightarrow> length (ar_entries m) | _ \<Rightarrow> 0)"

text \<open>What a handler of a message has to achieve.\<close>

definition handles :: "raft_env \<Rightarrow> peer_id \<Rightarrow> raft_message \<Rightarrow> raft \<Rightarrow> raft \<Rightarrow> bool" where
  "handles e from msg r r' \<longleftrightarrow> base_inv e r' \<and> synced r' \<and> ext r r' \<and> campaigns (votes_in from msg) r r' \<and> keeps_lead r r' \<and>
     step_grants r r' \<and> last_idx (r_log r') \<le> last_idx (r_log r) + msg_entries msg"

lemma handles_calm:
  "\<lbrakk>base_inv e r'; synced r'; ext r r'; calm r r'; last_idx (r_log r') \<le> last_idx (r_log r) + msg_entries msg\<rbrakk> \<Longrightarrow>
   handles e from msg r r'"
  by (simp add: handles_def calm_campaigns calm_step_grants)

lemma handles_good:
  "\<lbrakk>synced r; good e r r'; calm r r'; r_log r' = r_log r\<rbrakk> \<Longrightarrow> handles e from msg r r'"
  by (simp add: handles_calm good_def)

lemma ElectionTimeout_campaigns:
  assumes "base_inv e r" "synced r" "r_current_term r + 1 < 2 ^ 64"
  obtains r' where "ElectionTimeout e r = Some r'" "good e r r'" "r_log r' = r_log r" "campaigns V r r'" "keeps_lead r r'" "step_grants r r'"
proof -
  obtain r' where r': "ElectionTimeout e r = Some r'" "good e r r'" "r_log r' = r_log r"
    "calm r r' \<or> r_role r' = CANDIDATE \<and> cs_votes_granted (r_candidate r') = [r_me r] \<and>
       r_current_term r' = r_current_term r + 1 \<and> (\<exists>ms. r_sendable r' = r_sendable r @ ms \<and> list_all not_grant ms)"
    by (rule ElectionTimeout_ok [OF assms(1,3)])
  show thesis
  proof (cases "calm r r'")
    case True
    then show ?thesis using that [OF r'(1-3)] calm_campaigns calm_step_grants by blast
  next
    case False
    then have "campaigns V r r'" "keeps_lead r r'" "step_grants r r'"
      using r'(4) by (auto simp: campaigns_def keeps_lead_def own_def step_grants_def list_all_iff)
    then show ?thesis using that [OF r'(1-3)] by blast
  qed
qed

lemma dispatch_ok:
  assumes inv: "base_inv e r" and s: "synced r" and from_: "from \<noteq> r_me r" and m: "msg_ok e msg"
    and trm: "r_current_term r + 1 < 2 ^ 64" and room: "log_end (r_log r) + msg_entries msg + 1 < 2 ^ 64"
    and areq: "\<And>a. rm_inner msg = AppendRequest a \<Longrightarrow> ar_leader_commit a \<le> ar_leader_promise a"
    and arsp: "\<And>a. rm_inner msg = AppendResponse a \<Longrightarrow> as_match_idx a \<le> last_idx (r_log r)"
      "\<And>a en. rm_inner msg = AppendResponse a \<Longrightarrow> entry_at (r_log r) (as_match_idx a) = Some en \<Longrightarrow>
         as_match_hash_chain a = le_hash_chain en"
  obtains r' where "dispatch e msg from r = Some r'" "handles e from msg r r'"
proof (cases "rm_inner msg")
  case (VoteRequest v)
  obtain r' where r': "HandleVoteRequest e (rm_term msg) v from r = Some r'" "good e r r'" "calm_role r r'" "step_grants r r'"
    "r_log r' = r_log r" "active_membership r' = active_membership r" by (rule HandleVoteRequest_ok [OF inv from_])
  then show ?thesis using that VoteRequest s calm_role_campaigns [OF r'(3)] by (simp add: dispatch_def handles_def good_def)
next
  case (VoteResponse g)
  let ?r = "HandleVoteResponse (rm_term msg) g from r"
  have h: "good e r ?r" "r_log ?r = r_log r" "r_role ?r = r_role r" "r_sendable ?r = r_sendable r" "r_current_term ?r = r_current_term r"
    by (rule HandleVoteResponse_ok [OF inv])+
  have v: "p \<in> set (cs_votes_granted (r_candidate r)) \<or> p = from \<and> g \<and> rm_term msg = r_current_term r"
    if "p \<in> set (cs_votes_granted (r_candidate ?r))" for p by (rule HandleVoteResponse_ok(6) [OF inv that])
  have "p \<in> own r ?r \<union> votes_in from msg (r_current_term ?r)" if "r_role ?r = CANDIDATE" "p \<in> set (cs_votes_granted (r_candidate ?r))" for p
    using v [OF that(2)] that(1) VoteResponse h(3,5) by (elim disjE) (simp_all add: own_def votes_in_def)
  then have "campaigns (votes_in from msg) r ?r" by (auto simp: campaigns_def)
  then have "handles e from msg r ?r" using h s by (simp add: handles_def good_def keeps_lead_def step_grants_def)
  moreover have "handles e from msg r r" using handles_good [OF s good_refl [OF inv]] by simp
  ultimately show ?thesis using that VoteResponse by (cases "ShouldDropResponseDueToStaleTerm msg r") (simp_all add: dispatch_def)
next
  case (AppendRequest a)
  have f: "list_all (entry_fits e) (ar_entries a)" "log_end (r_log r) + length (ar_entries a) + 1 < 2 ^ 64"
    using m room AppendRequest by (simp_all add: msg_ok_def msg_entries_def)
  obtain r' where r': "HandleAppendRequest e (rm_term msg) a from r = Some r'" "base_inv e r'" "ext r r'" "synced r'" "calm r r'"
    "last_idx (r_log r') \<le> last_idx (r_log r) + length (ar_entries a)"
    by (rule HandleAppendRequest_ok [OF inv s from_ f areq [OF AppendRequest]])
  then show ?thesis using that AppendRequest handles_calm [OF r'(2,4,3,5)] by (simp add: dispatch_def msg_entries_def)
next
  case (AppendResponse a)
  have "as_success a \<longrightarrow> as_promise_idx a \<le> as_match_idx a" using m AppendResponse by (simp add: msg_ok_def)
  then obtain r' where r': "HandleAppendResponse e (rm_term msg) a from r = Some r'" "good e r r'" "calm r r'" "r_log r' = r_log r"
    by (rule HandleAppendResponse_ok [OF inv arsp(1) [OF AppendResponse] _ arsp(2) [OF AppendResponse]])
  have "handles e from msg r r" using handles_good [OF s good_refl [OF inv]] by simp
  then show ?thesis using that AppendResponse r'(1) handles_good [OF s r'(2-4)]
    by (cases "ShouldDropResponseDueToStaleTerm msg r") (simp_all add: dispatch_def)
next
  case (TimeoutNow b)
  obtain r' where r': "ElectionTimeout e r = Some r'" "good e r r'" "r_log r' = r_log r" "campaigns (votes_in from msg) r r'"
    "keeps_lead r r'" "step_grants r r'" by (rule ElectionTimeout_campaigns [OF inv s trm])
  then have "handles e from msg r r'" using s by (simp add: handles_def good_def)
  moreover have "handles e from msg r r" using handles_good [OF s good_refl [OF inv]] by simp
  ultimately show ?thesis using that TimeoutNow r'(1)
    by (cases "ShouldDropResponseDueToStaleTerm msg r") (simp_all add: dispatch_def)
next
  case RM_NOT_SET
  then show ?thesis using that [of r] handles_good [OF s good_refl [OF inv]] by (simp add: dispatch_def)
qed

text \<open>What the events of a replica achieve together.\<close>

definition evolves :: "raft_env \<Rightarrow> (nat \<Rightarrow> peer_id set) \<Rightarrow> raft \<Rightarrow> raft \<Rightarrow> bool" where
  "evolves e V r r' \<longleftrightarrow> raft_inv e r' \<and> ext r r' \<and> elections V r r' \<and> step_grants r r'"

lemma Receive_ok:
  assumes inv: "raft_inv e r" and from_: "from \<noteq> r_me r" and m: "msg_ok e msg" and fits: "entry_fits e default_entry"
    and trm: "r_current_term r + 1 < 2 ^ 64" "rm_term msg + 1 < 2 ^ 64" and room: "log_end (r_log r) + msg_entries msg + 2 < 2 ^ 64"
  obtains r' where "Receive e msg from r = Some r'" "evolves e (votes_in from msg) r r'"
    "last_idx (r_log r') \<le> last_idx (r_log r) + msg_entries msg + 1"
proof -
  have b: "base_inv e r" "synced r" using inv by (simp_all add: raft_inv_def)
  obtain err where v: "ValidateReceivedMessage msg from r = Some err" by (rule Validate_returns [OF b(1)])
  show thesis
  proof (cases "err = OK")
    case False
    then show ?thesis using that [of r] v inv
      by (simp add: Receive_def evolves_def elections_def calm_campaigns calm_step_grants)
  next
    case True
    have "rm_term msg < 2 ^ 64" using m by (simp add: msg_ok_def)
    then obtain r1 where u: "UpdateTerm e msg r = Some r1" "good e r r1" "calm r r1" "r_log r1 = r_log r" "r_me r1 = r_me r"
      "r_current_term r1 = max (r_current_term r) (rm_term msg)" by (rule UpdateTerm_ok [OF b(1)])
    define r2 where "r2 = mark_seen from r1"
    note k = mark_seen_ok [OF good_base [OF u(2)]]
    have g: "good e r r2" "calm r r2" "r_log r2 = r_log r" "r_me r2 = r_me r" "r_current_term r2 + 1 < 2 ^ 64"
      using good_trans [OF u(2) k(1)] calm_trans [OF u(3) k(2)] k(3-5) u(4-6) trm by (simp_all add: r2_def)
    have x: "base_inv e r2" "ext r r2" "synced r2" using g(1) b(2) by (simp_all add: good_def)
    note vd = v [unfolded True]
    obtain r3 where d: "dispatch e msg from r2 = Some r3" "handles e from msg r2 r3"
      by (rule dispatch_ok [OF x(1,3), of "from" msg])
        (use from_ g(3-5) m room Validate_append_request [OF vd] Validate_append_response [OF b(1) vd] in auto)
    have h: "base_inv e r3" "synced r3" "ext r2 r3" "campaigns (votes_in from msg) r2 r3" "keeps_lead r2 r3" "step_grants r2 r3"
      "last_idx (r_log r3) \<le> last_idx (r_log r) + msg_entries msg" using d(2) g(3) by (simp_all add: handles_def)
    have "log_end (r_log r3) + 1 < 2 ^ 64" using base_log(2) [OF h(1)] base_log(2) [OF b(1)] h(7) room by simp
    then obtain r' where r': "MaybeChangeStateAndSendMessages e r3 = Some r'" "raft_inv e r'" "ext r r'"
      "elections (votes_in from msg) r r'" "step_grants r r'" "last_idx (r_log r') \<le> last_idx (r_log r3) + 1"
      by (rule finish_event [OF h(1,2) ext_trans [OF x(2) h(3)] campaigns_after_calm [OF x(2) g(2) h(4,5)]
            step_grants_before [OF x(2) g(2) h(3,6)] fits])
    then show ?thesis using that [of r'] vd u(1) d(1) h(7) by (simp add: Receive_def evolves_def r2_def [symmetric])
  qed
qed

subsection \<open>Ticks and requests\<close>

lemma finish_good:
  assumes inv: "raft_inv e r" and g: "good e r b" "calm r b" and l: "last_idx (r_log b) \<le> last_idx (r_log r) + 1"
    and fits: "entry_fits e default_entry" and room: "log_end (r_log r) + 2 < 2 ^ 64"
  obtains r' where "MaybeChangeStateAndSendMessages e b = Some r'" "evolves e V r r'"
proof -
  have b: "base_inv e r" "synced b" "base_inv e b" "ext r b" using inv g(1) by (simp_all add: raft_inv_def good_def)
  have "log_end (r_log b) + 1 < 2 ^ 64" using base_log(2) [OF b(1)] base_log(2) [OF b(3)] l room by simp
  then obtain r' where "MaybeChangeStateAndSendMessages e b = Some r'" "raft_inv e r'" "ext r r'" "elections V r r'" "step_grants r r'"
    "last_idx (r_log r') \<le> last_idx (r_log b) + 1"
    by (rule finish_event [OF b(3,2,4) calm_campaigns [OF g(2)] calm_step_grants [OF g(2)] fits])
  then show thesis using that by (simp add: evolves_def)
qed

lemma good_leader_ticks:
  "base_inv e r \<Longrightarrow> good e r (r\<lparr>r_leader := (r_leader r)\<lparr>ls_heartbeat := n\<rparr>\<rparr>) \<and> calm r (r\<lparr>r_leader := (r_leader r)\<lparr>ls_heartbeat := n\<rparr>\<rparr>)"
  by (simp add: good_defs calm_def calm_role_def)

lemma leader_tick_ok:
  assumes inv: "base_inv e r"
  shows "good e r (leader_tick r) \<and> calm r (leader_tick r)" "r_log (leader_tick r) = r_log r"
proof -
  have s: "repl_ok l s \<Longrightarrow> repl_ok l (tick_seen s)" "repl_ok l s \<Longrightarrow> repl_ok l (s\<lparr>rs_send_heartbeat := True\<rparr>)" for l s
    by (simp_all add: repl_ok_def tick_seen_def)
  let ?a = "map_followers tick_seen r"
  let ?b = "map_followers (\<lambda>s. s\<lparr>rs_send_heartbeat := True\<rparr>) ?a"
  note a = map_followers_good [OF inv s(1)] and b = map_followers_good [OF good_base [OF map_followers_good(1) [OF inv s(1)]] s(2)]
  have ab: "good e r ?b" "calm r ?b" using good_trans [OF a(1) b(1)] calm_trans [OF a(2) b(2)] by simp_all
  show "good e r (leader_tick r) \<and> calm r (leader_tick r)"
    using good_leader_ticks [OF good_base [OF a(1)]] good_leader_ticks [OF good_base [OF ab(1)]] good_trans [OF a(1)] good_trans [OF ab(1)]
      calm_trans [OF a(2)] calm_trans [OF ab(2)] by (simp add: leader_tick_def Let_def)
  show "r_log (leader_tick r) = r_log r" by (simp add: leader_tick_def Let_def map_followers_def)
qed

lemma good_candidate_ticks:
  "base_inv e r \<Longrightarrow> good e r (r\<lparr>r_candidate := (r_candidate r)\<lparr>cs_election := n\<rparr>\<rparr>) \<and> calm r (r\<lparr>r_candidate := (r_candidate r)\<lparr>cs_election := n\<rparr>\<rparr>)"
  by (simp add: good_defs calm_def calm_role_def)

lemma TimerTick_ok:
  assumes inv: "raft_inv e r" and fits: "entry_fits e default_entry" and trm: "r_current_term r + 1 < 2 ^ 64"
    and room: "log_end (r_log r) + 2 < 2 ^ 64"
  obtains r' where "TimerTick e r = Some r'" "evolves e V r r'"
proof -
  have b: "base_inv e r" "synced r" using inv by (simp_all add: raft_inv_def)
  have tick: "\<exists>r'. MaybeChangeStateAndSendMessages e q = Some r' \<and> evolves e V r r'"
    if "good e r q" "calm r q" "r_log q = r_log r" for q
    by (rule finish_good [OF inv that(1,2) _ fits room]) (use that(3) in auto)
  have expire: "\<exists>r1 r'. ElectionTimeout e q = Some r1 \<and> MaybeChangeStateAndSendMessages e r1 = Some r' \<and> evolves e V r r'"
    if q: "good e r q" "calm r q" "r_log q = r_log r" "r_current_term q = r_current_term r" for q
  proof -
    have x: "base_inv e q" "synced q" "ext r q" using q(1) b by (simp_all add: good_def)
    have "r_current_term q + 1 < 2 ^ 64" using q(4) trm by simp
    then obtain r1 where r1: "ElectionTimeout e q = Some r1" "good e q r1" "r_log r1 = r_log q" "campaigns V q r1" "keeps_lead q r1" "step_grants q r1"
      by (rule ElectionTimeout_campaigns [OF x(1,2)])
    have y: "base_inv e r1" "synced r1" "ext q r1" "log_end (r_log r1) + 1 < 2 ^ 64" using r1(2,3) x q(3) room by (simp_all add: good_def)
    obtain r' where "MaybeChangeStateAndSendMessages e r1 = Some r'" "raft_inv e r'" "ext r r'" "elections V r r'" "step_grants r r'"
      "last_idx (r_log r') \<le> last_idx (r_log r1) + 1"
      by (rule finish_event [OF y(1,2) ext_trans [OF x(3) y(3)] campaigns_after_calm [OF x(3) q(2) r1(4,5)]
            step_grants_before [OF x(3) q(2) y(3) r1(6)] fits y(4)])
    then show ?thesis using r1(1) by (auto simp: evolves_def)
  qed
  have "\<exists>r'. TimerTick e r = Some r' \<and> evolves e V r r'"
  proof (cases "r_role r")
    case FOLLOWER
    let ?q = "r\<lparr>r_follower := (r_follower r)\<lparr>fs_election := fs_election (r_follower r) - 1\<rparr>\<rparr>"
    have "good e r ?q" "calm r ?q" using good_follower [OF b(1)] by (simp_all add: calm_def calm_role_def)
    then show ?thesis using tick [of ?q] expire [of ?q] FOLLOWER by (auto simp: TimerTick_def Let_def)
  next
    case CANDIDATE
    let ?q = "r\<lparr>r_candidate := (r_candidate r)\<lparr>cs_election := cs_election (r_candidate r) - 1\<rparr>\<rparr>"
    have "good e r ?q" "calm r ?q" using good_candidate_ticks [OF b(1)] by simp_all
    then show ?thesis using tick [of ?q] expire [of ?q] CANDIDATE by (auto simp: TimerTick_def Let_def)
  next
    case LEADER
    then show ?thesis using tick [of "leader_tick r"] leader_tick_ok [OF b(1)] by (simp add: TimerTick_def)
  qed
  then show thesis using that by blast
qed

lemma good_calm_evolves:
  "\<lbrakk>raft_inv e r; good e r r'; calm r r'\<rbrakk> \<Longrightarrow> evolves e V r r'"
  by (simp add: evolves_def raft_inv_def good_def elections_def calm_campaigns calm_step_grants)

lemma ResetPeer_ok:
  assumes inv: "raft_inv e r" and p: "peer \<noteq> r_me r"
  obtains r' where "ResetPeer peer r = Some r'" "evolves e V r r'"
proof -
  have b: "base_inv e r" using inv by (simp add: raft_inv_def)
  note same = good_calm_evolves [OF inv good_refl [OF b] calm_refl]
  show thesis
  proof (cases "peer \<in> set (all_replicas (active_membership r)) \<and> r_role r \<noteq> FOLLOWER")
    case False
    then show ?thesis using that [OF _ same] by (auto simp: ResetPeer_def)
  next
    case True
    then consider "r_role r = CANDIDATE" | "r_role r = LEADER" "get_follower r peer = None" | s where "r_role r = LEADER" "get_follower r peer = Some s"
      by (cases "r_role r") auto
    then show ?thesis
    proof cases
      case 1
      define msg where "msg = \<lparr>rm_group = r_group r, rm_term = r_current_term r, rm_inner = VoteRequest
        \<lparr>vr_last_log_idx = last_idx (r_log r), vr_last_log_term = last_term (r_log r),
         vr_last_log_hash_chain = chain_at (r_log r) (last_idx (r_log r))\<rparr>\<rparr>"
      have rv: "RequestVoteMessage r = Some msg" using 1 by (simp add: RequestVoteMessage_def msg_def)
      have m: "msg_ok e (sm_message (Reply peer msg))" "sm_to (Reply peer msg) \<noteq> Some (r_me r)" "not_grant (Reply peer msg)"
        using p base_term [OF b] by (simp_all add: msg_def msg_ok_def Reply_def not_grant_def)
      obtain r' where r': "AddSendableMessage (Reply peer msg) r = Some r'" "good e r r'"
        "r' = r \<or> r' = r\<lparr>r_sendable := r_sendable r @ [Reply peer msg]\<rparr>" by (rule AddSendable_good [OF b m(1,2)])
      then show ?thesis using that [of r'] 1 True rv good_calm_evolves [OF inv r'(2)] AddSendable_calm [OF m(3) r'(3)]
        by (simp add: ResetPeer_def)
    next
      case 2
      then show ?thesis using that [OF _ same] True by (simp add: ResetPeer_def)
    next
      case 3
      let ?s = "s\<lparr>rs_next_idx := u64_add (last_idx (r_log r)) 1, rs_send_probe := True, rs_send_heartbeat := True, rs_inflight := None\<rparr>"
      have "repl_ok (last_idx (r_log r)) ?s"
        using follower_repl_ok [OF b 3] base_log(4) [OF b] by (simp add: repl_ok_def)
      then show ?thesis using that 3 True good_calm_evolves [OF inv] set_follower_good [OF b, of peer ?s] by (simp add: ResetPeer_def)
    qed
  qed
qed

lemma good_relinquish:
  "base_inv e r \<Longrightarrow> good e r (r\<lparr>r_leader := (r_leader r)\<lparr>ls_relinquishing := True\<rparr>\<rparr>) \<and> calm r (r\<lparr>r_leader := (r_leader r)\<lparr>ls_relinquishing := True\<rparr>\<rparr>)"
  by (simp add: good_defs calm_def calm_role_def)

lemma RelinquishLeadership_ok:
  assumes inv: "raft_inv e r" and fits: "entry_fits e default_entry" and room: "log_end (r_log r) + 2 < 2 ^ 64"
  obtains r' where "RelinquishLeadership e r = Some r'" "evolves e V r r'"
proof (cases "r_role r \<noteq> LEADER \<or> ls_relinquishing (r_leader r)")
  case True
  have "base_inv e r" using inv by (simp add: raft_inv_def)
  then show ?thesis using that [of r] True good_calm_evolves [OF inv good_refl calm_refl] by (simp add: RelinquishLeadership_def)
next
  case False
  have b: "base_inv e r" "log_end (r_log r) + 1 < 2 ^ 64" using inv room by (simp_all add: raft_inv_def)
  obtain res lg ld where c: "ClientRequestInternal e default_entry r = Some (res, r\<lparr>r_log := lg, r_leader := ld\<rparr>)"
    "good e r (r\<lparr>r_log := lg, r_leader := ld\<rparr>)" "ls_relinquishing ld = ls_relinquishing (r_leader r)"
    "last_idx lg \<le> last_idx (r_log r) + 1" by (rule noop_request_ok [OF b(1) fits b(2)])
  define q where "q = r\<lparr>r_log := lg, r_leader := ld\<rparr>"
  define q' where "q' = q\<lparr>r_leader := (r_leader q)\<lparr>ls_relinquishing := True\<rparr>\<rparr>"
  have g: "good e r q" using c(2) by (simp add: q_def)
  have "calm r q" by (simp add: q_def calm_def calm_role_def)
  then have x: "good e r q'" "calm r q'"
    using good_trans [OF g conjunct1 [OF good_relinquish [OF good_base [OF g]]]] calm_trans conjunct2 [OF good_relinquish [OF good_base [OF g]]]
    by (auto simp: q'_def)
  have "last_idx (r_log q') \<le> last_idx (r_log r) + 1" using c(4) by (simp add: q'_def q_def)
  then obtain r' where "MaybeChangeStateAndSendMessages e q' = Some r'" "evolves e V r r'"
    by (rule finish_good [OF inv x _ fits room])
  then show ?thesis using that False c(1) by (simp add: RelinquishLeadership_def q_def [symmetric] q'_def)
qed

lemma check_membership_leader:
  assumes "check_membership_request g r = OK" "Membership_FromProto g = Inr m"
  shows "r_me r \<in> set (voting_replicas m)"
  using assms by (auto simp: check_membership_request_def ValidProgressionForLeader_def Let_def split: if_splits)

lemma LogRequest_ok:
  assumes inv: "raft_inv e r" and en: "entry_fits e en" and fits: "entry_fits e default_entry" and room: "log_end (r_log r) + 2 < 2 ^ 64"
  obtains out r' where "LogRequest e en r = Some (out, r')" "evolves e V r r'"
proof -
  have b: "base_inv e r" "log_end (r_log r) + 1 < 2 ^ 64" using inv room by (simp_all add: raft_inv_def)
  define err where "err = (case le_inner en of MembershipChange g \<Rightarrow> check_membership_request g r | _ \<Rightarrow> OK)"
  show thesis
  proof (cases "err = OK")
    case False
    then show ?thesis using that [of "(default_location, err)" r] good_calm_evolves [OF inv good_refl [OF b(1)] calm_refl]
      by (simp add: LogRequest_def Let_def err_def [symmetric])
  next
    case True
    have lead: "r_me r \<in> set (voting_replicas m)" if "entry_membership en = Inr (Some m)" for m
      using that True check_membership_leader
      by (auto simp: err_def entry_membership_def split: log_inner.splits sum.splits)
    obtain loc err' lg unc ld where c:
      "ClientRequestInternal e en r = Some ((loc, err'), r\<lparr>r_log := lg, r_uncommitted := unc, r_leader := ld\<rparr>)"
      "good e r (r\<lparr>r_log := lg, r_uncommitted := unc, r_leader := ld\<rparr>)"
      "ls_relinquishing ld = ls_relinquishing (r_leader r)" "last_idx lg \<le> last_idx (r_log r) + 1"
      "entry_membership en = Inr None \<longrightarrow> unc = r_uncommitted r"
      by (rule ClientRequestInternal_ok [OF b(1) en b(2) lead])
    let ?q = "r\<lparr>r_log := lg, r_uncommitted := unc, r_leader := ld\<rparr>"
    have "calm r ?q" by (simp add: calm_def calm_role_def)
    moreover have "last_idx (r_log ?q) \<le> last_idx (r_log r) + 1" using c(4) by simp
    ultimately obtain r' where "MaybeChangeStateAndSendMessages e ?q = Some r'" "evolves e V r r'"
      by (rule finish_good [OF inv c(2) _ _ fits room])
    then show ?thesis using that True c(1) by (simp add: LogRequest_def Let_def err_def [symmetric])
  qed
qed

subsection \<open>Delivery, configuration and construction\<close>

lemma TakeCommittedLog_ok:
  assumes inv: "raft_inv e r"
  obtains "r_last_applied r = r_commit_idx r" "TakeCommittedLog r = Some ((0, default_entry), r)"
  | en where "r_last_applied r < r_commit_idx r" "entry_at (r_log r) (r_last_applied r + 1) = Some en"
      "TakeCommittedLog r = Some ((r_last_applied r + 1, en), r\<lparr>r_last_applied := r_last_applied r + 1\<rparr>)"
      "evolves e V r (r\<lparr>r_last_applied := r_last_applied r + 1\<rparr>)"
proof -
  have b: "base_inv e r" using inv by (simp add: raft_inv_def)
  note l = base_log [OF b]
  show thesis
  proof (cases "r_last_applied r < r_commit_idx r")
    case False
    then show ?thesis using that(1) l(5) by (simp add: TakeCommittedLog_def)
  next
    case True
    let ?r = "r\<lparr>r_last_applied := r_last_applied r + 1\<rparr>"
    obtain en where en: "entry_at (r_log r) (r_last_applied r + 1) = Some en"
      by (rule entry_at_present [OF base_inv_log_ok [OF b], of "r_last_applied r + 1"]) (use True l(6,7) in auto)
    have u: "u64_add (r_last_applied r) 1 = r_last_applied r + 1" using True l(6,7,9) by (simp add: u64_simps)
    have "log_ok e (r_log r) (r_last_applied r + 1) (r_commit_idx r) (r_promise_idx r)"
      using base_inv_log_ok [OF b] True by (auto simp: log_ok_def)
    then have "good e r ?r" using b by (simp add: good_defs)
    moreover have "calm r ?r" by (simp add: calm_def calm_role_def)
    ultimately have "evolves e V r ?r" by (rule good_calm_evolves [OF inv])
    then show ?thesis using that(2) True en u by (simp add: TakeCommittedLog_def Let_def entry_at_def)
  qed
qed

lemma Reconfigure_ok:
  assumes "raft_inv e r" "0 < cfg_election_ticks c" "cfg_election_ticks c < 2 ^ 32"
  shows "evolves e V r (Reconfigure c r)"
proof (rule good_calm_evolves [OF assms(1)])
  have t: "0 < nat (int (cfg_election_ticks c) mod 4294967296)" using assms(2,3) by simp
  show "good e r (Reconfigure c r)"
    using assms(1) t by (simp add: raft_inv_def good_defs Reconfigure_def set_election_timeout_def set_heartbeat_timeout_def)
  show "calm r (Reconfigure c r)"
    by (simp add: calm_def calm_role_def Reconfigure_def set_election_timeout_def set_heartbeat_timeout_def)
qed

lemma SendableMessages_ok:
  assumes "raft_inv e r"
  shows "raft_inv e (snd (SendableMessages r))" "msgs_ok e (r_me r) (fst (SendableMessages r))"
  using assms by (simp_all add: SendableMessages_def raft_inv_def base_inv_def synced_def msgs_ok_def)

end
