(* ===== verification/RaftInit.thy ===== *)
theory RaftInit
  imports RaftEvents
begin

text \<open>
  The constructor of a replica establishes the invariant: for the first member of a group, which leads at once,
  and for a replica that joins with a replicated log.
\<close>

subsection \<open>A replica that is alone sends nothing\<close>

lemma add_new_follower_sendable: "r_sendable (fold add_new_follower ps r) = r_sendable r"
  by (induction ps arbitrary: r) (simp_all add: add_new_follower_def set_follower_def)

lemma MaybeChange_sendable: "r_sendable (MaybeChangeUncommittedMembershipsBasedOnLog r) = r_sendable r"
  by (simp add: MaybeChangeUncommittedMembershipsBasedOnLog_def HandleMembershipChange_def Let_def split_beta add_new_follower_sendable)

lemma MaybeAdvance_sendable: "MaybeAdvanceCommitIndex r = Some r' \<Longrightarrow> r_sendable r' = r_sendable r"
  by (cases "r_role r = LEADER")
    (clarsimp simp: MaybeAdvanceCommitIndex_def Let_def bind_eq_Some_conv map_followers_def MaybeChange_sendable)+

lemma add_new_follower_role: "r_role (fold add_new_follower ps r) = r_role r"
  by (induction ps arbitrary: r) (simp_all add: add_new_follower_def set_follower_def)

lemma MaybeChange_role: "r_role (MaybeChangeUncommittedMembershipsBasedOnLog r) = r_role r"
  by (simp add: MaybeChangeUncommittedMembershipsBasedOnLog_def HandleMembershipChange_def Let_def split_beta add_new_follower_role)

lemma MaybeAdvance_role: "MaybeAdvanceCommitIndex r = Some r' \<Longrightarrow> r_role r' = r_role r"
  by (cases "r_role r = LEADER")
    (clarsimp simp: MaybeAdvanceCommitIndex_def Let_def bind_eq_Some_conv map_followers_def MaybeChange_role)+

lemma LogAppend_role: "LogAppend e en r = Some (x, r') \<Longrightarrow> r_role r' = r_role r"
  by (auto simp: LogAppend_def AddUncommittedMembership_def HandleMembershipChange_def add_new_follower_role Let_def bind_eq_Some_conv
      split: sum.splits option.splits if_splits)

lemma fold_set_follower_role: "r_role (fold (\<lambda>peer r. set_follower peer (f r) r) ps r) = r_role r"
  by (induction ps arbitrary: r) (simp_all add: set_follower_def)

lemma MaybeBecomeLeader_wins:
  assumes "MaybeBecomeLeader e r = Some r'" "r_role r = CANDIDATE" "membership_quorum_size r \<le> length (cs_votes_granted (r_candidate r))"
  shows "r_role r' = LEADER"
  using assms
  by (auto simp: MaybeBecomeLeader_def ClientRequestInternal_def Let_def bind_eq_Some_conv fold_set_follower_role SetRole_def
      dest: LogAppend_role split: if_splits)

definition alone :: "raft \<Rightarrow> bool" where
  "alone r \<longleftrightarrow> all_replicas (active_membership r) = [r_me r]"

lemma alone_TryToRelinquish:
  assumes "base_inv e r" "alone r"
  shows "TryToRelinquishLeadership e r = Some r"
proof -
  have "set (voting_replicas (active_membership r)) \<subseteq> {r_me r}"
    using act_mem_ok [OF base_parts(1) [OF assms(1)]] assms(2) by (auto simp: mem_ok_def membership_inv_def alone_def active_act)
  then have "find (\<lambda>p. p \<noteq> r_me r \<and> P p) (voting_replicas (active_membership r)) = None" for P by (auto simp: find_None_iff)
  then show ?thesis by (simp add: TryToRelinquishLeadership_def)
qed

lemma alone_quorum:
  assumes "base_inv e r" "alone r"
  shows "membership_quorum_size r \<le> 1"
proof -
  have m: "membership_inv (active_membership r)"
    using act_mem_ok [OF base_parts(1) [OF assms(1)]] by (simp add: mem_ok_def active_act)
  then have "card (set (voting_replicas (active_membership r))) \<le> 1"
    using assms(2) card_mono [of "{r_me r}" "set (voting_replicas (active_membership r))"] by (simp add: membership_inv_def alone_def)
  then have "length (voting_replicas (active_membership r)) \<le> 1" using m by (simp add: membership_inv_def os_inv_card)
  then show ?thesis using quorum_size_le [of "length (voting_replicas (active_membership r))" "r_super_majority r"]
    by (simp add: membership_quorum_size_def)
qed

lemma MaybeChangeState_alone:
  assumes inv: "base_inv e r" and s: "synced r" and fits: "entry_fits e default_entry" and room: "log_end (r_log r) + 1 < 2 ^ 64"
    and al: "alone r"
  obtains r' where "MaybeChangeStateAndSendMessages e r = Some r'" "raft_inv e r'" "r_sendable r' = r_sendable r" "ext r r'"
    "r_role r = CANDIDATE \<longrightarrow> cs_votes_granted (r_candidate r) = [r_me r] \<longrightarrow> r_role r' = LEADER"
    "\<exists>r1 r2 t. MaybeBecomeLeader e r = Some r1 \<and> MaybeAdvanceCommitIndex r1 = Some r2 \<and> r' = r2\<lparr>r_merkle := t\<rparr>"
proof -
  obtain r1 where r1: "MaybeBecomeLeader e r = Some r1" "good e r r1" "last_idx (r_log r1) \<le> last_idx (r_log r) + 1"
    "r1 = r \<or> r_role r = CANDIDATE \<and> r_role r1 = LEADER \<and> r_current_term r1 = r_current_term r \<and> r_sendable r1 = r_sendable r \<and>
      active_membership r1 = active_membership r \<and>
      voting_quorum (active_membership r) (r_super_majority r) (set (cs_votes_granted (r_candidate r)))"
    by (rule MaybeBecomeLeader_ok [OF inv fits room])
  have b1: "base_inv e r1" "synced r1" "ext r r1" using r1(2) s by (simp_all add: good_def)
  obtain r2 where r2: "MaybeAdvanceCommitIndex r1 = Some r2" "base_inv e r2" "ext r1 r2" "calm r1 r2"
    "active_membership r2 = active_membership r1" by (rule MaybeAdvance_ok [OF b1(1)])
  obtain t where t: "UpdateMerkleTree e r2 = Some (r2\<lparr>r_merkle := t\<rparr>)" "base_inv e (r2\<lparr>r_merkle := t\<rparr>)"
    "synced (r2\<lparr>r_merkle := t\<rparr>)" "ext r2 (r2\<lparr>r_merkle := t\<rparr>)" by (rule UpdateMerkle_ok [OF r2(2)])
  let ?r' = "r2\<lparr>r_merkle := t\<rparr>"
  have x: "ext r ?r'" by (rule ext_trans [OF b1(3) ext_trans [OF r2(3) t(4)]])
  have "active_membership ?r' = active_membership r" using r1(4) r2(5) by (auto simp: active_act)
  then have al': "alone ?r'" using al x by (simp add: alone_def ext_def same_identity_def)
  then have p: "peers ?r' = []" by (simp add: alone_def peers_def)
  have "MaybeChangeStateAndSendMessages e r = Some ?r'"
    using r1(1) VerifyMerkle_ok [OF b1(1,2)] r2(1) t(1) p alone_TryToRelinquish [OF t(2) al']
    by (simp add: MaybeChangeStateAndSendMessages_def)
  moreover have "r_sendable ?r' = r_sendable r" using r1(4) MaybeAdvance_sendable [OF r2(1)] by auto
  moreover have "r_role ?r' = LEADER" if "r_role r = CANDIDATE" "cs_votes_granted (r_candidate r) = [r_me r]"
    using MaybeBecomeLeader_wins [OF r1(1) that(1)] that(2) alone_quorum [OF inv al] MaybeAdvance_role [OF r2(1)] by simp
  moreover have "\<exists>r1 r2 t. MaybeBecomeLeader e r = Some r1 \<and> MaybeAdvanceCommitIndex r1 = Some r2 \<and> ?r' = r2\<lparr>r_merkle := t\<rparr>"
    using r1(1) r2(1) by blast
  ultimately show thesis using that [of ?r'] t(2,3) x by (simp add: raft_inv_def)
qed

subsection \<open>The constructor\<close>

lemma UpdateMerkle_fresh:
  assumes tr: "pend (env_H e) (r_merkle r) {r_commit_leaf r, r_promise_leaf r}" "r_commit_leaf r \<noteq> r_promise_leaf r"
    and lg: "log_inv (env_sizes e) (r_log r)"
  obtains t where "UpdateMerkleTree e r = Some (r\<lparr>r_merkle := t\<rparr>)" "tree_ok e t (r_commit_leaf r) (r_promise_leaf r)"
    "synced (r\<lparr>r_merkle := t\<rparr>)"
proof -
  let ?hc = "log_hash (r_log r) (r_commit_idx r)" and ?hp = "log_hash (r_log r) (r_promise_idx r)"
  have l: "leaf_hash (r_merkle r) (r_commit_leaf r) \<noteq> None" "leaf_hash (r_merkle r) (r_promise_leaf r) \<noteq> None"
    using tr(1) by (auto simp: pend_def)
  obtain t1 where t1: "Leaf_Update (env_H e) (r_commit_leaf r) ?hc (r_merkle r) = Some t1" "pend (env_H e) t1 {r_promise_leaf r}"
    "leaf_hash t1 = (leaf_hash (r_merkle r))(r_commit_leaf r \<mapsto> ?hc)"
    using Leaf_Update_pend [OF tr(1) l(1)] tr(2) by (auto simp: insert_Diff_if)
  then have "leaf_hash t1 (r_promise_leaf r) \<noteq> None" using l(2) by simp
  then obtain t2 where t2: "Leaf_Update (env_H e) (r_promise_leaf r) ?hp t1 = Some t2" "pend (env_H e) t2 {}"
    "leaf_hash t2 = (leaf_hash t1)(r_promise_leaf r \<mapsto> ?hp)" using Leaf_Update_pend [OF t1(2)] by fastforce
  have "UpdateMerkleTree e r = Some (r\<lparr>r_merkle := t2\<rparr>)"
    using t1(1) t2(1) by (simp add: UpdateMerkleTree_def MerkleHash_log_hash [OF lg])
  then show thesis by (rule that) (use t1(3) t2(2,3) tr(2) in \<open>simp_all add: tree_ok_def synced_def tree_sync_def\<close>)
qed

text \<open>What the constructor relies on: its log is empty, or all of it is committed.\<close>

definition fresh_ok :: "raft_env \<Rightarrow> membership \<Rightarrow> raft_log \<Rightarrow> raft_config \<Rightarrow> bool \<Rightarrow> nat \<Rightarrow> bool" where
  "fresh_ok e mem lg config committed_log super_majority \<longleftrightarrow> mem_ok mem \<and> 0 < cfg_election_ticks config \<and> super_majority < 2 ^ 32 \<and>
     (let start = (if committed_log then last_idx lg else 0) in log_ok e lg start start start) \<and> (committed_log \<or> log_entries lg = [])"

text \<open>A replica that has not taken part in any vote.\<close>

definition newborn :: "peer_id \<Rightarrow> nat \<Rightarrow> raft \<Rightarrow> bool" where
  "newborn me s r \<longleftrightarrow> r_me r = me \<and> r_super_majority r = s \<and> r_role r = FOLLOWER \<and> r_current_term r = 0 \<and> r_voted_for r = None \<and> r_sendable r = []"

lemma fresh_replica:
  assumes f: "fresh_ok e mem lg config committed_log super_majority" and t: "pend (env_H e) t {}"
  obtains cl pl t1 t2 el r where "Leaf_new t = Some (cl, t1)" "Leaf_new t1 = Some (pl, t2)"
    "RandomElectionTimeout e (SetRole FOLLOWER (fresh_raft grp me t2 cl pl mem lg config committed_log super_majority rnd)) = Some (el, r)"
    "\<exists>r'. UpdateMerkleTree e (r\<lparr>r_follower := (r_follower r)\<lparr>fs_election := el\<rparr>\<rparr>) = Some r' \<and> raft_inv e r' \<and> newborn me super_majority r' \<and>
      r_log r' = lg \<and> active_membership r' = mem"
proof -
  obtain cl t1 where t1: "Leaf_new t = Some (cl, t1)" "pend (env_H e) t1 {cl}" "leaf_hash t1 = (leaf_hash t)(cl \<mapsto> zero_hash)"
    using Leaf_new_pend [OF t] by auto
  obtain pl t2 where t2: "Leaf_new t1 = Some (pl, t2)" "pend (env_H e) t2 {pl, cl}" "leaf_hash t1 pl = None"
    using Leaf_new_pend [OF t1(2)] by auto
  have ne: "cl \<noteq> pl" using t1(3) t2(3) by auto
  let ?start = "if committed_log then last_idx lg else 0"
  define f where "f = SetRole FOLLOWER (fresh_raft grp me t2 cl pl mem lg config committed_log super_majority rnd)"
  have "0 < cfg_election_ticks (r_config f)" using f by (simp add: f_def fresh_ok_def fresh_raft_def SetRole_def Let_def)
  then obtain el where el: "RandomElectionTimeout e f = Some (el, f\<lparr>r_rand := r_rand f + 1\<rparr>)" by (rule RandomElectionTimeout_ok)
  define q where "q = f\<lparr>r_rand := r_rand f + 1, r_follower := (r_follower f)\<lparr>fs_election := el\<rparr>\<rparr>"
  have q: "r_merkle q = t2" "r_commit_leaf q = cl" "r_promise_leaf q = pl" "r_log q = lg" "r_commit_idx q = ?start" "r_promise_idx q = ?start"
    "r_last_applied q = ?start" "r_membership q = mem" "r_uncommitted q = []" "r_role q = FOLLOWER" "r_sendable q = []" "r_config q = config"
    "r_super_majority q = super_majority" "r_current_term q = 0" "r_me q = me" "r_voted_for q = None"
    by (simp_all add: q_def f_def fresh_raft_def SetRole_def Let_def)
  have lg: "log_ok e lg ?start ?start ?start" using f by (simp add: fresh_ok_def Let_def)
  have "unc_ok lg ?start mem []"
    using f log_okD(1) [OF lg] change_past_last [OF log_okD(1) [OF lg]]
    by (auto simp: unc_ok_def fresh_ok_def change_at_def entry_at_eq log_end_def)
  moreover obtain t' where t': "UpdateMerkleTree e q = Some (q\<lparr>r_merkle := t'\<rparr>)" "tree_ok e t' (r_commit_leaf q) (r_promise_leaf q)"
    "synced (q\<lparr>r_merkle := t'\<rparr>)"
    by (rule UpdateMerkle_fresh [of e q]) (use q t2(2) ne log_okD(1) [OF lg] in \<open>simp_all add: insert_commute\<close>)
  ultimately have "raft_inv e (q\<lparr>r_merkle := t'\<rparr>)"
    using q f lg by (simp add: raft_inv_def base_inv_def role_ok_def msgs_ok_def fresh_ok_def)
  then have "\<exists>r'. UpdateMerkleTree e q = Some r' \<and> raft_inv e r' \<and> newborn me super_majority r' \<and>
      r_log r' = lg \<and> active_membership r' = mem"
    using t'(1) q by (simp add: active_act act_def newborn_def)
  then show thesis using that [OF t1(1) t2(1) el [unfolded f_def]] by (simp add: q_def f_def)
qed

lemma Raft_new_joining:
  assumes f: "fresh_ok e mem lg config committed_log super_majority" and t: "pend (env_H e) t {}" and m: "me \<notin> set (voting_replicas mem)"
  obtains r where "Raft_new e grp me t mem lg config committed_log super_majority rnd = Some r" "raft_inv e r"
    "newborn me super_majority r"
proof -
  obtain cl pl t1 t2 el q where n: "Leaf_new t = Some (cl, t1)" "Leaf_new t1 = Some (pl, t2)"
    "RandomElectionTimeout e (SetRole FOLLOWER (fresh_raft grp me t2 cl pl mem lg config committed_log super_majority rnd)) = Some (el, q)"
    "\<exists>r'. UpdateMerkleTree e (q\<lparr>r_follower := (r_follower q)\<lparr>fs_election := el\<rparr>\<rparr>) = Some r' \<and> raft_inv e r' \<and> newborn me super_majority r' \<and>
      r_log r' = lg \<and> active_membership r' = mem"
    by (rule fresh_replica [OF f t])
  then obtain r where "UpdateMerkleTree e (q\<lparr>r_follower := (r_follower q)\<lparr>fs_election := el\<rparr>\<rparr>) = Some r" "raft_inv e r"
    "active_membership r = mem" "newborn me super_majority r" by blast
  then show thesis using that [of r] n(1-3) m by (simp add: Raft_new_def Let_def voting_def newborn_def)
qed

lemma ElectionTimeout_alone:
  assumes "base_inv e r" "voting r" "r_role r \<noteq> LEADER" "alone r" "ElectionTimeout e r = Some r'"
  shows "r_role r' = CANDIDATE \<and> cs_votes_granted (r_candidate r') = [r_me r'] \<and> r_sendable r' = r_sendable r \<and> alone r'"
proof -
  let ?r = "SetRole CANDIDATE (r\<lparr>r_current_term := u64_add (r_current_term r) 1, r_voted_for := Some (r_me r)\<rparr>)"
  have "0 < cfg_election_ticks (r_config ?r)" using base_config [OF assms(1)] by (simp add: SetRole_def)
  then obtain el where el: "RandomElectionTimeout e ?r = Some (el, ?r\<lparr>r_rand := r_rand ?r + 1\<rparr>)" by (rule RandomElectionTimeout_ok)
  let ?q = "?r\<lparr>r_rand := r_rand ?r + 1, r_candidate := \<lparr>cs_votes_granted = [r_me r], cs_election = el\<rparr>\<rparr>"
  have al: "all_replicas (active_membership ?q) = [r_me ?q]" using assms(4) by (simp add: alone_def active_act SetRole_def)
  have "Some r' = Some ?q"
    using assms(2,3,5) el al by (auto simp: ElectionTimeout_def RequestVoteMessage_def AddSendableMessage_def Broadcast_def SetRole_def)
  then show ?thesis using al by (simp add: alone_def SetRole_def)
qed

lemma Raft_new_first:
  assumes f: "fresh_ok e (Membership_First me) (Log_init mx) config False super_majority" and t: "pend (env_H e) t {}"
    and fits: "entry_fits e default_entry"
  obtains r where "Raft_new e grp me t (Membership_First me) (Log_init mx) config False super_majority rnd = Some r" "raft_inv e r"
    "r_role r = LEADER" "r_sendable r = []" "\<exists>a. raft_inv e a \<and> newborn me super_majority a \<and> evolves e (\<lambda>t. {}) a r"
proof -
  let ?mem = "Membership_First me" and ?lg = "Log_init mx"
  obtain cl pl t1 t2 el q where n: "Leaf_new t = Some (cl, t1)" "Leaf_new t1 = Some (pl, t2)"
    "RandomElectionTimeout e (SetRole FOLLOWER (fresh_raft grp me t2 cl pl ?mem ?lg config False super_majority rnd)) = Some (el, q)"
    "\<exists>r'. UpdateMerkleTree e (q\<lparr>r_follower := (r_follower q)\<lparr>fs_election := el\<rparr>\<rparr>) = Some r' \<and> raft_inv e r' \<and> newborn me super_majority r' \<and>
      r_log r' = ?lg \<and> active_membership r' = ?mem"
    by (rule fresh_replica [OF f t])
  then obtain a where a: "UpdateMerkleTree e (q\<lparr>r_follower := (r_follower q)\<lparr>fs_election := el\<rparr>\<rparr>) = Some a" "raft_inv e a"
    "r_log a = ?lg" "active_membership a = ?mem" "newborn me super_majority a" by blast
  note nb = a(5) [unfolded newborn_def]
  have v: "voting a" "length (voting_replicas (active_membership a)) = 1" "alone a"
    using a(4) nb by (simp_all add: voting_def alone_def Membership_First_def)
  have ba: "base_inv e a" "synced a" "r_current_term a + 1 < 2 ^ 64" using a(2) nb by (simp_all add: raft_inv_def)
  obtain b where b: "ElectionTimeout e a = Some b" "good e a b" "r_log b = r_log a" "campaigns (\<lambda>t. {}) a b" "keeps_lead a b" "step_grants a b"
    by (rule ElectionTimeout_campaigns [OF ba])
  have c: "r_role b = CANDIDATE \<and> cs_votes_granted (r_candidate b) = [r_me b] \<and> r_sendable b = [] \<and> alone b"
    using ElectionTimeout_alone [OF ba(1) v(1) _ v(3) b(1)] nb by simp
  have bb: "base_inv e b" "synced b" "log_end (r_log b) + 1 < 2 ^ 64"
    "ext a b" using b(2,3) ba(2) a(3) by (simp_all add: good_def log_end_def Log_init_def)
  obtain r where r: "MaybeChangeStateAndSendMessages e b = Some r" "raft_inv e r" "r_sendable r = r_sendable b" "ext b r"
    "r_role b = CANDIDATE \<longrightarrow> cs_votes_granted (r_candidate b) = [r_me b] \<longrightarrow> r_role r = LEADER"
    by (rule MaybeChangeState_alone [OF bb(1,2) fits bb(3)]) (use c in simp)
  have "Raft_new e grp me t ?mem ?lg config False super_majority rnd = Some r"
    using n(1-3) a(1) v b(1) r(1,3) c by (simp add: Raft_new_def Let_def)
  moreover have "evolves e (\<lambda>t. {}) a r"
    by (rule finish_event [OF bb(1,2,4) b(4-6) fits bb(3)]) (use r(1) in \<open>simp add: evolves_def\<close>)
  moreover have "r_role r = LEADER" "r_sendable r = []" using r(3,5) c by simp_all
  ultimately show thesis using that [OF _ r(2)] a(2,5) by metis
qed

end
