(* ===== verification/RaftCluster.thy ===== *)
theory RaftCluster
  imports RaftInit
begin

text \<open>
  Replicas as event-driven machines, and groups of them over a network that may delay, duplicate, reorder and drop
  messages: the network only grows, and every message in it may be delivered any number of times.
  A replica that restarts has a new identity, as the enclave's key and with it its peer id is ephemeral.
\<close>

subsection \<open>Events of a replica\<close>

datatype raft_event =
  EvReceive raft_message peer_id | EvTick | EvReset peer_id | EvRelinquish | EvLog log_entry | EvTake | EvReconfigure raft_config

fun run_event :: "raft_env \<Rightarrow> raft_event \<Rightarrow> raft \<Rightarrow> raft option" where
  "run_event e (EvReceive msg p) r = Receive e msg p r"
| "run_event e EvTick r = TimerTick e r"
| "run_event e (EvReset p) r = ResetPeer p r"
| "run_event e EvRelinquish r = RelinquishLeadership e r"
| "run_event e (EvLog en) r = map_option snd (LogRequest e en r)"
| "run_event e EvTake r = map_option snd (TakeCommittedLog r)"
| "run_event e (EvReconfigure c) r = Some (Reconfigure c r)"

text \<open>
  Sizes and counters that stay in range: a log index or a term that wraps around at 64 bits, an entry of
  \<open>2^62\<close> bytes, or an election timeout of no ticks.  Everything else in a message is arbitrary but for the clauses of
  \<^const>\<open>msg_ok\<close>, which hold of all messages that replicas send.
\<close>

definition roomy :: "raft_event \<Rightarrow> raft \<Rightarrow> bool" where
  "roomy ev r \<longleftrightarrow> r_current_term r + 1 < 2 ^ 64 \<and>
     log_end (r_log r) + (case ev of EvReceive msg p \<Rightarrow> msg_entries msg | _ \<Rightarrow> 0) + 2 < 2 ^ 64 \<and>
     (case ev of EvReceive msg p \<Rightarrow> rm_term msg + 1 < 2 ^ 64 | _ \<Rightarrow> True)"

fun input_ok :: "raft_env \<Rightarrow> raft_event \<Rightarrow> raft \<Rightarrow> bool" where
  "input_ok e (EvReceive msg p) r \<longleftrightarrow> p \<noteq> r_me r \<and> msg_ok e msg"
| "input_ok e (EvReset p) r \<longleftrightarrow> p \<noteq> r_me r"
| "input_ok e (EvLog en) r \<longleftrightarrow> entry_fits e en"
| "input_ok e (EvReconfigure c) r \<longleftrightarrow> 0 < cfg_election_ticks c \<and> cfg_election_ticks c < 2 ^ 32"
| "input_ok e _ r \<longleftrightarrow> True"

definition event_ok :: "raft_env \<Rightarrow> raft_event \<Rightarrow> raft \<Rightarrow> bool" where
  "event_ok e ev r \<longleftrightarrow> entry_fits e default_entry \<and> roomy ev r \<and> input_ok e ev r"

definition event_votes :: "raft_event \<Rightarrow> nat \<Rightarrow> peer_id set" where
  "event_votes ev = (case ev of EvReceive msg p \<Rightarrow> votes_in p msg | _ \<Rightarrow> (\<lambda>t. {}))"

lemma run_event_evolves:
  assumes inv: "raft_inv e r" and ok: "event_ok e ev r"
  obtains r' where "run_event e ev r = Some r'" "evolves e (event_votes ev) r r'"
proof (cases ev)
  case (EvReceive msg p)
  then have "p \<noteq> r_me r" "msg_ok e msg" "entry_fits e default_entry" "r_current_term r + 1 < 2 ^ 64" "rm_term msg + 1 < 2 ^ 64"
    "log_end (r_log r) + msg_entries msg + 2 < 2 ^ 64" using ok by (simp_all add: event_ok_def roomy_def)
  then obtain r' where "Receive e msg p r = Some r'" "evolves e (votes_in p msg) r r'"
    by (rule Receive_ok [OF inv])
  then show ?thesis using that EvReceive by (simp add: event_votes_def)
next
  case EvTick
  then have "entry_fits e default_entry" "r_current_term r + 1 < 2 ^ 64" "log_end (r_log r) + 2 < 2 ^ 64"
    using ok by (simp_all add: event_ok_def roomy_def)
  then obtain r' where "TimerTick e r = Some r'" "evolves e (\<lambda>t. {}) r r'" by (rule TimerTick_ok [OF inv])
  then show ?thesis using that EvTick by (simp add: event_votes_def)
next
  case (EvReset p)
  then have "p \<noteq> r_me r" using ok by (simp add: event_ok_def)
  then obtain r' where "ResetPeer p r = Some r'" "evolves e (\<lambda>t. {}) r r'" by (rule ResetPeer_ok [OF inv])
  then show ?thesis using that EvReset by (simp add: event_votes_def)
next
  case EvRelinquish
  then have "entry_fits e default_entry" "log_end (r_log r) + 2 < 2 ^ 64" using ok by (simp_all add: event_ok_def roomy_def)
  then obtain r' where "RelinquishLeadership e r = Some r'" "evolves e (\<lambda>t. {}) r r'" by (rule RelinquishLeadership_ok [OF inv])
  then show ?thesis using that EvRelinquish by (simp add: event_votes_def)
next
  case (EvLog en)
  then have "entry_fits e en" "entry_fits e default_entry" "log_end (r_log r) + 2 < 2 ^ 64" using ok by (simp_all add: event_ok_def roomy_def)
  then obtain out r' where "LogRequest e en r = Some (out, r')" "evolves e (\<lambda>t. {}) r r'" by (rule LogRequest_ok [OF inv])
  then show ?thesis using that EvLog by (simp add: event_votes_def)
next
  case EvTake
  have "base_inv e r" using inv by (simp add: raft_inv_def)
  note same = good_calm_evolves [OF inv good_refl [OF this] calm_refl]
  show ?thesis by (rule TakeCommittedLog_ok [OF inv]) (use that EvTake same in \<open>simp_all add: event_votes_def\<close>)
next
  case (EvReconfigure c)
  then show ?thesis using that ok Reconfigure_ok [OF inv] by (simp add: event_ok_def)
qed

subsection \<open>Groups of replicas\<close>

text \<open>
  \<open>c_ballots\<close> and \<open>c_elected\<close> record history that no replica reads: the votes cast (voter, term, candidate)
  and the elections won (term, leader, membership by which it counted its votes).
\<close>

record cluster =
  c_nodes :: "peer_id \<Rightarrow> raft option"
  c_net :: "(peer_id \<times> sendable_message) set"
  c_ballots :: "(peer_id \<times> nat \<times> peer_id) set"
  c_elected :: "(nat \<times> peer_id \<times> membership) set"

definition no_cluster :: cluster where
  "no_cluster = \<lparr>c_nodes = Map.empty, c_net = {}, c_ballots = {}, c_elected = {}\<rparr>"

definition cast :: "peer_id \<Rightarrow> raft \<Rightarrow> (peer_id \<times> nat \<times> peer_id) set" where
  "cast n r = {b. \<exists>v. r_voted_for r = Some v \<and> b = (n, r_current_term r, v)} \<union>
     {b. \<exists>m v. m \<in> set (r_sendable r) \<and> \<not> not_grant m \<and> sm_to m = Some v \<and> b = (n, rm_term (sm_message m), v)}"

definition won :: "peer_id \<Rightarrow> raft option \<Rightarrow> raft \<Rightarrow> (nat \<times> peer_id \<times> membership) set" where
  "won n before r = (if r_role r = LEADER \<and> (\<forall>q. before = Some q \<longrightarrow> \<not> keeps_lead q r)
     then {(r_current_term r, n, active_membership r)} else {})"

definition place :: "peer_id \<Rightarrow> raft \<Rightarrow> cluster \<Rightarrow> cluster" where
  "place n r c = c\<lparr>c_nodes := (c_nodes c)(n \<mapsto> r), c_ballots := c_ballots c \<union> cast n r, c_elected := c_elected c \<union> won n (c_nodes c n) r\<rparr>"

definition delivered :: "cluster \<Rightarrow> peer_id \<Rightarrow> raft_event \<Rightarrow> bool" where
  "delivered c n ev = (case ev of
       EvReceive msg p \<Rightarrow> p \<noteq> n \<and> (\<exists>m. (p, m) \<in> c_net c \<and> sm_message m = msg \<and> (sm_to m = None \<or> sm_to m = Some n))
     | _ \<Rightarrow> True)"

text \<open>Local inputs are within bounds; of messages only delivery is asked.\<close>

definition local_ok :: "raft_env \<Rightarrow> raft_event \<Rightarrow> raft \<Rightarrow> bool" where
  "local_ok e ev r = (case ev of EvReceive msg p \<Rightarrow> True | _ \<Rightarrow> input_ok e ev r)"

text \<open>How a replica enters: as the first member of a group, or with the replicated log of a group that it is not a voting member of.\<close>

definition joins :: "raft_env \<Rightarrow> nat \<Rightarrow> peer_id \<Rightarrow> raft \<Rightarrow> bool" where
  "joins e s n r \<longleftrightarrow> (\<exists>grp t mem lg config committed rnd. Raft_new e grp n t mem lg config committed s rnd = Some r \<and>
     pend (env_H e) t {} \<and> fresh_ok e mem lg config committed s \<and>
     (n \<notin> set (voting_replicas mem) \<or> mem = Membership_First n \<and> committed = False \<and> (\<exists>mx. lg = Log_init mx)))"

inductive cluster_step :: "raft_env \<Rightarrow> nat \<Rightarrow> cluster \<Rightarrow> cluster \<Rightarrow> bool" for e s where
  join: "\<lbrakk>c_nodes c n = None; joins e s n r\<rbrakk> \<Longrightarrow> cluster_step e s c (place n r c)"
| event: "\<lbrakk>c_nodes c n = Some r; delivered c n ev; local_ok e ev r; roomy ev r; run_event e ev r = Some r'\<rbrakk> \<Longrightarrow>
    cluster_step e s c (place n r' c)"
| send: "\<lbrakk>c_nodes c n = Some r; SendableMessages r = (ms, r')\<rbrakk> \<Longrightarrow>
    cluster_step e s c (c\<lparr>c_nodes := (c_nodes c)(n \<mapsto> r'), c_net := c_net c \<union> {n} \<times> set ms\<rparr>)"

inductive cluster_reach :: "raft_env \<Rightarrow> nat \<Rightarrow> cluster \<Rightarrow> bool" for e s where
  start: "cluster_reach e s no_cluster"
| step: "\<lbrakk>cluster_reach e s c; cluster_step e s c c'\<rbrakk> \<Longrightarrow> cluster_reach e s c'"


subsection \<open>What holds of every group\<close>

definition ballots_ok :: "cluster \<Rightarrow> bool" where
  "ballots_ok c \<longleftrightarrow>
     (\<forall>p t v w. (p, t, v) \<in> c_ballots c \<and> (p, t, w) \<in> c_ballots c \<longrightarrow> v = w) \<and>
     (\<forall>p t v. (p, t, v) \<in> c_ballots c \<longrightarrow> (\<exists>r. c_nodes c p = Some r \<and> t \<le> r_current_term r \<and> (t = r_current_term r \<longrightarrow> r_voted_for r = Some v))) \<and>
     (\<forall>p r. c_nodes c p = Some r \<longrightarrow> cast p r \<subseteq> c_ballots c)"

definition net_ok :: "raft_env \<Rightarrow> cluster \<Rightarrow> bool" where
  "net_ok e c \<longleftrightarrow> (\<forall>p m. (p, m) \<in> c_net c \<longrightarrow> msg_ok e (sm_message m) \<and>
     (\<not> not_grant m \<longrightarrow> (\<exists>v. sm_to m = Some v \<and> (p, rm_term (sm_message m), v) \<in> c_ballots c)))"

definition queue_ok :: "raft \<Rightarrow> bool" where
  "queue_ok r \<longleftrightarrow> (\<forall>m \<in> set (r_sendable r). \<not> not_grant m \<longrightarrow> sm_to m \<noteq> None)"

definition node_ok :: "raft_env \<Rightarrow> nat \<Rightarrow> cluster \<Rightarrow> peer_id \<Rightarrow> raft \<Rightarrow> bool" where
  "node_ok e s c n r \<longleftrightarrow> raft_inv e r \<and> r_me r = n \<and> r_super_majority r = s \<and> queue_ok r \<and>
     (r_role r = CANDIDATE \<longrightarrow> (\<forall>p \<in> set (cs_votes_granted (r_candidate r)). (p, r_current_term r, n) \<in> c_ballots c)) \<and>
     (r_role r = LEADER \<longrightarrow> (\<exists>M. (r_current_term r, n, M) \<in> c_elected c))"

definition elected_ok :: "nat \<Rightarrow> cluster \<Rightarrow> bool" where
  "elected_ok s c \<longleftrightarrow> (\<forall>t n M. (t, n, M) \<in> c_elected c \<longrightarrow> (\<exists>Q. voting_quorum M s Q \<and> (\<forall>p \<in> Q. (p, t, n) \<in> c_ballots c)))"

definition cluster_inv :: "raft_env \<Rightarrow> nat \<Rightarrow> cluster \<Rightarrow> bool" where
  "cluster_inv e s c \<longleftrightarrow> ballots_ok c \<and> net_ok e c \<and> elected_ok s c \<and> (\<forall>n r. c_nodes c n = Some r \<longrightarrow> node_ok e s c n r)"

lemma node_ok_mono:
  "\<lbrakk>node_ok e s c n r; c_ballots c \<subseteq> c_ballots c'; c_elected c \<subseteq> c_elected c'\<rbrakk> \<Longrightarrow> node_ok e s c' n r"
  unfolding node_ok_def by blast

lemma cast_subset:
  assumes "(n, t, v) \<in> cast n r'" "ext r r'" "step_grants r r'"
  shows "(n, t, v) \<in> cast n r \<or> r_current_term r \<le> t \<and> t \<le> r_current_term r' \<and>
    (t = r_current_term r \<longrightarrow> r_voted_for r = None \<or> r_voted_for r = Some v) \<and> (t = r_current_term r' \<longrightarrow> r_voted_for r' = Some v)"
proof -
  obtain ms where ms: "r_sendable r' = r_sendable r @ ms" "\<forall>m \<in> set ms. \<not> not_grant m \<longrightarrow> granted r r' m"
    using assms(3) by (auto simp: step_grants_def)
  have "t = r_current_term r' \<and> r_voted_for r' = Some v \<or>
    (\<exists>m \<in> set (r_sendable r'). \<not> not_grant m \<and> sm_to m = Some v \<and> t = rm_term (sm_message m))"
    using assms(1) by (auto simp: cast_def)
  then show ?thesis
  proof
    assume "t = r_current_term r' \<and> r_voted_for r' = Some v"
    then show ?thesis using ext_term_vote [OF assms(2)] by (metis order_refl)
  next
    assume "\<exists>m \<in> set (r_sendable r'). \<not> not_grant m \<and> sm_to m = Some v \<and> t = rm_term (sm_message m)"
    then obtain m where m: "m \<in> set (r_sendable r) \<or> m \<in> set ms" "\<not> not_grant m" "sm_to m = Some v" "t = rm_term (sm_message m)"
      using ms(1) by auto
    show ?thesis
    proof (cases "m \<in> set (r_sendable r)")
      case True
      then show ?thesis using m(2-4) by (auto simp: cast_def)
    next
      case False
      then have "granted r r' m" using m(1,2) ms(2) by blast
      then show ?thesis using m(3,4) by (auto simp: granted_def)
    qed
  qed
qed

lemma cast_unique:
  assumes "(n, t, v) \<in> cast n r'" "(n, t, w) \<in> cast n r'" "(n, t, v) \<notin> cast n r" "(n, t, w) \<notin> cast n r" "ext r r'" "step_grants r r'"
  shows "v = w"
proof (cases "t = r_current_term r'")
  case True
  then show ?thesis using cast_subset [OF assms(1,5,6)] cast_subset [OF assms(2,5,6)] assms(3,4) by simp
next
  case False
  obtain ms where ms: "r_sendable r' = r_sendable r @ ms"
    "\<forall>m \<in> set ms. \<forall>m' \<in> set ms. \<not> not_grant m \<and> \<not> not_grant m' \<longrightarrow> m = m'" using assms(6) by (auto simp: step_grants_def)
  have "\<exists>m \<in> set ms. \<not> not_grant m \<and> sm_to m = Some x" if "(n, t, x) \<in> cast n r'" "(n, t, x) \<notin> cast n r" for x
    using that False ms(1) by (auto simp: cast_def)
  then obtain m m' where "m \<in> set ms" "\<not> not_grant m" "sm_to m = Some v" "m' \<in> set ms" "\<not> not_grant m'" "sm_to m' = Some w"
    using assms(1-4) by metis
  then show ?thesis using ms(2) by auto
qed

lemma ballots_bound:
  "\<lbrakk>ballots_ok c; c_nodes c n = Some r; (n, t, v) \<in> c_ballots c\<rbrakk> \<Longrightarrow>
   t \<le> r_current_term r \<and> (t = r_current_term r \<longrightarrow> r_voted_for r = Some v)"
  unfolding ballots_ok_def by fastforce

lemma place_unique:
  assumes b: "ballots_ok c" and n: "c_nodes c n = Some r" and x: "ext r r'" "step_grants r r'"
    and vw: "(p, t, v) \<in> c_ballots c \<union> cast n r'" "(p, t, w) \<in> c_ballots c \<union> cast n r'"
  shows "v = w"
proof -
  have sub: "cast n r \<subseteq> c_ballots c" using b n by (simp add: ballots_ok_def)
  have fn: "y = z" if "(q, u, y) \<in> c_ballots c" "(q, u, z) \<in> c_ballots c" for q u y z
    using that b unfolding ballots_ok_def by blast
  have mixed: "y = z" if "(n, u, y) \<in> c_ballots c" "(n, u, z) \<in> cast n r'" for u y z
  proof (cases "(n, u, z) \<in> c_ballots c")
    case False
    then show ?thesis using cast_subset [OF that(2) x] ballots_bound [OF b n that(1)] sub by fastforce
  qed (use fn that(1) in blast)
  have p: "q = n" if "(q, u, y) \<in> cast n r'" for q u y using that by (auto simp: cast_def)
  show ?thesis
  proof (cases "(p, t, v) \<in> c_ballots c \<or> (p, t, w) \<in> c_ballots c")
    case True
    then show ?thesis using vw mixed fn p by blast
  next
    case False
    then show ?thesis using vw cast_unique [of n t v r' w r, OF _ _ _ _ x] p sub by blast
  qed
qed

lemma place_ballots_ok:
  assumes b: "ballots_ok c" and n: "c_nodes c n = Some r" and x: "ext r r'" "step_grants r r'"
  shows "ballots_ok (place n r' c)"
proof -
  have sub: "cast n r \<subseteq> c_ballots c" using b n by (simp add: ballots_ok_def)
  have bound: "t \<le> r_current_term r' \<and> (t = r_current_term r' \<longrightarrow> r_voted_for r' = Some v)"
    if "(n, t, v) \<in> c_ballots c \<union> cast n r'" for t v
  proof (cases "(n, t, v) \<in> c_ballots c")
    case True
    then show ?thesis using ballots_bound [OF b n True] ext_term_vote [OF x(1)] by force
  next
    case False
    then show ?thesis using cast_subset [OF _ x] that sub by blast
  qed
  have others: "\<exists>q. c_nodes c p = Some q \<and> t \<le> r_current_term q \<and> (t = r_current_term q \<longrightarrow> r_voted_for q = Some v)"
    if "p \<noteq> n" "(p, t, v) \<in> c_ballots c \<union> cast n r'" for p t v
    using that b unfolding ballots_ok_def by (auto simp: cast_def)
  have "\<exists>q. ((c_nodes c)(n \<mapsto> r')) p = Some q \<and> t \<le> r_current_term q \<and> (t = r_current_term q \<longrightarrow> r_voted_for q = Some v)"
    if "(p, t, v) \<in> c_ballots c \<union> cast n r'" for p t v
    using bound [of t v] others [of p t v] that by (cases "p = n") auto
  moreover have "cast p q \<subseteq> c_ballots c \<union> cast n r'" if "((c_nodes c)(n \<mapsto> r')) p = Some q" for p q
  proof (cases "p = n")
    case False
    then have "cast p q \<subseteq> c_ballots c" using that b unfolding ballots_ok_def by simp
    then show ?thesis by blast
  qed (use that in simp)
  ultimately show ?thesis using place_unique [OF b n x] unfolding ballots_ok_def by (simp add: place_def) blast
qed

text \<open>One replica evolves; the votes it counts were cast for it.\<close>

lemma evolves_own:
  assumes nd: "node_ok e s c n r" and v: "evolves e V r r'" and lead: "r_role r' \<noteq> FOLLOWER"
    and V: "\<And>p. p \<in> V (r_current_term r') \<Longrightarrow> (p, r_current_term r', n) \<in> c_ballots c"
    and p: "p \<in> own r r' \<union> V (r_current_term r')"
  shows "(p, r_current_term r', n) \<in> c_ballots (place n r' c)"
proof -
  have me: "r_me r' = n" using v nd by (simp add: evolves_def ext_def same_identity_def node_ok_def)
  have "r_voted_for r' = Some n"
    using v lead me by (cases "r_role r'") (auto simp: evolves_def raft_inv_def base_inv_def role_ok_def)
  then have "(n, r_current_term r', n) \<in> cast n r'" by (simp add: cast_def)
  moreover have "(q, r_current_term r, n) \<in> c_ballots c" if "r_role r = CANDIDATE" "q \<in> set (cs_votes_granted (r_candidate r))" for q
    using nd that by (simp add: node_ok_def)
  moreover have "r_me r = n" using nd by (simp add: node_ok_def)
  ultimately show ?thesis using p V by (auto simp: place_def own_def split: if_splits)
qed

lemma evolves_node_ok:
  assumes nd: "node_ok e s c n r" "c_nodes c n = Some r" and v: "evolves e V r r'"
    and V: "\<And>p. p \<in> V (r_current_term r') \<Longrightarrow> (p, r_current_term r', n) \<in> c_ballots c"
  shows "node_ok e s (place n r' c) n r'"
proof -
  have x: "raft_inv e r'" "r_me r' = n" "r_super_majority r' = s" "elections V r r'" "step_grants r r'"
    using v nd(1) by (simp_all add: evolves_def node_ok_def ext_def same_identity_def)
  have "queue_ok r'" using x(5) nd(1) by (auto simp: node_ok_def queue_ok_def step_grants_def granted_def)
  moreover have "(p, r_current_term r', n) \<in> c_ballots (place n r' c)"
    if "r_role r' = CANDIDATE" "p \<in> set (cs_votes_granted (r_candidate r'))" for p
  proof (rule evolves_own [OF nd(1) v _ V])
    show "p \<in> own r r' \<union> V (r_current_term r')" using x(4) that by (auto simp: elections_def campaigns_def)
  qed (use that in simp)
  moreover have "\<exists>M. (r_current_term r', n, M) \<in> c_elected (place n r' c)" if "r_role r' = LEADER"
  proof (cases "keeps_lead r r'")
    case True
    then have "r_role r = LEADER" "r_current_term r' = r_current_term r" using that by (simp_all add: keeps_lead_def)
    then show ?thesis using nd(1) by (auto simp: node_ok_def place_def)
  next
    case False
    then show ?thesis using that nd(2) by (auto simp: place_def won_def)
  qed
  ultimately show ?thesis using x(1-3) by (simp add: node_ok_def)
qed

lemma evolves_elected_ok:
  assumes nd: "node_ok e s c n r" "c_nodes c n = Some r" and v: "evolves e V r r'" and el: "elected_ok s c"
    and V: "\<And>p. p \<in> V (r_current_term r') \<Longrightarrow> (p, r_current_term r', n) \<in> c_ballots c"
  shows "elected_ok s (place n r' c)"
  unfolding elected_ok_def
proof (intro allI impI)
  fix t m M assume i: "(t, m, M) \<in> c_elected (place n r' c)"
  show "\<exists>Q. voting_quorum M s Q \<and> (\<forall>p \<in> Q. (p, t, m) \<in> c_ballots (place n r' c))"
  proof (cases "(t, m, M) \<in> c_elected c")
    case True
    then show ?thesis using el by (fastforce simp: elected_ok_def place_def)
  next
    case False
    then have w: "r_role r' = LEADER" "\<not> keeps_lead r r'" "t = r_current_term r'" "m = n" "M = active_membership r'"
      using i nd(2) by (auto simp: place_def won_def split: if_splits)
    then obtain Q where "Q \<subseteq> own r r' \<union> V (r_current_term r')" "voting_quorum (active_membership r') (r_super_majority r) Q"
      using v by (auto simp: evolves_def elections_def)
    then show ?thesis using w nd(1) evolves_own [OF nd(1) v _ V] by (auto simp: node_ok_def)
  qed
qed

lemma evolves_cluster:
  assumes inv: "cluster_inv e s c" and n: "c_nodes c n = Some r" and v: "evolves e V r r'"
    and V: "\<And>p. p \<in> V (r_current_term r') \<Longrightarrow> (p, r_current_term r', n) \<in> c_ballots c"
  shows "cluster_inv e s (place n r' c)"
proof -
  have nd: "node_ok e s c n r" "ballots_ok c" "elected_ok s c" "net_ok e c" using inv n by (simp_all add: cluster_inv_def)
  have "ballots_ok (place n r' c)" by (rule place_ballots_ok [OF nd(2) n]) (use v in \<open>simp_all add: evolves_def\<close>)
  moreover have "net_ok e (place n r' c)" using nd(4) unfolding net_ok_def place_def by fastforce
  moreover have "elected_ok s (place n r' c)" by (rule evolves_elected_ok [OF nd(1) n v nd(3) V])
  moreover have "node_ok e s (place n r' c) m q" if "c_nodes (place n r' c) m = Some q" for m q
  proof (cases "m = n")
    case True
    then show ?thesis using that evolves_node_ok [OF nd(1) n v V] by (simp add: place_def)
  next
    case False
    then have "node_ok e s c m q" using that inv by (simp add: place_def cluster_inv_def)
    then show ?thesis by (rule node_ok_mono) (auto simp: place_def)
  qed
  ultimately show ?thesis by (simp add: cluster_inv_def)
qed

lemma joins_evolves:
  assumes "joins e s n r" "entry_fits e default_entry"
  obtains a where "raft_inv e a" "newborn n s a" "evolves e (\<lambda>t. {}) a r"
proof -
  obtain grp t mem lg config committed rnd where j: "Raft_new e grp n t mem lg config committed s rnd = Some r" "pend (env_H e) t {}"
    "fresh_ok e mem lg config committed s"
    "n \<notin> set (voting_replicas mem) \<or> mem = Membership_First n \<and> committed = False \<and> (\<exists>mx. lg = Log_init mx)"
    using assms(1) unfolding joins_def by metis
  show thesis
  proof (cases "n \<in> set (voting_replicas mem)")
    case False
    obtain q where q: "Raft_new e grp n t mem lg config committed s rnd = Some q" "raft_inv e q" "newborn n s q"
      by (rule Raft_new_joining [OF j(3,2) False])
    have "base_inv e q" using q(2) by (simp add: raft_inv_def)
    then show ?thesis using that [OF q(2,3)] good_calm_evolves [OF q(2) good_refl calm_refl] q(1) j(1) by simp
  next
    case True
    then obtain mx where m: "mem = Membership_First n" "committed = False" "lg = Log_init mx" using j(4) by auto
    obtain q where q: "Raft_new e grp n t (Membership_First n) (Log_init mx) config False s rnd = Some q"
      "\<exists>a. raft_inv e a \<and> newborn n s a \<and> evolves e (\<lambda>t. {}) a q"
      by (rule Raft_new_first [OF j(3) [unfolded m] j(2) assms(2)])
    then show ?thesis using that j(1) m by auto
  qed
qed

lemma ballots_ok_node:
  assumes b: "ballots_ok c" and sub: "cast n r \<subseteq> c_ballots c"
    and n: "\<And>t v. (n, t, v) \<in> c_ballots c \<Longrightarrow> t \<le> r_current_term r \<and> (t = r_current_term r \<longrightarrow> r_voted_for r = Some v)"
  shows "ballots_ok (c\<lparr>c_nodes := (c_nodes c)(n \<mapsto> r), c_net := N\<rparr>)"
proof -
  have "\<exists>q. ((c_nodes c)(n \<mapsto> r)) p = Some q \<and> t \<le> r_current_term q \<and> (t = r_current_term q \<longrightarrow> r_voted_for q = Some v)"
    if "(p, t, v) \<in> c_ballots c" for p t v
    using that b n [of t v] unfolding ballots_ok_def by (cases "p = n") simp_all
  moreover have "cast p q \<subseteq> c_ballots c" if "((c_nodes c)(n \<mapsto> r)) p = Some q" for p q
    using that b sub unfolding ballots_ok_def by (cases "p = n") simp_all
  ultimately show ?thesis using b unfolding ballots_ok_def by simp
qed

lemma join_cluster:
  assumes inv: "cluster_inv e s c" and n: "c_nodes c n = None" and j: "joins e s n r" and fits: "entry_fits e default_entry"
  shows "cluster_inv e s (place n r c)"
proof -
  obtain a where a: "raft_inv e a" "newborn n s a" "evolves e (\<lambda>t. {}) a r" by (rule joins_evolves [OF j fits])
  let ?c = "c\<lparr>c_nodes := (c_nodes c)(n \<mapsto> a)\<rparr>"
  have nb: "cast n a = {}" "r_role a = FOLLOWER" "queue_ok a" "r_me a = n" "r_super_majority a = s"
    using a(2) by (auto simp: newborn_def cast_def queue_ok_def)
  have none: "(n, t, v) \<notin> c_ballots c" for t v using inv n unfolding cluster_inv_def ballots_ok_def by fastforce
  have "ballots_ok ?c"
    using ballots_ok_node [of c n a "c_net c"] inv none nb(1) by (simp add: cluster_inv_def)
  moreover have "net_ok e ?c" "elected_ok s ?c" using inv by (simp_all add: cluster_inv_def net_ok_def elected_ok_def)
  moreover have "node_ok e s ?c m q" if "c_nodes ?c m = Some q" for m q
    using that inv a(1) nb by (auto simp: cluster_inv_def node_ok_def split: if_splits)
  ultimately have "cluster_inv e s ?c" by (simp add: cluster_inv_def)
  then have "cluster_inv e s (place n r ?c)" by (rule evolves_cluster [OF _ _ a(3)]) simp_all
  moreover have "place n r ?c = place n r c" using n nb(2) by (simp add: place_def won_def keeps_lead_def)
  ultimately show ?thesis by simp
qed

lemma send_cluster:
  assumes inv: "cluster_inv e s c" and n: "c_nodes c n = Some r" and m: "SendableMessages r = (ms, r')"
  shows "cluster_inv e s (c\<lparr>c_nodes := (c_nodes c)(n \<mapsto> r'), c_net := c_net c \<union> {n} \<times> set ms\<rparr>)" (is "cluster_inv e s ?c")
proof -
  have r': "r' = r\<lparr>r_sendable := []\<rparr>" "ms = r_sendable r" using m by (simp_all add: SendableMessages_def)
  have nd: "node_ok e s c n r" "ballots_ok c" "cast n r \<subseteq> c_ballots c" using inv n by (simp_all add: cluster_inv_def ballots_ok_def)
  have "raft_inv e r'" "msgs_ok e (r_me r) ms" using SendableMessages_ok [of e r] nd(1) m by (simp_all add: node_ok_def)
  have "cast n r' \<subseteq> cast n r" by (auto simp: cast_def r')
  then have sub: "cast n r' \<subseteq> c_ballots c" using nd(3) by blast
  have "ballots_ok ?c" using ballots_ok_node [OF nd(2) sub] ballots_bound [OF nd(2) n] by (simp add: r')
  moreover have "net_ok e ?c"
  proof -
    have "\<exists>v. sm_to x = Some v \<and> (n, rm_term (sm_message x), v) \<in> c_ballots c" if x: "x \<in> set ms" "\<not> not_grant x" for x
    proof -
      obtain v where "sm_to x = Some v" using x nd(1) r'(2) by (auto simp: node_ok_def queue_ok_def)
      then have "(n, rm_term (sm_message x), v) \<in> cast n r" using x r'(2) by (auto simp: cast_def)
      then show ?thesis using nd(3) \<open>sm_to x = Some v\<close> by blast
    qed
    then show ?thesis using inv \<open>msgs_ok e (r_me r) ms\<close> by (auto simp: cluster_inv_def net_ok_def msgs_ok_def)
  qed
  moreover have "elected_ok s ?c" using inv by (simp add: cluster_inv_def elected_ok_def)
  moreover have "node_ok e s ?c k q" if "c_nodes ?c k = Some q" for k q
    using that inv nd(1) \<open>raft_inv e r'\<close> by (auto simp: cluster_inv_def node_ok_def r' queue_ok_def split: if_splits)
  ultimately show ?thesis by (simp add: cluster_inv_def)
qed

lemma event_cluster:
  assumes inv: "cluster_inv e s c" and n: "c_nodes c n = Some r" and d: "delivered c n ev" "local_ok e ev r" "roomy ev r"
    and r': "run_event e ev r = Some r'" and fits: "entry_fits e default_entry"
  shows "cluster_inv e s (place n r' c)"
proof -
  have nd: "node_ok e s c n r" "net_ok e c" using inv n by (simp_all add: cluster_inv_def)
  have rv: "raft_inv e r" "r_me r = n" using nd(1) by (simp_all add: node_ok_def)
  have "input_ok e ev r"
  proof (cases ev)
    case (EvReceive msg p)
    then show ?thesis using d(1) nd(2) rv(2) by (auto simp: delivered_def net_ok_def)
  qed (use d(2) in \<open>simp_all add: local_ok_def\<close>)
  then have "event_ok e ev r" using fits d(3) by (simp add: event_ok_def)
  then obtain q where "run_event e ev r = Some q" "evolves e (event_votes ev) r q" by (rule run_event_evolves [OF rv(1)])
  then have "evolves e (event_votes ev) r r'" using r' by simp
  moreover have "(p, t, n) \<in> c_ballots c" if pv: "p \<in> event_votes ev t" for p t
  proof -
    obtain msg where ev: "ev = EvReceive msg p" "rm_inner msg = VoteResponse True" "rm_term msg = t"
      using pv by (cases ev) (auto simp: event_votes_def votes_in_def split: if_splits)
    then obtain m where m: "(p, m) \<in> c_net c" "sm_message m = msg" "sm_to m = None \<or> sm_to m = Some n"
      using d(1) by (auto simp: delivered_def)
    then have "\<not> not_grant m" using ev(2) by (simp add: not_grant_def)
    then show ?thesis using nd(2) m ev(3) unfolding net_ok_def by fastforce
  qed
  ultimately show ?thesis by (rule evolves_cluster [OF inv n])
qed

lemma cluster_reach_inv:
  assumes "cluster_reach e s c" "entry_fits e default_entry"
  shows "cluster_inv e s c"
  using assms
proof (induction rule: cluster_reach.induct)
  case start
  then show ?case by (simp add: cluster_inv_def no_cluster_def ballots_ok_def net_ok_def elected_ok_def)
next
  case (step c c')
  then have inv: "cluster_inv e s c" by simp
  from step.hyps(2) show ?case
    by cases (use inv step.prems join_cluster event_cluster send_cluster in blast)+
qed

end
