(* ===== verification/RaftProps.thy ===== *)
theory RaftProps
  imports RaftCluster
begin

text \<open>
  What the Raft layer guarantees, and concrete replicas on which the guarantees apply.
\<close>

subsection \<open>Runs of a replica\<close>

fun run_events :: "raft_env \<Rightarrow> raft_event list \<Rightarrow> raft \<Rightarrow> raft option" where
  "run_events e [] r = Some r"
| "run_events e (ev # evs) r = do { r1 \<leftarrow> run_event e ev r; run_events e evs r1 }"

fun events_ok :: "raft_env \<Rightarrow> raft_event list \<Rightarrow> raft \<Rightarrow> bool" where
  "events_ok e [] r \<longleftrightarrow> True"
| "events_ok e (ev # evs) r \<longleftrightarrow> event_ok e ev r \<and> (\<forall>r1. run_event e ev r = Some r1 \<longrightarrow> events_ok e evs r1)"

lemma run_events_ext:
  assumes "raft_inv e r" "events_ok e evs r"
  shows "\<exists>r'. run_events e evs r = Some r' \<and> raft_inv e r' \<and> ext r r'"
  using assms
proof (induction evs arbitrary: r)
  case (Cons ev evs)
  have "event_ok e ev r" using Cons.prems(2) by simp
  then obtain r1 where "run_event e ev r = Some r1" "evolves e (event_votes ev) r r1" by (rule run_event_evolves [OF Cons.prems(1)])
  then have r1: "run_event e ev r = Some r1" "raft_inv e r1" "ext r r1" by (simp_all add: evolves_def)
  then obtain r' where "run_events e evs r1 = Some r'" "raft_inv e r'" "ext r1 r'" using Cons by auto
  then show ?case using r1 ext_trans [OF r1(3)] by simp
qed simp

lemma raft_inv_indices:
  assumes "raft_inv e r"
  shows "r_last_applied r \<le> r_commit_idx r" "r_commit_idx r \<le> r_promise_idx r" "r_promise_idx r \<le> last_idx (r_log r)"
  using base_log [of e r] assms by (simp_all add: raft_inv_def)

subsection \<open>Hash chains\<close>

definition same_content :: "log_entry \<Rightarrow> log_entry \<Rightarrow> bool" where
  "same_content x y \<longleftrightarrow> le_term x mod 2 ^ 64 = le_term y mod 2 ^ 64 \<and> (\<forall>d. le_inner x = Data d \<longleftrightarrow> le_inner y = Data d)"

text \<open>Two entries with the same hash, computed by HMAC from different keys or messages.\<close>

definition collision_at :: "raft_env \<Rightarrow> raft_log \<Rightarrow> raft_log \<Rightarrow> nat \<Rightarrow> bool" where
  "collision_at e a b l \<longleftrightarrow> (\<exists>x y h k. entry_at a l = Some x \<and> entry_at b l = Some y \<and> prev_hash a l = Some h \<and> prev_hash b l = Some k \<and>
     (h, chain_input e l x) \<noteq> (k, chain_input e l y) \<and> HmacSha256 e h (chain_input e l x) = HmacSha256 e k (chain_input e l y))"

lemma chain_input_same_content:
  assumes "chain_input e i x = chain_input e i y"
  shows "same_content x y"
proof -
  have idx: "take 16 (BigEndian64Bytes v @ BigEndian64Bytes w) = BigEndian64Bytes v @ BigEndian64Bytes w" for v w by simp
  have inj: "BigEndian64Bytes v = BigEndian64Bytes w \<Longrightarrow> v = w" for v w by (metis BigEndian64_decode_encode)
  have "(of_nat (le_term x) :: 64 word) = of_nat (le_term y) \<and> (\<forall>d. le_inner x = Data d \<longleftrightarrow> le_inner y = Data d)"
    using assms
    by (cases "le_inner x"; cases "le_inner y") (auto simp: chain_input_def ByteArrayToString_def idx Let_def dest: inj)
  moreover have "unat (of_nat n :: 64 word) = n mod 2 ^ 64" for n by (simp add: unsigned_of_nat take_bit_eq_mod)
  ultimately show ?thesis unfolding same_content_def by metis
qed

lemma hash_step:
  assumes "chain_ok e a" "chain_ok e b" "\<not> collision_at e a b i" "entry_at a i = Some x" "entry_at b i = Some y"
    "le_hash_chain x = le_hash_chain y" "prev_hash a i = Some h" "prev_hash b i = Some k"
  shows "h = k" "chain_input e i x = chain_input e i y"
proof -
  have "HmacSha256 e h (chain_input e i x) = HmacSha256 e k (chain_input e i y)"
    using assms(1,2,4-8) unfolding chain_ok_def by metis
  then have "(h, chain_input e i x) = (k, chain_input e i y)" using assms(3-5,7,8) unfolding collision_at_def by blast
  then show "h = k" "chain_input e i x = chain_input e i y" by simp_all
qed

lemma prev_hash_stored:
  assumes "entry_at lg j \<noteq> None" "entry_at lg i \<noteq> None" "j < i"
  shows "entry_at lg (i - 1) \<noteq> None"
  using assms by (auto simp: entry_at_eq split: if_splits)

lemma hash_chain_agrees:
  assumes ok: "chain_ok e a" "chain_ok e b" and no: "\<forall>l. j < l \<and> l \<le> j + n \<longrightarrow> \<not> collision_at e a b l"
    and top: "entry_at a (j + n) = Some x" "entry_at b (j + n) = Some y" "le_hash_chain x = le_hash_chain y"
    and j: "entry_at a j = Some u" "entry_at b j = Some v" "0 < j"
  shows "le_hash_chain u = le_hash_chain v"
  using no top
proof (induction n arbitrary: x y)
  case 0
  then show ?case using j by simp
next
  case (Suc n)
  have "j < j + Suc n" by simp
  then obtain x' y' where p: "entry_at a (j + n) = Some x'" "entry_at b (j + n) = Some y'"
    using prev_hash_stored [of a j "j + Suc n"] prev_hash_stored [of b j "j + Suc n"] j Suc.prems(2,3) by auto
  have "prev_hash a (j + Suc n) = Some (le_hash_chain x')" "prev_hash b (j + Suc n) = Some (le_hash_chain y')"
    using p j(3) by (simp_all add: prev_hash_def)
  then have "le_hash_chain x' = le_hash_chain y'"
    using hash_step(1) [OF ok _ Suc.prems(2-4)] Suc.prems(1) by simp
  then show ?case using Suc.IH [OF _ p] Suc.prems(1) by simp
qed

subsection \<open>Example replicas\<close>

definition tiny_env :: raft_env where
  "tiny_env = \<lparr>env_sizes = \<lparr>sizeof_ReplicaGroup = 48, sizeof_Replica = 40, sizeof_LogEntry = 56, sizeof_string = 32, ByteSizeLong = (\<lambda>en. 100)\<rparr>,
     env_H = (\<lambda>d. take 8 (d @ replicate 8 0)), env_hmac = (\<lambda>k d. take 32 (rev d @ k)), env_ser_group = (\<lambda>g. []), env_ser_minimums = (\<lambda>l. []),
     env_rand = (\<lambda>k. k)\<rparr>"

definition tiny_config :: raft_config where
  "tiny_config = \<lparr>cfg_election_ticks = 10, cfg_heartbeat_ticks = 2, cfg_replication_chunk_bytes = 1000, cfg_replica_voting_timeout_ticks = 60,
     cfg_replica_membership_timeout_ticks = 300, cfg_log_max_bytes = 10000, cfg_replication_pipeline = 4\<rparr>"

definition peer :: "byte \<Rightarrow> peer_id" where
  "peer b = replicate 32 b"

lemma tiny_default_fits: "entry_fits tiny_env default_entry"
  by (simp add: entry_fits_def logentry_bytes_in_log_def tiny_env_def default_entry_def le_data_def)

lemma example_mem_ok: "mem_ok example_membership"
  using example_membership_inv(1) by (simp add: mem_ok_def example_membership_def)

lemma tiny_log_ok: "log_ok tiny_env (Log_init 10000) 0 0 0"
  using log_inv_init [of 10000 "env_sizes tiny_env"]
  by (simp add: log_ok_def chain_ok_def Log_init_def last_idx_def entry_at_eq log_end_def)

lemma tiny_replica:
  obtains r where "raft_inv tiny_env r" "newborn (peer 1) 0 r" "r_log r = Log_init 10000" "active_membership r = example_membership"
proof -
  obtain t where t: "pend (env_H tiny_env) t {}" using Tree_init_pend by blast
  have f: "fresh_ok tiny_env example_membership (Log_init 10000) tiny_config False 0"
    using tiny_log_ok by (simp add: fresh_ok_def example_mem_ok tiny_config_def Log_init_def)
  show thesis by (rule fresh_replica [OF f t]) (use that in blast)
qed

subsection \<open>Properties\<close>

text \<open>C4: whatever events a replica goes through, no CHECK of the Raft layer fails and it keeps its invariant: it has
  applied no more than it has committed, committed no more than it has promised and promised no more than its log holds;
  a candidate or leader has voted for itself and is a voting member.\<close>

theorem raft_replica_invariant:
  assumes "raft_inv e r" "events_ok e evs r"
  shows "\<exists>r'. run_events e evs r = Some r' \<and> raft_inv e r' \<and> r_last_applied r' \<le> r_commit_idx r' \<and>
    r_commit_idx r' \<le> r_promise_idx r' \<and> r_promise_idx r' \<le> last_idx (r_log r') \<and>
    (r_role r' = FOLLOWER \<or> r_voted_for r' = Some (r_me r') \<and> voting r')"
proof -
  obtain r' where r': "run_events e evs r = Some r'" "raft_inv e r'" using run_events_ext [OF assms] by blast
  have "r_role r' = FOLLOWER \<or> r_voted_for r' = Some (r_me r') \<and> voting r'"
    using r'(2) by (cases "r_role r'") (auto simp: raft_inv_def base_inv_def role_ok_def voting_def active_act)
  then show ?thesis using r' raft_inv_indices [OF r'(2)] by blast
qed

definition example_vote_request :: raft_message where
  "example_vote_request = \<lparr>rm_group = 0, rm_term = 1, rm_inner = VoteRequest \<lparr>vr_last_log_idx = 0, vr_last_log_term = 0, vr_last_log_hash_chain = []\<rparr>\<rparr>"

lemma example_events_ok:
  assumes "newborn (peer 1) 0 r" "r_log r = Log_init 10000"
  shows "events_ok tiny_env [EvReceive example_vote_request (peer 2)] r"
  using assms tiny_default_fits
  by (simp add: event_ok_def roomy_def newborn_def Log_init_def log_end_def msg_entries_def example_vote_request_def msg_ok_def peer_def)

theorem raft_replica_invariant_witness:
  "\<exists>r r'. raft_inv tiny_env r \<and> events_ok tiny_env [EvReceive example_vote_request (peer 2)] r \<and>
    run_events tiny_env [EvReceive example_vote_request (peer 2)] r = Some r' \<and> raft_inv tiny_env r'"
proof -
  obtain r where r: "raft_inv tiny_env r" "newborn (peer 1) 0 r" "r_log r = Log_init 10000" by (rule tiny_replica)
  note ok = example_events_ok [OF r(2,3)]
  show ?thesis using raft_replica_invariant [OF r(1) ok] r(1) ok by blast
qed

text \<open>C2: promises are durable.  Through any events, a replica's term, commit index and promise index never go back, no
  entry at or below its promise index is ever replaced (entries can only be dropped from the front once applied), and
  within one term it never changes a vote that it has cast.\<close>

theorem raft_promises_are_durable:
  assumes "raft_inv e r" "events_ok e evs r" "run_events e evs r = Some r'"
  shows "r_current_term r \<le> r_current_term r' \<and> r_commit_idx r \<le> r_commit_idx r' \<and> r_promise_idx r \<le> r_promise_idx r' \<and>
    (\<forall>i. i \<le> r_promise_idx r \<longrightarrow> entry_at (r_log r') i = entry_at (r_log r) i \<or> i < log_oldest (r_log r') \<and> i \<le> r_last_applied r') \<and>
    (r_current_term r' = r_current_term r \<and> r_voted_for r \<noteq> None \<longrightarrow> r_voted_for r' = r_voted_for r)"
proof -
  obtain q where q: "run_events e evs r = Some q" "raft_inv e q" "ext r q" using run_events_ext [OF assms(1,2)] by blast
  then have x: "raft_inv e r'" "ext r r'" using assms(3) by simp_all
  have "log_oldest (r_log r') \<le> max 1 (r_last_applied r')" using base_log(8) [of e r'] x(1) by (simp add: raft_inv_def)
  moreover have "entry_at (r_log r) 0 = None" "entry_at (r_log r') 0 = None"
    using entry_at_0 [OF base_log(1), of e] x(1) assms(1) by (simp_all add: raft_inv_def)
  ultimately have "entry_at (r_log r') i = entry_at (r_log r) i \<or> i < log_oldest (r_log r') \<and> i \<le> r_last_applied r'"
    if "i \<le> r_promise_idx r" for i
    using that x(2) by (cases "i = 0") (auto simp: ext_def log_ext_def)
  then show ?thesis using x(2) by (simp add: ext_def)
qed

theorem raft_promises_are_durable_witness:
  "\<exists>r r'. raft_inv tiny_env r \<and> events_ok tiny_env [EvReceive example_vote_request (peer 2)] r \<and>
    run_events tiny_env [EvReceive example_vote_request (peer 2)] r = Some r' \<and> r_current_term r \<le> r_current_term r'"
proof -
  obtain r where r: "raft_inv tiny_env r" "newborn (peer 1) 0 r" "r_log r = Log_init 10000" by (rule tiny_replica)
  note ok = example_events_ok [OF r(2,3)]
  obtain r' where "run_events tiny_env [EvReceive example_vote_request (peer 2)] r = Some r'" using run_events_ext [OF r(1) ok] by blast
  then show ?thesis using raft_promises_are_durable [OF r(1) ok] r(1) ok by blast
qed

lemma elected_quorum:
  "cluster_inv e s c \<Longrightarrow> (t, n, M) \<in> c_elected c \<Longrightarrow> \<exists>Q. voting_quorum M s Q \<and> (\<forall>p \<in> Q. (p, t, n) \<in> c_ballots c)"
  unfolding cluster_inv_def elected_ok_def by metis

lemma ballot_unique:
  "cluster_inv e s c \<Longrightarrow> (p, t, v) \<in> c_ballots c \<Longrightarrow> (p, t, w) \<in> c_ballots c \<Longrightarrow> v = w"
  unfolding cluster_inv_def ballots_ok_def by metis

text \<open>C1: election safety.  In every group of replicas that exchange messages over a network that may lose, delay, repeat and
  reorder them, at most one replica is elected leader of a term: two elections of a term, won under the same membership or
  under memberships one accepted change apart, have the same winner; and whoever leads a term has won such an election.\<close>

theorem raft_election_safety:
  assumes "cluster_reach e s c" "entry_fits e default_entry"
    and "(t, a, M) \<in> c_elected c" "(t, b, M') \<in> c_elected c"
    and "M = M' \<or> membership_inv M \<and> membership_inv M' \<and> ValidProgressionForLeader l M M' s = OK"
  shows "a = b \<and> (\<forall>n r. c_nodes c n = Some r \<and> r_role r = LEADER \<longrightarrow> (\<exists>N. (r_current_term r, n, N) \<in> c_elected c))"
proof -
  have inv: "cluster_inv e s c" by (rule cluster_reach_inv [OF assms(1,2)])
  obtain A B where q: "voting_quorum M s A" "\<forall>p \<in> A. (p, t, a) \<in> c_ballots c" "voting_quorum M' s B" "\<forall>p \<in> B. (p, t, b) \<in> c_ballots c"
    using elected_quorum [OF inv assms(3)] elected_quorum [OF inv assms(4)] by metis
  have "A \<inter> B \<noteq> {}"
    using assms(5) q(1,3) vq.quorum_inter [of M s A B] progression_quorums_inter [of l M M' s A B] by auto
  then obtain p where "(p, t, a) \<in> c_ballots c" "(p, t, b) \<in> c_ballots c" using q(2,4) by blast
  then have "a = b" by (rule ballot_unique [OF inv])
  moreover have "\<exists>N. (r_current_term r, n, N) \<in> c_elected c" if "c_nodes c n = Some r" "r_role r = LEADER" for n r
    using that inv by (simp add: cluster_inv_def node_ok_def)
  ultimately show ?thesis by simp
qed

lemma first_member:
  obtains r where "joins tiny_env 0 (peer 1) r" "r_role r = LEADER"
proof -
  obtain t where t: "pend (env_H tiny_env) t {}" using Tree_init_pend by blast
  have "mem_ok (Membership_First (peer 1))"
    by (simp add: mem_ok_def membership_inv_First peer_def) (simp add: Membership_First_def)
  then have f: "fresh_ok tiny_env (Membership_First (peer 1)) (Log_init 10000) tiny_config False 0"
    using tiny_log_ok by (simp add: fresh_ok_def tiny_config_def Log_init_def)
  obtain r where "Raft_new tiny_env 7 (peer 1) t (Membership_First (peer 1)) (Log_init 10000) tiny_config False 0 0 = Some r" "r_role r = LEADER"
    by (rule Raft_new_first [OF f t tiny_default_fits, of 7 0])
  then show thesis using that t f unfolding joins_def by blast
qed

theorem raft_election_safety_witness:
  "\<exists>c t M. cluster_reach tiny_env 0 c \<and> (t, peer 1, M) \<in> c_elected c \<and> (\<forall>b. (t, b, M) \<in> c_elected c \<longrightarrow> b = peer 1)"
proof -
  obtain r where r: "joins tiny_env 0 (peer 1) r" "r_role r = LEADER" by (rule first_member)
  let ?c = "place (peer 1) r no_cluster"
  have reach: "cluster_reach tiny_env 0 ?c"
    by (rule cluster_reach.step [OF cluster_reach.start cluster_step.join [OF _ r(1)]]) (simp add: no_cluster_def)
  have el: "(r_current_term r, peer 1, active_membership r) \<in> c_elected ?c" using r(2) by (simp add: place_def won_def no_cluster_def)
  then show ?thesis using reach raft_election_safety [OF reach tiny_default_fits _ el, of _ _ undefined] by blast
qed

text \<open>C3: a leader moves its promise index only to entries that a quorum of the voting members of its active membership has stored,
  and its commit index only to entries that a quorum has promised never to replace.\<close>

theorem raft_commit_needs_quorum:
  assumes "raft_inv e r" "r_role r = LEADER" "MaybeAdvanceCommitIndex r = Some r'"
  shows "(r_promise_idx r < r_promise_idx r' \<longrightarrow>
      voting_quorum (active_membership r) (r_super_majority r) (ack_set r (r_promise_idx r'))) \<and>
    (r_commit_idx r < r_commit_idx r' \<longrightarrow>
      voting_quorum (active_membership r) (r_super_majority r) (promise_set r (r_commit_idx r')))"
proof -
  have "base_inv e r" using assms(1) by (simp add: raft_inv_def)
  then show ?thesis using MaybeAdvance_ok [of e r] assms(2,3) by (metis option.inject)
qed

definition example_log :: raft_log where
  "example_log =
     (let en = \<lparr>le_term = 1, le_inner = INNER_NOT_SET, le_hash_chain = []\<rparr>
      in (Log_init 10000)\<lparr>log_entries := [en\<lparr>le_hash_chain := NextHash tiny_env en (Log_init 10000)\<rparr>], log_curr_bytes := 1000\<rparr>)"

definition example_leader :: "raft \<Rightarrow> raft" where
  "example_leader r =
     r\<lparr>r_current_term := 1, r_voted_for := Some (peer 1), r_role := LEADER, r_log := example_log,
       r_leader := no_leader\<lparr>ls_followers :=
         [(peer 2, no_replication\<lparr>rs_next_idx := 2, rs_match_idx := 1, rs_promise_idx := 1\<rparr>),
          (peer 3, no_replication\<lparr>rs_next_idx := 2\<rparr>)]\<rparr>\<rparr>"

lemma example_log_at:
  "entry_at example_log i = (if i = 1 then Some (hd (log_entries example_log)) else None)" "last_idx example_log = 1" "change_at example_log i = None"
  by (simp_all add: example_log_def Let_def Log_init_def entry_at_eq log_end_def last_idx_def u64_add_def u64_sub_def change_at_def entry_membership_def)

lemma example_log_ok: "log_ok tiny_env example_log 0 0 0"
proof -
  have m: "MostRecentHash (Log_init 10000) = None" "next_idx (Log_init 10000) = 1"
    by (simp_all add: MostRecentHash_def most_recent_hash_from.simps Iter_Entry_def Iter_Valid_def Log_init_def next_idx_def last_idx_def u64_add_def)
  have "log_inv (env_sizes tiny_env) example_log"
    by (simp add: log_inv_def example_log_def Let_def Log_init_def log_end_def bytes_used_def logentry_bytes_in_log_def tiny_env_def le_data_def
        entry_ok_def NextHash_def)
  moreover have "chain_ok tiny_env example_log"
    by (simp add: chain_ok_def example_log_at prev_hash_def)
      (simp add: example_log_def Let_def NextHash_def m chain_input_def cong: log_inner.case_cong)
  moreover have "entry_fits tiny_env (hd (log_entries example_log))"
    by (simp add: entry_fits_def example_log_def Let_def Log_init_def logentry_bytes_in_log_def tiny_env_def le_data_def)
  ultimately show ?thesis by (simp add: log_ok_def example_log_at) (simp add: example_log_def Let_def Log_init_def)
qed

lemma example_leader_inv:
  assumes "raft_inv tiny_env r" "newborn (peer 1) 0 r" "r_log r = Log_init 10000" "active_membership r = example_membership"
  shows "raft_inv tiny_env (example_leader r)" "r_commit_idx r = 0" "r_promise_idx r = 0"
proof -
  have b: "base_inv tiny_env r" "synced r" using assms(1) by (simp_all add: raft_inv_def)
  show i: "r_commit_idx r = 0" "r_promise_idx r = 0"
    using base_log(5-7) [OF b(1)] assms(3) by (simp_all add: Log_init_def last_idx_def)
  have n: "entry_at (Log_init 10000) j = None" for j by (auto simp: entry_at_eq Log_init_def log_end_def)
  then have "change_at (r_log r) j = None" for j using assms(3) by (simp add: change_at_def)
  then have u: "r_uncommitted r = []" using base_parts(1) [OF b(1)] unfolding unc_ok_def by (cases "r_uncommitted r") auto
  then have m: "r_membership r = example_membership" using assms(4) by (simp add: active_act act_def)
  have "followers_ok (peer 1) example_membership 1 (ls_followers (r_leader (example_leader r)))"
  proof -
    have "om_inv (ls_followers (r_leader (example_leader r)))" "peer 2 \<noteq> peer 1" "peer 3 \<noteq> peer 1"
      by (simp_all add: example_leader_def peer_def om_inv_def) code_simp
    then show ?thesis
      by (simp add: followers_ok_def example_leader_def example_membership_def no_replication_def repl_ok_def peer_def)
  qed
  moreover have "peer 1 \<in> set (voting_replicas example_membership)" by (simp add: example_membership_def peer_def)
  moreover have "unc_ok example_log 0 example_membership []" by (simp add: unc_ok_def example_mem_ok example_log_at)
  moreover have "log_hash example_log 0 = log_hash (Log_init 10000) 0" by (simp add: log_hash_def example_log_at n)
  moreover have "r_last_applied r = 0" using base_log(5) [OF b(1)] i(1) by simp
  ultimately show "raft_inv tiny_env (example_leader r)"
    using b u m i assms(2,3) example_log_ok
    by (simp add: raft_inv_def base_inv_def synced_def tree_sync_def example_leader_def role_ok_def act_def newborn_def example_log_at)
qed

lemma MaybeChange_indices:
  "r_commit_idx (MaybeChangeUncommittedMembershipsBasedOnLog r) = r_commit_idx r"
  "r_last_applied (MaybeChangeUncommittedMembershipsBasedOnLog r) = r_last_applied r"
proof -
  have "r_commit_idx (fold add_new_follower ps r) = r_commit_idx r \<and> r_last_applied (fold add_new_follower ps r) = r_last_applied r" for ps r
    by (induction ps arbitrary: r) (simp_all add: add_new_follower_def set_follower_def)
  then show "r_commit_idx (MaybeChangeUncommittedMembershipsBasedOnLog r) = r_commit_idx r"
    "r_last_applied (MaybeChangeUncommittedMembershipsBasedOnLog r) = r_last_applied r"
    by (simp_all add: MaybeChangeUncommittedMembershipsBasedOnLog_def HandleMembershipChange_def Let_def split_beta)
qed

lemma example_leader_commits:
  assumes "newborn (peer 1) 0 r" "active_membership r = example_membership" "r_commit_idx r = 0" "r_promise_idx r = 0"
  obtains r' where "MaybeAdvanceCommitIndex (example_leader r) = Some r'" "r_commit_idx r' = 1" "r_last_applied r' = r_last_applied r"
proof -
  let ?r = "example_leader r"
  have am: "active_membership ?r = example_membership" using assms(2) by (simp add: active_act example_leader_def)
  have vf: "map rs_match_idx (voting_followers ?r) = [1, 0]" "map rs_promise_idx (voting_followers ?r) = [1, 0]"
    using am by (simp_all add: voting_followers_def example_membership_def peer_def no_replication_def) (simp_all add: example_leader_def peer_def no_replication_def)
  have q: "u64_sub (membership_quorum_size ?r) 1 = 1"
    using am assms(1) by (simp add: membership_quorum_size_def example_membership_def example_leader_def newborn_def quorum_size_def u64_add_def u64_sub_def)
  have s: "vector_at (sort_descending [1, 0, 1]) 1 = Some 1" by (simp add: vector_at_def sort_descending_def)
  define r1 where "r1 = ?r\<lparr>r_promise_idx := 1\<rparr>"
  let ?r2 = "MaybeChangeUncommittedMembershipsBasedOnLog (r1\<lparr>r_commit_idx := 1\<rparr>)"
  have "MaybeAdvanceCommitIndex ?r = Some (map_followers (\<lambda>s. s\<lparr>rs_send_heartbeat := True\<rparr>) ?r2)"
    using assms(3,4) vf q s
    by (simp add: MaybeAdvanceCommitIndex_def Let_def r1_def) (simp add: example_leader_def example_log_at)
  then show thesis using that by (simp add: map_followers_def MaybeChange_indices r1_def example_leader_def)
qed

theorem raft_commit_needs_quorum_witness:
  "\<exists>r r'. raft_inv tiny_env r \<and> r_role r = LEADER \<and> MaybeAdvanceCommitIndex r = Some r' \<and> r_commit_idx r = 0 \<and> r_commit_idx r' = 1 \<and>
    voting_quorum (active_membership r) (r_super_majority r) (promise_set r 1)"
proof -
  obtain q where q: "raft_inv tiny_env q" "newborn (peer 1) 0 q" "r_log q = Log_init 10000" "active_membership q = example_membership"
    by (rule tiny_replica)
  note i = example_leader_inv [OF q]
  obtain r' where r': "MaybeAdvanceCommitIndex (example_leader q) = Some r'" "r_commit_idx r' = 1"
    by (rule example_leader_commits [OF q(2,4) i(2,3)])
  have l: "r_role (example_leader q) = LEADER" "r_commit_idx (example_leader q) = 0" using i(2) by (simp_all add: example_leader_def)
  then show ?thesis using raft_commit_needs_quorum [OF i(1) l(1) r'(1)] i(1) r' by (metis zero_less_one)
qed

text \<open>C7: votes.  A request of an older or the current term is answered with exactly one reply; the vote is granted if and only if
  the request is of the current term, the candidate's log is at least as up to date, and no other candidate has the vote
  of this term.  A request of a later term than the replica's is left alone.\<close>

theorem raft_vote_conditions:
  assumes "from \<noteq> r_me r" "0 < cfg_election_ticks (r_config r)"
    and "grant \<longleftrightarrow> t = r_current_term r \<and> (r_voted_for r = None \<or> r_voted_for r = Some from) \<and>
      (last_term (r_log r) < vr_last_log_term m \<or> vr_last_log_term m = last_term (r_log r) \<and> last_idx (r_log r) \<le> vr_last_log_idx m)"
  shows "\<exists>r'. HandleVoteRequest e t m from r = Some r' \<and> r_current_term r' = r_current_term r \<and> r_log r' = r_log r \<and>
    r_sendable r' = r_sendable r @ (if r_current_term r < t then [] else
      [Reply from \<lparr>rm_group = r_group r, rm_term = r_current_term r, rm_inner = VoteResponse grant\<rparr>]) \<and>
    r_voted_for r' = (if grant then Some from else r_voted_for r)"
proof -
  let ?r = "r\<lparr>r_voted_for := Some from\<rparr>"
  have "0 < cfg_election_ticks (r_config ?r)" using assms(2) by simp
  then obtain el where el: "RandomElectionTimeout e ?r = Some (el, ?r\<lparr>r_rand := r_rand ?r + 1\<rparr>)" by (rule RandomElectionTimeout_ok)
  show ?thesis
  proof (cases "r_current_term r < t")
    case True
    then show ?thesis using assms(3) by (simp add: HandleVoteRequest_def Let_def)
  next
    case False
    then show ?thesis using assms el by (cases grant) (auto simp: HandleVoteRequest_def Let_def AddSendableMessage_def Reply_def)
  qed
qed

theorem raft_vote_conditions_witness:
  "\<exists>r r'. newborn (peer 1) 0 r \<and> HandleVoteRequest tiny_env 0 \<lparr>vr_last_log_idx = 0, vr_last_log_term = 0, vr_last_log_hash_chain = []\<rparr> (peer 2) r = Some r' \<and>
    r_voted_for r' = Some (peer 2)"
proof -
  obtain r where r: "raft_inv tiny_env r" "newborn (peer 1) 0 r" "r_log r = Log_init 10000" by (rule tiny_replica)
  have "last_idx (r_log r) = 0" "last_term (r_log r) = 0" using r(3) by (simp_all add: Log_init_def last_idx_def last_term_def)
  moreover have "0 < cfg_election_ticks (r_config r)" using base_config r(1) by (auto simp: raft_inv_def)
  moreover have "peer 2 \<noteq> r_me r" "r_current_term r = 0" "r_voted_for r = None" using r(2) by (simp_all add: newborn_def peer_def)
  ultimately show ?thesis
    using raft_vote_conditions [of "peer 2" r True 0 "\<lparr>vr_last_log_idx = 0, vr_last_log_term = 0, vr_last_log_hash_chain = []\<rparr>" tiny_env] r(2)
    by auto
qed



text \<open>Taking committed entries one after another.\<close>

fun take_committed :: "nat \<Rightarrow> raft \<Rightarrow> ((nat \<times> log_entry) list \<times> raft) option" where
  "take_committed 0 r = Some ([], r)"
| "take_committed (Suc n) r =
     do { (x, r1) \<leftarrow> TakeCommittedLog r;
          (xs, r2) \<leftarrow> take_committed n r1;
          Some (x # xs, r2) }"

lemma take_committed_entries:
  assumes "raft_inv e r" "r_last_applied r + n \<le> r_commit_idx r"
  shows "\<exists>r'. take_committed n r = Some (map (\<lambda>i. (i, the (entry_at (r_log r) i))) [r_last_applied r + 1 ..< r_last_applied r + 1 + n], r') \<and>
    raft_inv e r' \<and> r_last_applied r' = r_last_applied r + n \<and> r_commit_idx r' = r_commit_idx r"
  using assms
proof (induction n arbitrary: r)
  case (Suc n)
  let ?r1 = "r\<lparr>r_last_applied := r_last_applied r + 1\<rparr>"
  have "r_last_applied r \<noteq> r_commit_idx r" using Suc.prems(2) by simp
  then obtain en where en: "entry_at (r_log r) (r_last_applied r + 1) = Some en" "TakeCommittedLog r = Some ((r_last_applied r + 1, en), ?r1)"
    "raft_inv e ?r1" using TakeCommittedLog_ok [OF Suc.prems(1), of _ "\<lambda>t. {}"] unfolding evolves_def by metis
  obtain r' where "take_committed n ?r1 = Some (map (\<lambda>i. (i, the (entry_at (r_log r) i))) [r_last_applied r + 2 ..< r_last_applied r + 2 + n], r')"
    "raft_inv e r'" "r_last_applied r' = r_last_applied r + 1 + n" "r_commit_idx r' = r_commit_idx r"
    using Suc.IH [OF en(3)] Suc.prems(2) by auto
  moreover have "[r_last_applied r + 1 ..< r_last_applied r + 1 + Suc n] = (r_last_applied r + 1) # [r_last_applied r + 2 ..< r_last_applied r + 2 + n]"
    by (simp add: upt_conv_Cons del: upt_Suc)
  ultimately show ?case using en(1,2) by (simp del: upt_Suc)
qed simp

text \<open>C6: committed entries are delivered to the database in log order, each exactly once, without gaps: taking entries until
  none is left yields precisely the entries between the applied index and the commit index, and none beyond it.\<close>

theorem raft_delivers_in_order:
  assumes "raft_inv e r"
  shows "\<exists>r'. take_committed (r_commit_idx r - r_last_applied r) r =
      Some (map (\<lambda>i. (i, the (entry_at (r_log r) i))) [r_last_applied r + 1 ..< r_commit_idx r + 1], r') \<and>
    r_last_applied r' = r_commit_idx r \<and> TakeCommittedLog r' = Some ((0, default_entry), r')"
proof -
  have le: "r_last_applied r \<le> r_commit_idx r" by (rule raft_inv_indices [OF assms])
  then obtain r' where "take_committed (r_commit_idx r - r_last_applied r) r =
      Some (map (\<lambda>i. (i, the (entry_at (r_log r) i))) [r_last_applied r + 1 ..< r_commit_idx r + 1], r')"
    "r_last_applied r' = r_commit_idx r" "r_commit_idx r' = r_commit_idx r"
    using take_committed_entries [OF assms, of "r_commit_idx r - r_last_applied r"] by auto
  then show ?thesis by (simp add: TakeCommittedLog_def)
qed

lemma example_committed:
  obtains r where "raft_inv tiny_env r" "r_commit_idx r = 1" "r_last_applied r = 0" "r_log r = example_log"
proof -
  obtain q where q: "raft_inv tiny_env q" "newborn (peer 1) 0 q" "r_log q = Log_init 10000" "active_membership q = example_membership"
    by (rule tiny_replica)
  note i = example_leader_inv [OF q]
  obtain a where a: "MaybeAdvanceCommitIndex (example_leader q) = Some a" "r_commit_idx a = 1" "r_last_applied a = r_last_applied q"
    by (rule example_leader_commits [OF q(2,4) i(2,3)])
  have "base_inv tiny_env (example_leader q)" using i(1) by (simp add: raft_inv_def)
  then obtain b where b: "MaybeAdvanceCommitIndex (example_leader q) = Some b" "base_inv tiny_env b" "r_log b = r_log (example_leader q)"
    by (rule MaybeAdvance_ok)
  obtain t where t: "base_inv tiny_env (b\<lparr>r_merkle := t\<rparr>)" "synced (b\<lparr>r_merkle := t\<rparr>)" by (rule UpdateMerkle_ok [OF b(2)])
  have "r_last_applied q = 0" using raft_inv_indices(1) [OF q(1)] i(2) by simp
  then show thesis using that [of "b\<lparr>r_merkle := t\<rparr>"] t a b by (simp add: raft_inv_def example_leader_def)
qed

theorem raft_delivers_in_order_witness:
  "\<exists>r r'. raft_inv tiny_env r \<and> take_committed 1 r = Some ([(1, hd (log_entries example_log))], r') \<and> TakeCommittedLog r' = Some ((0, default_entry), r')"
proof -
  obtain r where r: "raft_inv tiny_env r" "r_commit_idx r = 1" "r_last_applied r = 0" "r_log r = example_log" by (rule example_committed)
  then show ?thesis using raft_delivers_in_order [OF r(1)] by (auto simp: example_log_at)
qed

subsection \<open>Progress of a group of one\<close>

lemma alone_advances:
  assumes inv: "base_inv e r" and rl: "r_role r = LEADER" and al: "alone r" and r': "MaybeAdvanceCommitIndex r = Some r'"
  shows "r_commit_idx r' = last_idx (r_log r)" "r_log r' = r_log r"
proof -
  have m: "membership_inv (active_membership r)" "r_me r \<in> set (voting_replicas (active_membership r))"
    using act_mem_ok [OF base_parts(1) [OF inv]] base_parts(2) [OF inv] rl by (simp_all add: mem_ok_def active_act role_ok_def)
  then have "set (voting_replicas (active_membership r)) = {r_me r}" using al by (auto simp: membership_inv_def alone_def)
  then have "length (voting_replicas (active_membership r)) = 1" using m(1) os_inv_card [of "voting_replicas (active_membership r)"] by (simp add: membership_inv_def)
  then have vf: "voting_followers r = []" using voting_followers_length [OF inv rl] by simp
  have q: "u64_sub (membership_quorum_size r) 1 = 0" using quorum_index [OF inv rl] alone_quorum [OF inv al] by simp
  have v: "vector_at (sort_descending [x]) 0 = Some x" for x by (simp add: vector_at_def sort_descending_def)
  have le: "r_promise_idx r \<le> last_idx (r_log r)" "r_commit_idx r \<le> last_idx (r_log r)" using base_log(6,7) [OF inv] by simp_all
  show "r_commit_idx r' = last_idx (r_log r)"
    using r' rl vf q v le
    by (cases "last_idx (r_log r) > r_promise_idx r"; cases "last_idx (r_log r) > r_commit_idx r")
      (simp_all add: MaybeAdvanceCommitIndex_def Let_def, auto simp: map_followers_def MaybeChange_indices)
  show "r_log r' = r_log r" by (rule MaybeAdvance_ok [OF inv]) (use r' in simp)
qed

lemma LogAppend_location:
  assumes "LogAppend e en r = Some ((loc, OK), r')" "entry_membership en = Inr None"
  shows "loc_idx loc = last_idx (r_log r')"
proof (cases "Append (env_sizes e) en (r_last_applied r) (r_log r)")
  case (Some p)
  then show ?thesis using assms by (cases p; cases "fst p = OK") (auto simp: LogAppend_def)
qed (use assms in \<open>simp add: LogAppend_def\<close>)


lemma example_single:
  obtains r where "raft_inv tiny_env r" "r_role r = LEADER" "alone r" "r_log r = Log_init 10000" "r_current_term r = 1"
    "\<not> ls_relinquishing (r_leader r)"
proof -
  obtain t where t: "pend (env_H tiny_env) t {}" using Tree_init_pend by blast
  let ?m = "Membership_First (peer 1)"
  have m: "mem_ok ?m" by (simp add: mem_ok_def membership_inv_First peer_def) (simp add: Membership_First_def)
  then have f: "fresh_ok tiny_env ?m (Log_init 10000) tiny_config False 0"
    using tiny_log_ok by (simp add: fresh_ok_def tiny_config_def Log_init_def)
  obtain q where q: "raft_inv tiny_env q" "newborn (peer 1) 0 q" "r_log q = Log_init 10000" "active_membership q = ?m"
    by (rule fresh_replica [OF f t]) blast
  let ?r = "q\<lparr>r_current_term := 1, r_voted_for := Some (peer 1), r_role := LEADER, r_leader := no_leader\<rparr>"
  have "followers_ok (peer 1) ?m 0 (ls_followers no_leader)"
    by (simp add: followers_ok_def no_leader_def Membership_First_def om_inv_def)
  moreover have "act (r_membership q) (r_uncommitted q) = ?m" "peer 1 \<in> set (voting_replicas ?m)" "last_idx (Log_init 10000) = 0"
    using q(4) by (simp_all add: active_act Membership_First_def last_idx_def Log_init_def)
  ultimately have "raft_inv tiny_env ?r"
    using q(1-3) by (simp add: raft_inv_def base_inv_def synced_def role_ok_def newborn_def)
  then show thesis by (rule that) (use q in \<open>simp_all add: alone_def active_act newborn_def Membership_First_def no_leader_def\<close>)
qed


end
