(* ===== verification/ClientMsgs.thy ===== *)
theory ClientMsgs
  imports Util
begin

text \<open>
  The client messages of src/shared/proto/client.proto and client3.proto, the logged forms of
  src/enclave/proto/clientlog.proto, and the replicated rows of src/enclave/proto/e2e.proto.  A \<^verbatim>\<open>oneof\<close> is
  a datatype with a constructor for the unset case, a \<^verbatim>\<open>uint32\<close> and an open enumeration are 32-bit words.
  \<open>pb_request\<close>, \<open>pb_log\<close> and \<open>pb_response\<close> are the \<^verbatim>\<open>MessageLite\<close> objects that \<^verbatim>\<open>db::DB\<close> passes around, which its
  implementations narrow with \<^verbatim>\<open>dynamic_cast\<close>.
\<close>

subsection \<open>SVR2\<close>

datatype request =
    BackupRequest (bk_data: bytes) (bk_pin: bytes) (bk_max_tries: "32 word")
  | ExposeRequest bytes
  | RestoreRequest bytes
  | DeleteRequest
  | TriesRequest
  | RequestUnset

datatype backup_status = Backup_UNSET | Backup_OK
datatype expose_status = Expose_UNSET | Expose_OK | Expose_ERROR
datatype restore_status = Restore_UNSET | Restore_OK | Restore_MISSING | Restore_PIN_MISMATCH | Restore_ERROR
datatype tries_status = Tries_UNSET | Tries_OK | Tries_MISSING

datatype response =
    BackupResponse backup_status
  | ExposeResponse expose_status
  | RestoreResponse (rs_status: restore_status) (rs_data: bytes) (rs_tries: "32 word")
  | DeleteResponse
  | TriesResponse tries_status "32 word" bool
  | ResponseUnset

record log2 =
  log2_backup_id :: bytes
  log2_req :: request

record db2_row_state =
  rs2_backup_id :: bytes
  rs2_tries :: "32 word"
  rs2_data :: bytes
  rs2_pin :: bytes
  rs2_state :: "32 word"

abbreviation UNINITIATED :: "32 word" where "UNINITIATED \<equiv> 0"
abbreviation POPULATED :: "32 word" where "POPULATED \<equiv> 1"
abbreviation AVAILABLE :: "32 word" where "AVAILABLE \<equiv> 2"

subsection \<open>SVR3\<close>

datatype request3 =
    CreateRequest (cr_max_tries: "32 word") (cr_blinded: bytes)
  | EvaluateRequest bytes
  | RemoveRequest
  | QueryRequest
  | Request3Unset

datatype create_status = Create_UNSET | Create_OK | Create_INVALID_REQUEST | Create_ERROR
datatype evaluate_status =
    Evaluate_UNSET | Evaluate_OK | Evaluate_MISSING | Evaluate_INVALID_REQUEST | Evaluate_ERROR
datatype query_status = Query_UNSET | Query_OK | Query_MISSING

datatype response3 =
    CreateResponse create_status bytes
  | EvaluateResponse evaluate_status bytes "32 word"
  | RemoveResponse
  | QueryResponse query_status "32 word"
  | Response3Unset

record log3 =
  log3_backup_id :: bytes
  log3_req :: request3
  log3_create_privkey :: bytes

record db3_row_state =
  rs3_backup_id :: bytes
  rs3_priv :: bytes
  rs3_tries :: "32 word"

subsection \<open>Messages behind the database interface\<close>

datatype pb_request = PB_Request request | PB_Request3 request3
datatype pb_log = PB_Log2 log2 | PB_Log3 log3
datatype pb_response = PB_Response response | PB_Response3 response3

end
