(* ===== verification/DB2.thy ===== *)
theory DB2
  imports ClientMsgs MerkleSpec OrdMap Sip
begin

text \<open>
  src/enclave/db/db2.cc: the database of SVR2.  The state is the ordered map \<open>rows_\<close> together with the
  Merkle tree in which every row owns a leaf; operations take and return both and are \<^term>\<open>None\<close> where a CHECK
  fails.  Parameters: \<open>H\<close> is the keyed SipHash of the Merkle tree, \<open>S\<close> is the \<open>siphash\<close> function, \<open>sha\<close> is
  SHA-256, \<open>ser\<close> and \<open>parse\<close> are the generated serialisation of \<^verbatim>\<open>e2e::DB2RowState\<close>.  Metrics are left out.

\<close>

abbreviation BACKUP_ID_SIZE :: nat where "BACKUP_ID_SIZE \<equiv> 16"
abbreviation MIN_DATA_SIZE :: nat where "MIN_DATA_SIZE \<equiv> 16"
abbreviation MAX_DATA_SIZE :: nat where "MAX_DATA_SIZE \<equiv> 48"
abbreviation PIN_SIZE :: nat where "PIN_SIZE \<equiv> 32"
abbreviation MAX_ALLOWED_MAX_TRIES :: "32 word" where "MAX_ALLOWED_MAX_TRIES \<equiv> 255"
abbreviation MIN_ALLOWED_MAX_TRIES :: "32 word" where "MIN_ALLOWED_MAX_TRIES \<equiv> 1"

record db2_row =
  r2_state :: "32 word"
  r2_tries :: byte
  r2_data_size :: byte
  r2_data :: bytes
  r2_pin :: bytes
  r2_leaf :: leaf_id

type_synonym db2 = "(bytes, db2_row) omap \<times> tree"

subsection \<open>The protocol\<close>

definition DB2_MaxRowSerializedSize :: nat where
  "DB2_MaxRowSerializedSize =
     (let SMALL_BYTES_FIELD_EXTRA_PROTO_METADATA = 2; U16_AS_VARINT_MAX_SIZE = 3 in
      BACKUP_ID_SIZE + SMALL_BYTES_FIELD_EXTRA_PROTO_METADATA +
      MAX_DATA_SIZE + SMALL_BYTES_FIELD_EXTRA_PROTO_METADATA +
      PIN_SIZE + SMALL_BYTES_FIELD_EXTRA_PROTO_METADATA +
      U16_AS_VARINT_MAX_SIZE)"

definition DB2_LogPBFromRequest :: "pb_request \<Rightarrow> bytes \<Rightarrow> pb_log option \<times> error" where
  "DB2_LogPBFromRequest request authenticated_id =
     (case request of
        PB_Request3 _ \<Rightarrow> (None, E_DB2 DB2_InvalidRequestType)
      | PB_Request r \<Rightarrow>
          if length authenticated_id \<noteq> BACKUP_ID_SIZE then (None, E_DB2 DB2_ClientBackupIDSize)
          else (Some (PB_Log2 \<lparr>log2_backup_id = authenticated_id, log2_req = r\<rparr>), OK))"

definition DB2_LogKey :: "pb_log \<Rightarrow> bytes option" where
  "DB2_LogKey req = (case req of PB_Log2 r \<Rightarrow> Some (log2_backup_id r) | PB_Log3 _ \<Rightarrow> None)"

definition DB2_ValidateClientLog :: "pb_log \<Rightarrow> error" where
  "DB2_ValidateClientLog req_pb =
     (case req_pb of
        PB_Log3 _ \<Rightarrow> E_DB2 DB2_InvalidRequestType
      | PB_Log2 log \<Rightarrow>
          if length (log2_backup_id log) \<noteq> BACKUP_ID_SIZE then E_DB2 DB2_ClientBackupIDSize
          else case log2_req log of
            BackupRequest data pin max_tries \<Rightarrow>
              if length pin \<noteq> PIN_SIZE then E_DB2 DB2_ClientPinSize
              else if length data > MAX_DATA_SIZE then E_DB2 DB2_ClientDataSize
              else if length data < MIN_DATA_SIZE then E_DB2 DB2_ClientDataSize
              else if max_tries > MAX_ALLOWED_MAX_TRIES then E_DB2 DB2_ClientTriesTooHigh
              else if max_tries < MIN_ALLOWED_MAX_TRIES then E_DB2 DB2_ClientTriesZero
              else OK
          | RestoreRequest pin \<Rightarrow> if length pin \<noteq> PIN_SIZE then E_DB2 DB2_ClientPinSize else OK
          | ExposeRequest data \<Rightarrow>
              if length data > MAX_DATA_SIZE then E_DB2 DB2_ClientDataSize
              else if length data < MIN_DATA_SIZE then E_DB2 DB2_ClientDataSize
              else OK
          | TriesRequest \<Rightarrow> OK
          | DeleteRequest \<Rightarrow> OK
          | RequestUnset \<Rightarrow> E_DB2 DB2_ClientRequestCase)"

subsection \<open>Rows\<close>

definition Row2_new :: "leaf_id \<Rightarrow> db2_row" where
  "Row2_new l = \<lparr>r2_state = UNINITIATED, r2_tries = 0, r2_data_size = 0,
                 r2_data = replicate MAX_DATA_SIZE 0, r2_pin = replicate PIN_SIZE 0, r2_leaf = l\<rparr>"

definition Row2_Clear :: "32 word \<Rightarrow> db2_row \<Rightarrow> db2_row" where
  "Row2_Clear s r = r\<lparr>r2_data := replicate (length (r2_data r)) 0, r2_pin := replicate (length (r2_pin r)) 0,
                      r2_tries := 0, r2_data_size := 0, r2_state := s\<rparr>"

text \<open>\<^verbatim>\<open>std::copy\<close> of a string into an array; a longer string is undefined behaviour.\<close>

definition copy_into :: "bytes \<Rightarrow> bytes \<Rightarrow> bytes option" where
  "copy_into src dst = (if length src > length dst then None else Some (src @ drop (length src) dst))"

definition DB2_HashRow :: "siphash_fn \<Rightarrow> bytes \<Rightarrow> db2_row \<Rightarrow> bytes option" where
  "DB2_HashRow S bid row =
     (let ds = unat (r2_data_size row) in
      if length (r2_data row) < ds \<or> ds > MAX_DATA_SIZE then None
      else Some (Full_Hash16 S FullZero (bid @ BigEndian32Bytes (r2_state row) @ BigEndian32Bytes (ucast (r2_tries row)) @
                    BigEndian32Bytes (ucast (r2_data_size row)) @
                    take ds (r2_data row) @ replicate (MAX_DATA_SIZE - ds) 0 @ r2_pin row)))"

definition DB2_BackupIDFromString :: "bytes \<Rightarrow> bytes \<times> error" where
  "DB2_BackupIDFromString s =
     (if length s \<noteq> BACKUP_ID_SIZE then (replicate BACKUP_ID_SIZE 0, E_DB2 DB2_BackupIDSize) else (s, OK))"

text \<open>\<^verbatim>\<open>row->merkle_leaf_.Update(merkle::HashFrom(HashRow(id, *row)))\<close> and the corresponding \<^verbatim>\<open>Verify\<close>.\<close>

definition update_leaf2 :: "(bytes \<Rightarrow> hash) \<Rightarrow> siphash_fn \<Rightarrow> bytes \<Rightarrow> db2_row \<Rightarrow> tree \<Rightarrow> tree option" where
  "update_leaf2 H S bid row t = do { h \<leftarrow> DB2_HashRow S bid row; h8 \<leftarrow> HashFrom h; Leaf_Update H (r2_leaf row) h8 t }"

definition verify_leaf2 :: "(bytes \<Rightarrow> hash) \<Rightarrow> siphash_fn \<Rightarrow> bytes \<Rightarrow> db2_row \<Rightarrow> tree \<Rightarrow> error option" where
  "verify_leaf2 H S bid row t = do { h \<leftarrow> DB2_HashRow S bid row; h8 \<leftarrow> HashFrom h; Leaf_Verify H (r2_leaf row) h8 t }"

subsection \<open>Requests\<close>

definition DB2_Backup ::
  "(bytes \<Rightarrow> hash) \<Rightarrow> siphash_fn \<Rightarrow> bytes \<Rightarrow> bytes \<Rightarrow> bytes \<Rightarrow> 32 word \<Rightarrow> db2 \<Rightarrow> (response \<times> db2) option" where
  "DB2_Backup H S bid req_data req_pin req_max_tries db =
     (let (rows, t) = db in
      do { (row0, t1) \<leftarrow> (case map_of rows bid of
                             None \<Rightarrow> do { (l, t1) \<leftarrow> Leaf_new t; Some (Row2_new l, t1) }
                           | Some row \<Rightarrow> Some (row, t));
           let row1 = Row2_Clear POPULATED row0;
           data \<leftarrow> copy_into req_data (r2_data row1);
           pin \<leftarrow> copy_into req_pin (r2_pin row1);
           let row = row1\<lparr>r2_data := data, r2_data_size := of_nat (length req_data),
                          r2_tries := ucast req_max_tries, r2_pin := pin\<rparr>;
           t2 \<leftarrow> update_leaf2 H S bid row t1;
           Some (BackupResponse Backup_OK, (om_put bid row rows, t2)) })"

definition DB2_Restore ::
  "(bytes \<Rightarrow> hash) \<Rightarrow> siphash_fn \<Rightarrow> bytes \<Rightarrow> bytes \<Rightarrow> db2 \<Rightarrow> (response \<times> db2) option" where
  "DB2_Restore H S bid req_pin db =
     (let (rows, t) = db in
      case map_of rows bid of
        None \<Rightarrow> Some (RestoreResponse Restore_MISSING [] 0, db)
      | Some row \<Rightarrow>
          if r2_state row \<noteq> AVAILABLE then Some (RestoreResponse Restore_MISSING [] 0, db)
          else do {
            err \<leftarrow> verify_leaf2 H S bid row t;
            if err \<noteq> OK then Some (RestoreResponse Restore_ERROR [] 0, db)
            else if ConstantTimeEquals req_pin (r2_pin row) then
              Some (RestoreResponse Restore_OK (take (unat (r2_data_size row)) (r2_data row)) (ucast (r2_tries row)), db)
            else let row1 = row\<lparr>r2_tries := r2_tries row - 1\<rparr> in
              if r2_tries row1 = 0 then
                do { t1 \<leftarrow> Leaf_destroy H (r2_leaf (Row2_Clear UNINITIATED row1)) t;
                     Some (RestoreResponse Restore_MISSING [] 0, (om_del bid rows, t1)) }
              else
                do { t1 \<leftarrow> update_leaf2 H S bid row1 t;
                     Some (RestoreResponse Restore_PIN_MISMATCH [] (ucast (r2_tries row1)), (om_put bid row1 rows, t1)) } })"

definition DB2_Delete :: "(bytes \<Rightarrow> hash) \<Rightarrow> bytes \<Rightarrow> db2 \<Rightarrow> (response \<times> db2) option" where
  "DB2_Delete H bid db =
     (let (rows, t) = db in
      case map_of rows bid of
        None \<Rightarrow> Some (DeleteResponse, db)
      | Some row \<Rightarrow>
          do { t1 \<leftarrow> Leaf_destroy H (r2_leaf (Row2_Clear UNINITIATED row)) t;
               Some (DeleteResponse, (om_del bid rows, t1)) })"

definition DB2_Expose ::
  "(bytes \<Rightarrow> hash) \<Rightarrow> siphash_fn \<Rightarrow> bytes \<Rightarrow> bytes \<Rightarrow> db2 \<Rightarrow> (response \<times> db2) option" where
  "DB2_Expose H S bid req_data db =
     (let (rows, t) = db in
      case map_of rows bid of
        None \<Rightarrow> Some (ExposeResponse Expose_ERROR, db)
      | Some row \<Rightarrow>
          do { err \<leftarrow> verify_leaf2 H S bid row t;
               if err \<noteq> OK then Some (ExposeResponse Expose_ERROR, db)
               else if \<not> ConstantTimeEqualsPrefix (r2_data row) req_data (unat (r2_data_size row)) then
                 Some (ExposeResponse Expose_ERROR, db)
               else if r2_state row = POPULATED \<or> r2_state row = AVAILABLE then
                 (let row1 = row\<lparr>r2_state := AVAILABLE\<rparr> in
                  do { t1 \<leftarrow> update_leaf2 H S bid row1 t;
                       Some (ExposeResponse Expose_OK, (om_put bid row1 rows, t1)) })
               else Some (ExposeResponse Expose_ERROR, db) })"

definition DB2_Tries :: "bytes \<Rightarrow> db2 \<Rightarrow> response" where
  "DB2_Tries bid db =
     (case map_of (fst db) bid of
        None \<Rightarrow> TriesResponse Tries_MISSING 0 False
      | Some row \<Rightarrow> TriesResponse Tries_OK (ucast (r2_tries row)) (r2_state row = AVAILABLE))"

definition DB2_Run ::
  "(bytes \<Rightarrow> hash) \<Rightarrow> siphash_fn \<Rightarrow> pb_log \<Rightarrow> db2 \<Rightarrow> (pb_response \<times> db2) option" where
  "DB2_Run H S log_pb db =
     (if DB2_ValidateClientLog log_pb \<noteq> OK then None
      else case log_pb of
        PB_Log3 _ \<Rightarrow> None
      | PB_Log2 log \<Rightarrow>
          (let bid = log2_backup_id log in
           if length bid \<noteq> BACKUP_ID_SIZE then None
           else map_option (map_prod PB_Response (\<lambda>d. d))
             (case log2_req log of
                BackupRequest data pin max_tries \<Rightarrow> DB2_Backup H S bid data pin max_tries db
              | RestoreRequest pin \<Rightarrow> DB2_Restore H S bid pin db
              | DeleteRequest \<Rightarrow> DB2_Delete H bid db
              | ExposeRequest data \<Rightarrow> DB2_Expose H S bid data db
              | TriesRequest \<Rightarrow> Some (DB2_Tries bid db, db)
              | RequestUnset \<Rightarrow> Some (ResponseUnset, db))))"

subsection \<open>Replication\<close>

definition row2_state :: "bytes \<Rightarrow> db2_row \<Rightarrow> db2_row_state" where
  "row2_state bid row = \<lparr>rs2_backup_id = bid, rs2_tries = ucast (r2_tries row),
     rs2_data = (let d = r2_data row; n = unat (r2_data_size row) in take n d @ replicate (n - length d) 0),
     rs2_pin = r2_pin row, rs2_state = r2_state row\<rparr>"

fun rows2_out ::
  "(db2_row_state \<Rightarrow> bytes option) \<Rightarrow> nat \<Rightarrow> (bytes, db2_row) omap \<Rightarrow> bytes \<Rightarrow> bytes list \<Rightarrow> bytes \<times> error \<times> bytes list" where
  "rows2_out ser 0 rows last_id out = (last_id, OK, out)"
| "rows2_out ser (Suc n) [] last_id out = (last_id, OK, out)"
| "rows2_out ser (Suc n) ((bid, row) # rows) last_id out =
     (case ser (row2_state bid row) of
        None \<Rightarrow> ([], E_DB2 DB2_ReplicationInvalidRow, out @ [[]])
      | Some s \<Rightarrow> rows2_out ser n rows bid (out @ [s]))"

definition DB2_RowsAsProtos ::
  "(db2_row_state \<Rightarrow> bytes option) \<Rightarrow> bytes \<Rightarrow> nat \<Rightarrow> db2 \<Rightarrow> bytes \<times> error \<times> bytes list" where
  "DB2_RowsAsProtos ser exclusive_start max_rows db =
     (if exclusive_start = [] then rows2_out ser max_rows (fst db) [] []
      else let (bid, err) = DB2_BackupIDFromString exclusive_start in
        if err \<noteq> OK then ([], err, [])
        else rows2_out ser max_rows (om_upper_bound bid (fst db)) [] [])"

text \<open>One iteration of the loop of \<^verbatim>\<open>LoadRowsFromProtos\<close>.  The row is built in a temporary, moved into the map,
  and the temporary is destroyed.\<close>

definition load_row2 ::
  "(bytes \<Rightarrow> hash) \<Rightarrow> siphash_fn \<Rightarrow> (bytes \<Rightarrow> db2_row_state option) \<Rightarrow> bytes \<Rightarrow> db2 \<Rightarrow> (bytes \<times> error \<times> db2) option" where
  "load_row2 H S parse b db =
     (let (rows, t) = db in
      case parse b of
        None \<Rightarrow> Some ([], E_DB2 DB2_ReplicationInvalidRow, db)
      | Some row \<Rightarrow>
          if rs2_tries row > MAX_ALLOWED_MAX_TRIES \<or> length (rs2_pin row) \<noteq> PIN_SIZE \<or>
             length (rs2_data row) < MIN_DATA_SIZE \<or> length (rs2_data row) > MAX_DATA_SIZE
          then Some ([], E_DB2 DB2_ReplicationInvalidRow, db)
          else let (key, err) = DB2_BackupIDFromString (rs2_backup_id row) in
            if err \<noteq> OK then Some ([], err, db)
            else if rows \<noteq> [] \<and> key \<le> fst (last rows) then Some ([], E_DB2 DB2_ReplicationOutOfOrder, db)
            else do {
              (l, t1) \<leftarrow> Leaf_new t;
              let r0 = (Row2_new l)\<lparr>r2_state := rs2_state row\<rparr>;
              pin \<leftarrow> copy_into (rs2_pin row) (r2_pin r0);
              data \<leftarrow> copy_into (rs2_data row) (r2_data r0);
              let r = r0\<lparr>r2_pin := pin, r2_data := data, r2_data_size := of_nat (length (rs2_data row)),
                         r2_tries := ucast (rs2_tries row)\<rparr>;
              t2 \<leftarrow> update_leaf2 H S key r t1;
              (l', t3) \<leftarrow> Leaf_move l t2;
              t4 \<leftarrow> Leaf_destroy H l t3;
              Some (rs2_backup_id row, OK, (om_put key (r\<lparr>r2_leaf := l'\<rparr>) rows, t4)) })"

fun load_rows2 ::
  "(bytes \<Rightarrow> hash) \<Rightarrow> siphash_fn \<Rightarrow> (bytes \<Rightarrow> db2_row_state option) \<Rightarrow> bytes list \<Rightarrow> bytes \<Rightarrow> db2 \<Rightarrow>
   (bytes \<times> error \<times> db2) option" where
  "load_rows2 H S parse [] last_id db = Some (last_id, OK, db)"
| "load_rows2 H S parse (b # bs) last_id db =
     do { (last_id', err, db') \<leftarrow> load_row2 H S parse b db;
          if err \<noteq> OK then Some (last_id', err, db') else load_rows2 H S parse bs last_id' db' }"

definition DB2_LoadRowsFromProtos ::
  "(bytes \<Rightarrow> hash) \<Rightarrow> siphash_fn \<Rightarrow> (bytes \<Rightarrow> db2_row_state option) \<Rightarrow> bytes list \<Rightarrow> db2 \<Rightarrow>
   (bytes \<times> error \<times> db2) option" where
  "DB2_LoadRowsFromProtos H S parse rows db =
     (if rows = [] then None
      else do { (last_id, err, db') \<leftarrow> load_rows2 H S parse rows [] db;
                if err \<noteq> OK then Some (last_id, err, db')
                else if length (fst db') \<noteq> length (fst db) + length rows
                then Some ([], E_DB2 DB2_LoadedRowsAlreadyInDB, db')
                else Some (last_id, OK, db') })"

fun hash_rows2 :: "siphash_fn \<Rightarrow> (bytes, db2_row) omap \<Rightarrow> bytes option" where
  "hash_rows2 S [] = Some []"
| "hash_rows2 S ((bid, row) # rows) =
     do { h \<leftarrow> DB2_HashRow S bid row; hs \<leftarrow> hash_rows2 S rows; Some (h @ hs) }"

definition DB2_Hash :: "(bytes \<Rightarrow> bytes) \<Rightarrow> siphash_fn \<Rightarrow> db2 \<Rightarrow> bytes option" where
  "DB2_Hash sha S db =
     do { hs \<leftarrow> hash_rows2 S (fst db); Some (sha (BigEndian64Bytes (of_nat (length (fst db))) @ hs)) }"

end
