(* ===== verification/DB3.thy ===== *)
theory DB3
  imports ClientMsgs MerkleSpec OrdMap Sip
begin

text \<open>
  src/enclave/db/db3.cc: the database of SVR3, which evaluates an oblivious pseudorandom function under a
  key kept in the row.  State and conventions are those of theory DB2.  Parameters: \<open>H\<close> is the keyed SipHash
  of the Merkle tree, \<open>S\<close> the \<open>siphash\<close> function, \<open>mult\<close> is \<^verbatim>\<open>crypto_scalarmult_ristretto255\<close> (the output
  array, or \<^term>\<open>None\<close> when libsodium reports failure), \<open>new_key\<close> the result of
  \<^verbatim>\<open>crypto_core_ristretto255_scalar_random\<close>, \<open>sha\<close> SHA-256, \<open>ser\<close> and \<open>parse\<close> the generated serialisation of
  \<^verbatim>\<open>e2e::DB3RowState\<close>.
\<close>

abbreviation BACKUP_ID_SIZE3 :: nat where "BACKUP_ID_SIZE3 \<equiv> 16"
abbreviation SCALAR_SIZE :: nat where "SCALAR_SIZE \<equiv> 32"
abbreviation ELEMENT_SIZE :: nat where "ELEMENT_SIZE \<equiv> 32"

type_synonym scalarmult_fn = "bytes \<Rightarrow> bytes \<Rightarrow> bytes option"

record db3_row =
  r3_priv :: bytes
  r3_tries :: byte
  r3_leaf :: leaf_id

type_synonym db3 = "(bytes, db3_row) omap \<times> tree"

subsection \<open>The protocol\<close>

definition DB3_NewKey :: "bytes \<Rightarrow> bytes" where
  "DB3_NewKey new_key = out_array SCALAR_SIZE new_key"

definition DB3_LogPBFromRequest :: "bytes \<Rightarrow> pb_request \<Rightarrow> bytes \<Rightarrow> pb_log option \<times> error" where
  "DB3_LogPBFromRequest new_key request authenticated_id =
     (case request of
        PB_Request _ \<Rightarrow> (None, E_DB3 DB3_RequestInvalid)
      | PB_Request3 r \<Rightarrow>
          if length authenticated_id \<noteq> BACKUP_ID_SIZE3 then (None, E_DB3 DB3_BackupIDSize)
          else (Some (PB_Log3 \<lparr>log3_backup_id = authenticated_id, log3_req = r,
                  log3_create_privkey =
                    (case r of CreateRequest _ _ \<Rightarrow> ByteArrayToString SCALAR_SIZE (DB3_NewKey new_key) | _ \<Rightarrow> [])\<rparr>), OK))"

definition DB3_LogKey :: "pb_log \<Rightarrow> bytes option" where
  "DB3_LogKey req = (case req of PB_Log3 r \<Rightarrow> Some (log3_backup_id r) | PB_Log2 _ \<Rightarrow> None)"

definition DB3_ValidateClientLog :: "pb_log \<Rightarrow> error" where
  "DB3_ValidateClientLog log_pb =
     (case log_pb of
        PB_Log2 _ \<Rightarrow> E_DB3 DB3_RequestInvalid
      | PB_Log3 log \<Rightarrow>
          if length (log3_backup_id log) \<noteq> BACKUP_ID_SIZE3 then E_DB3 DB3_BackupIDSize
          else case log3_req log of
            CreateRequest max_tries blinded \<Rightarrow>
              if max_tries < 1 \<or> max_tries > 255 then E_DB3 DB3_MaxTriesOutOfRange
              else if length blinded \<noteq> ELEMENT_SIZE then E_DB3 DB3_BlindedElementSize
              else if length (log3_create_privkey log) \<noteq> SCALAR_SIZE then E_DB3 DB3_LogPrivateKeyInvalid
              else OK
          | EvaluateRequest blinded \<Rightarrow>
              if length blinded \<noteq> ELEMENT_SIZE then E_DB3 DB3_BlindedElementSize else OK
          | RemoveRequest \<Rightarrow> OK
          | QueryRequest \<Rightarrow> OK
          | Request3Unset \<Rightarrow> E_DB3 DB3_ToplevelRequestType)"

definition DB3_MaxRowSerializedSize :: nat where
  "DB3_MaxRowSerializedSize =
     (let PROTOBUF_SMALL_STRING_EXTRA = 2; PROTOBUF_SMALL_INT = 2 in
      BACKUP_ID_SIZE3 + PROTOBUF_SMALL_STRING_EXTRA + SCALAR_SIZE + PROTOBUF_SMALL_STRING_EXTRA + PROTOBUF_SMALL_INT)"

subsection \<open>Rows\<close>

definition DB3_HashRow :: "siphash_fn \<Rightarrow> bytes \<Rightarrow> db3_row \<Rightarrow> bytes option" where
  "DB3_HashRow S bid row =
     (if length bid \<noteq> BACKUP_ID_SIZE3 \<or> length (r3_priv row) \<noteq> SCALAR_SIZE then None
      else Some (Full_Hash16 S FullZero (bid @ BigEndian32Bytes (ucast (r3_tries row)) @ r3_priv row)))"

definition update_leaf3 :: "(bytes \<Rightarrow> hash) \<Rightarrow> siphash_fn \<Rightarrow> bytes \<Rightarrow> db3_row \<Rightarrow> tree \<Rightarrow> tree option" where
  "update_leaf3 H S bid row t = do { h \<leftarrow> DB3_HashRow S bid row; h8 \<leftarrow> HashFrom h; Leaf_Update H (r3_leaf row) h8 t }"

definition verify_leaf3 :: "(bytes \<Rightarrow> hash) \<Rightarrow> siphash_fn \<Rightarrow> bytes \<Rightarrow> db3_row \<Rightarrow> tree \<Rightarrow> error option" where
  "verify_leaf3 H S bid row t = do { h \<leftarrow> DB3_HashRow S bid row; h8 \<leftarrow> HashFrom h; Leaf_Verify H (r3_leaf row) h8 t }"

definition DB3_BlindEvaluate :: "scalarmult_fn \<Rightarrow> bytes \<Rightarrow> bytes \<Rightarrow> bytes \<times> error" where
  "DB3_BlindEvaluate mult key blinded_element =
     (case mult key blinded_element of
        None \<Rightarrow> (replicate ELEMENT_SIZE 0, E_DB3 DB3_ScalarMultFailure)
      | Some out \<Rightarrow> (out_array ELEMENT_SIZE out, OK))"

subsection \<open>Requests\<close>

definition DB3_Create ::
  "(bytes \<Rightarrow> hash) \<Rightarrow> siphash_fn \<Rightarrow> scalarmult_fn \<Rightarrow> bytes \<Rightarrow> bytes \<Rightarrow> 32 word \<Rightarrow> bytes \<Rightarrow> db3 \<Rightarrow> (response3 \<times> db3) option" where
  "DB3_Create H S mult bid privkey req_max_tries req_blinded db =
     (let (rows, t) = db; (elt, err1) = StringToByteArray ELEMENT_SIZE req_blinded in
      if err1 \<noteq> OK then Some (CreateResponse Create_INVALID_REQUEST [], db)
      else let (priv, err2) = StringToByteArray SCALAR_SIZE privkey in
      if err2 \<noteq> OK then Some (CreateResponse Create_ERROR [], db)
      else let (evaluated, err3) = DB3_BlindEvaluate mult priv elt in
      if err3 \<noteq> OK then Some (CreateResponse Create_ERROR [], db)
      else do {
        (l, t1) \<leftarrow> (case map_of rows bid of None \<Rightarrow> Leaf_new t | Some row \<Rightarrow> Some (r3_leaf row, t));
        let r = \<lparr>r3_priv = priv, r3_tries = ucast req_max_tries, r3_leaf = l\<rparr>;
        t2 \<leftarrow> update_leaf3 H S bid r t1;
        Some (CreateResponse Create_OK (ByteArrayToString ELEMENT_SIZE evaluated), (om_put bid r rows, t2)) })"

definition DB3_Evaluate ::
  "(bytes \<Rightarrow> hash) \<Rightarrow> siphash_fn \<Rightarrow> scalarmult_fn \<Rightarrow> bytes \<Rightarrow> bytes \<Rightarrow> db3 \<Rightarrow> (response3 \<times> db3) option" where
  "DB3_Evaluate H S mult bid req_blinded db =
     (let (rows, t) = db; (elt, err1) = StringToByteArray ELEMENT_SIZE req_blinded in
      if err1 \<noteq> OK then Some (EvaluateResponse Evaluate_INVALID_REQUEST [] 0, db)
      else case map_of rows bid of
        None \<Rightarrow> Some (EvaluateResponse Evaluate_MISSING [] 0, db)
      | Some row \<Rightarrow> do {
          err \<leftarrow> verify_leaf3 H S bid row t;
          if err \<noteq> OK then Some (EvaluateResponse Evaluate_ERROR [] 0, db)
          else let (evaluated, err2) = DB3_BlindEvaluate mult (r3_priv row) elt in
            if err2 \<noteq> OK then Some (EvaluateResponse Evaluate_ERROR [] 0, db)
            else let row1 = row\<lparr>r3_tries := r3_tries row - 1\<rparr>;
                     resp = EvaluateResponse Evaluate_OK (ByteArrayToString ELEMENT_SIZE evaluated) (ucast (r3_tries row1)) in
              if r3_tries row1 = 0
              then do { t1 \<leftarrow> Leaf_destroy H (r3_leaf row1) t; Some (resp, (om_del bid rows, t1)) }
              else do { t1 \<leftarrow> update_leaf3 H S bid row1 t; Some (resp, (om_put bid row1 rows, t1)) } })"

definition DB3_Remove :: "(bytes \<Rightarrow> hash) \<Rightarrow> bytes \<Rightarrow> db3 \<Rightarrow> (response3 \<times> db3) option" where
  "DB3_Remove H bid db =
     (let (rows, t) = db in
      case map_of rows bid of
        None \<Rightarrow> Some (RemoveResponse, db)
      | Some row \<Rightarrow> do { t1 \<leftarrow> Leaf_destroy H (r3_leaf row) t; Some (RemoveResponse, (om_del bid rows, t1)) })"

definition DB3_Query :: "bytes \<Rightarrow> db3 \<Rightarrow> response3" where
  "DB3_Query bid db =
     (case map_of (fst db) bid of
        None \<Rightarrow> QueryResponse Query_MISSING 0
      | Some row \<Rightarrow> QueryResponse Query_OK (ucast (r3_tries row)))"

definition DB3_Run ::
  "(bytes \<Rightarrow> hash) \<Rightarrow> siphash_fn \<Rightarrow> scalarmult_fn \<Rightarrow> pb_log \<Rightarrow> db3 \<Rightarrow> (pb_response \<times> db3) option" where
  "DB3_Run H S mult log_pb db =
     (if DB3_ValidateClientLog log_pb \<noteq> OK then None
      else case log_pb of
        PB_Log2 _ \<Rightarrow> None
      | PB_Log3 log \<Rightarrow>
          (let (bid, err) = StringToByteArray BACKUP_ID_SIZE3 (log3_backup_id log) in
           if err \<noteq> OK then None
           else map_option (map_prod PB_Response3 (\<lambda>d. d))
             (case log3_req log of
                CreateRequest max_tries blinded \<Rightarrow> DB3_Create H S mult bid (log3_create_privkey log) max_tries blinded db
              | EvaluateRequest blinded \<Rightarrow> DB3_Evaluate H S mult bid blinded db
              | RemoveRequest \<Rightarrow> DB3_Remove H bid db
              | QueryRequest \<Rightarrow> Some (DB3_Query bid db, db)
              | Request3Unset \<Rightarrow> None)))"

subsection \<open>Replication\<close>

definition row3_state :: "bytes \<Rightarrow> db3_row \<Rightarrow> db3_row_state" where
  "row3_state bid row = \<lparr>rs3_backup_id = ByteArrayToString BACKUP_ID_SIZE3 bid,
     rs3_priv = ByteArrayToString SCALAR_SIZE (r3_priv row), rs3_tries = ucast (r3_tries row)\<rparr>"

fun rows3_out ::
  "(db3_row_state \<Rightarrow> bytes option) \<Rightarrow> nat \<Rightarrow> (bytes, db3_row) omap \<Rightarrow> bytes \<Rightarrow> bytes list \<Rightarrow> bytes \<times> error \<times> bytes list" where
  "rows3_out ser 0 rows last_id out = (last_id, OK, out)"
| "rows3_out ser (Suc n) [] last_id out = (last_id, OK, out)"
| "rows3_out ser (Suc n) ((bid, row) # rows) last_id out =
     (case ser (row3_state bid row) of
        None \<Rightarrow> ([], E_DB3 DB3_ReplicationInvalidRow, out @ [[]])
      | Some s \<Rightarrow> rows3_out ser n rows (rs3_backup_id (row3_state bid row)) (out @ [s]))"

definition DB3_RowsAsProtos ::
  "(db3_row_state \<Rightarrow> bytes option) \<Rightarrow> bytes \<Rightarrow> nat \<Rightarrow> db3 \<Rightarrow> bytes \<times> error \<times> bytes list" where
  "DB3_RowsAsProtos ser exclusive_start max_rows db =
     (if exclusive_start = [] then rows3_out ser max_rows (fst db) [] []
      else let (bid, err) = StringToByteArray BACKUP_ID_SIZE3 exclusive_start in
        if err \<noteq> OK then ([], err, [])
        else rows3_out ser max_rows (om_upper_bound bid (fst db)) [] [])"

definition load_row3 ::
  "(bytes \<Rightarrow> hash) \<Rightarrow> siphash_fn \<Rightarrow> (bytes \<Rightarrow> db3_row_state option) \<Rightarrow> bytes \<Rightarrow> db3 \<Rightarrow> (bytes \<times> error \<times> db3) option" where
  "load_row3 H S parse b db =
     (let (rows, t) = db in
      case parse b of
        None \<Rightarrow> Some ([], E_DB3 DB3_ReplicationInvalidRow, db)
      | Some row \<Rightarrow>
          if rs3_tries row > 255 \<or> rs3_tries row < 1 then Some ([], E_DB3 DB3_ReplicationInvalidRow, db)
          else let (key, err1) = StringToByteArray BACKUP_ID_SIZE3 (rs3_backup_id row) in
            if err1 \<noteq> OK then Some ([], err1, db)
            else if rows \<noteq> [] \<and> key \<le> fst (last rows) then Some ([], E_DB3 DB3_ReplicationOutOfOrder, db)
            else let (priv, err2) = StringToByteArray SCALAR_SIZE (rs3_priv row) in
            if err2 \<noteq> OK then Some ([], err2, db)
            else do {
              (l, t1) \<leftarrow> Leaf_new t;
              let r = \<lparr>r3_priv = priv, r3_tries = ucast (rs3_tries row), r3_leaf = l\<rparr>;
              t2 \<leftarrow> update_leaf3 H S key r t1;
              (l', t3) \<leftarrow> Leaf_move l t2;
              t4 \<leftarrow> Leaf_destroy H l t3;
              Some (rs3_backup_id row, OK, (om_put key (r\<lparr>r3_leaf := l'\<rparr>) rows, t4)) })"

fun load_rows3 ::
  "(bytes \<Rightarrow> hash) \<Rightarrow> siphash_fn \<Rightarrow> (bytes \<Rightarrow> db3_row_state option) \<Rightarrow> bytes list \<Rightarrow> bytes \<Rightarrow> db3 \<Rightarrow>
   (bytes \<times> error \<times> db3) option" where
  "load_rows3 H S parse [] last_id db = Some (last_id, OK, db)"
| "load_rows3 H S parse (b # bs) last_id db =
     do { (last_id', err, db') \<leftarrow> load_row3 H S parse b db;
          if err \<noteq> OK then Some (last_id', err, db') else load_rows3 H S parse bs last_id' db' }"

definition DB3_LoadRowsFromProtos ::
  "(bytes \<Rightarrow> hash) \<Rightarrow> siphash_fn \<Rightarrow> (bytes \<Rightarrow> db3_row_state option) \<Rightarrow> bytes list \<Rightarrow> db3 \<Rightarrow>
   (bytes \<times> error \<times> db3) option" where
  "DB3_LoadRowsFromProtos H S parse rows db =
     do { (last_id, err, db') \<leftarrow> load_rows3 H S parse rows [] db;
          if err \<noteq> OK then Some (last_id, err, db')
          else if length (fst db') \<noteq> length (fst db) + length rows
          then Some ([], E_DB3 DB3_LoadedRowsAlreadyInDB, db')
          else Some (last_id, OK, db') }"

fun hash_rows3 :: "siphash_fn \<Rightarrow> (bytes, db3_row) omap \<Rightarrow> bytes option" where
  "hash_rows3 S [] = Some []"
| "hash_rows3 S ((bid, row) # rows) =
     do { h \<leftarrow> DB3_HashRow S bid row; hs \<leftarrow> hash_rows3 S rows; Some (h @ hs) }"

definition DB3_Hash :: "(bytes \<Rightarrow> bytes) \<Rightarrow> siphash_fn \<Rightarrow> db3 \<Rightarrow> bytes option" where
  "DB3_Hash sha S db =
     do { hs \<leftarrow> hash_rows3 S (fst db); Some (sha (BigEndian64Bytes (of_nat (length (fst db))) @ hs)) }"

end
