(* ===== verification/Msgs.thy ===== *)
theory Msgs
  imports RaftState Minimums
begin

text \<open>
  The protobuf messages of src/shared/proto and src/enclave/proto that the peers, the clients and the core exchange, as
  records and datatypes, and the platform interface of src/enclave/env/env.h.  The platform, which has one
  implementation for each kind of enclave, and the protobuf encoders and decoders are functions of the record
  \<open>host_env\<close>, an argument of the operations that use them.
\<close>

subsection \<open>Configuration (enclaveconfig.proto)\<close>

datatype database_version = DATABASE_VERSION_UNKNOWN | DATABASE_VERSION_SVR2 | DATABASE_VERSION_SVR3
  | DATABASE_VERSION_UNRECOGNIZED int

record enclave_config =
  ec_raft :: raft_config
  ec_e2e_txn_timeout_ticks :: nat
  ec_send_timestamp_ticks :: nat

record raft_group_config =
  gc_group_id :: nat
  gc_min_voting_replicas :: nat
  gc_max_voting_replicas :: nat
  gc_super_majority :: nat
  gc_db_version :: database_version
  gc_attestation_timeout :: nat
  gc_simulated :: bool

record init_config =
  ic_enclave_config :: enclave_config
  ic_group_config :: raft_group_config
  ic_initial_timestamp_unix_secs :: nat

subsection \<open>Attestation and enclave-to-enclave messages (attestation.proto, e2e.proto)\<close>

record attestation =
  att_evidence :: bytes
  att_endorsements :: bytes

record attestation_data =
  ad_public_key :: bytes
  ad_group_config :: "raft_group_config option"
  ad_minimum_values :: minimum_values

record connect_request =
  cr_attestation :: attestation
  cr_handshake :: bytes

record replicate_state_push =
  rp_replication_id :: nat
  rp_replication_sequence :: nat
  rp_first_log_idx :: nat
  rp_entries :: "log_entry list"
  rp_db_to_end :: bool
  rp_rows :: "bytes list"
  rp_committed_membership :: "replica_group option"

datatype txn_request_inner =
    TX_NOT_SET
  | TX_ping bool
  | TX_get_raft bool
  | TX_replicate_state nat nat
  | TX_replicate_state_push replicate_state_push
  | TX_raft_membership_request bool
  | TX_raft_voting_request bool
  | TX_raft_write bytes
  | TX_new_timestamp_unix_secs nat
  | TX_raft_removal_request bool

record transaction_request =
  tq_request_id :: nat
  tq_inner :: txn_request_inner

datatype txn_response_inner =
    TR_NOT_SET
  | TR_status error
  | TR_get_raft raft_group_config replica_group
  | TR_raft_membership_response log_location
  | TR_raft_voting_response log_location
  | TR_raft_write log_location

record transaction_response =
  tp_request_id :: nat
  tp_inner :: txn_response_inner

datatype e2e_message =
    E2E_NOT_SET
  | E2E_connected bool
  | E2E_raft_message raft_message
  | E2E_attestation_update attestation
  | E2E_transaction_request transaction_request
  | E2E_transaction_response transaction_response

subsection \<open>Messages from and to the host (msgs.proto)\<close>

datatype peer_inner = PM_NOT_SET | PM_syn bytes | PM_synack bytes | PM_data bytes | PM_rst bool

record peer_message =
  pm_peer_id :: bytes
  pm_inner :: peer_inner

datatype peer_state = PEER_DISCONNECTED | PEER_CONNECTING | PEER_CONNECTED

datatype raft_state_enum = RAFTSTATE_NO_STATE | RAFTSTATE_WAITING_FOR_FIRST_CONNECTION | RAFTSTATE_LOADING
  | RAFTSTATE_LOADED_REQUESTING_MEMBERSHIP | RAFTSTATE_LOADED_PART_OF_GROUP

record connection_status =
  cn_state :: peer_state
  cn_last_attestation_unix_secs :: nat

record enclave_peer_status =
  ps_peer_id :: bytes
  ps_replication_status :: "replication_status option"
  ps_in_raft :: bool
  ps_is_leader :: bool
  ps_is_voting :: bool
  ps_me :: bool
  ps_connection_status :: connection_status

record enclave_replica_status =
  er_peers :: "enclave_peer_status list"
  er_raft_state :: raft_state_enum

record client_handshake_start =
  hs_test_only_pubkey :: bytes
  hs_evidence :: bytes
  hs_endorsement :: bytes

datatype h2e_response_inner =
    HR_status error
  | HR_get_enclave_status_reply enclave_replica_status
  | HR_new_client_reply nat client_handshake_start
  | HR_existing_client_reply bytes bool
  | HR_metrics_reply
  | HR_hashes bytes nat bytes

record h2e_response =
  hr_request_id :: nat
  hr_inner :: h2e_response_inner

datatype enclave_message = EM_peer_message peer_message | EM_h2e_response h2e_response

datatype h2e_request_inner =
    HQ_NOT_SET
  | HQ_reconfigure enclave_config
  | HQ_get_enclave_status
  | HQ_new_client bytes
  | HQ_existing_client nat bytes
  | HQ_close_client nat
  | HQ_database_request bytes bytes
  | HQ_create_new_raft_group
  | HQ_join_raft bytes
  | HQ_ping_peer bytes
  | HQ_request_voting
  | HQ_request_metrics
  | HQ_refresh_attestation bool
  | HQ_set_log_level nat
  | HQ_relinquish_leadership
  | HQ_request_removal
  | HQ_hashes
  | HQ_metrics bool
  | HQ_reset_peer_id bytes
  | HQ_update_minimums minimum_limits

record h2e_request =
  hq_request_id :: nat
  hq_inner :: h2e_request_inner

datatype untrusted_message =
    UM_NOT_SET | UM_peer_message peer_message | UM_timer_tick nat | UM_reset_peer bytes | UM_h2e_request h2e_request

subsection \<open>The platform and the encoders\<close>

record host_env =
  Evidence :: "attestation_data \<Rightarrow> attestation \<times> error"
  Attest :: "int \<Rightarrow> attestation \<Rightarrow> attestation_data \<times> error"
  RandomBytes :: "nat \<Rightarrow> nat \<Rightarrow> bytes \<times> error"
  SendMessage :: "bytes \<Rightarrow> error"
  ser_enclave_message :: "enclave_message \<Rightarrow> bytes option"
  ser_e2e :: "e2e_message \<Rightarrow> bytes option"
  parse_e2e :: "bytes \<Rightarrow> e2e_message option"
  ser_connect :: "connect_request \<Rightarrow> bytes option"
  parse_connect :: "bytes \<Rightarrow> connect_request option"

text \<open>src/enclave/sender/sender.cc: a message to the host is serialised and handed over, both CHECKed; the messages that an
  operation sends are returned as a list.\<close>

type_synonym sent = "enclave_message list"

definition sender_Send :: "host_env \<Rightarrow> enclave_message \<Rightarrow> sent option" where
  "sender_Send E msg =
     do { serialized \<leftarrow> ser_enclave_message E msg;
          if SendMessage E serialized = OK then Some [msg] else None }"

subsection \<open>An instance\<close>

definition example_env :: host_env where
  "example_env = \<lparr>
     Evidence = \<lambda>d. (\<lparr>att_evidence = ad_public_key d, att_endorsements = []\<rparr>, OK),
     Attest = \<lambda>t a. (\<lparr>ad_public_key = att_evidence a, ad_group_config = None, ad_minimum_values = [([1], att_endorsements a)]\<rparr>, OK),
     RandomBytes = \<lambda>k n. (replicate n 7, OK),
     SendMessage = \<lambda>b. OK,
     ser_enclave_message = \<lambda>m. Some [],
     ser_e2e = \<lambda>m. (case m of E2E_NOT_SET \<Rightarrow> Some [0] | E2E_attestation_update a \<Rightarrow>
        if length (att_evidence a) < 256 then Some (1 # of_nat (length (att_evidence a)) # att_evidence a @ att_endorsements a) else None | _ \<Rightarrow> None),
     parse_e2e = \<lambda>b. (if b = [0] then Some E2E_NOT_SET else case b of
        x # n # r \<Rightarrow> if x = 1 then Some (E2E_attestation_update \<lparr>att_evidence = take (unat n) r, att_endorsements = drop (unat n) r\<rparr>) else None
      | _ \<Rightarrow> None),
     ser_connect = \<lambda>c. Some (att_evidence (cr_attestation c)),
     parse_connect = \<lambda>b. Some \<lparr>cr_attestation = \<lparr>att_evidence = take 32 b, att_endorsements = drop 32 b\<rparr>, cr_handshake = []\<rparr>\<rparr>"

end
