(* ===== verification/Database.thy ===== *)
theory Database
  imports DB2 DB3 Msgs
begin

text \<open>
  src/enclave/db/db.h and db.cc: the interface through which the core uses a database, and the choice of its
  implementation by version.  A \<^verbatim>\<open>DB*\<close> is a value of \<open>database\<close>, the rows of one of the two implementations; a virtual
  call is a case distinction on it, and the Merkle tree that it points to is passed along.  A \<^verbatim>\<open>Protocol*\<close> is one of the two static
  protocol objects.  The record \<open>db_env\<close> holds the library functions and the protobuf codecs that the databases use.
\<close>

record db_env =
  de_sip :: siphash_fn
  de_sha :: "bytes \<Rightarrow> bytes"
  de_mult :: scalarmult_fn
  de_ser_row2 :: "db2_row_state \<Rightarrow> bytes option"
  de_parse_row2 :: "bytes \<Rightarrow> db2_row_state option"
  de_ser_row3 :: "db3_row_state \<Rightarrow> bytes option"
  de_parse_row3 :: "bytes \<Rightarrow> db3_row_state option"
  de_parse_request2 :: "bytes \<Rightarrow> request option"
  de_parse_request3 :: "bytes \<Rightarrow> request3 option"
  de_ser_log2 :: "log2 \<Rightarrow> bytes option"
  de_parse_log2 :: "bytes \<Rightarrow> log2 option"
  de_ser_log3 :: "log3 \<Rightarrow> bytes option"
  de_parse_log3 :: "bytes \<Rightarrow> log3 option"
  de_ser_response :: "response \<Rightarrow> bytes option"
  de_ser_response3 :: "response3 \<Rightarrow> bytes option"

subsection \<open>Protocols\<close>

datatype protocol = db2_protocol | db3_protocol

definition DB_P :: "database_version \<Rightarrow> protocol option" where
  "DB_P version =
     (case version of
        DATABASE_VERSION_SVR2 \<Rightarrow> Some db2_protocol
      | DATABASE_VERSION_SVR3 \<Rightarrow> Some db3_protocol
      | _ \<Rightarrow> None)"

text \<open>\<^verbatim>\<open>RequestPB(ctx)\<close> and \<^verbatim>\<open>LogPB(ctx)\<close> make an empty message of the right type, which the caller then parses into.\<close>

definition RequestPB :: "db_env \<Rightarrow> protocol \<Rightarrow> bytes \<Rightarrow> pb_request option" where
  "RequestPB D p b =
     (case p of db2_protocol \<Rightarrow> map_option PB_Request (de_parse_request2 D b)
              | db3_protocol \<Rightarrow> map_option PB_Request3 (de_parse_request3 D b))"

definition LogPB :: "db_env \<Rightarrow> protocol \<Rightarrow> bytes \<Rightarrow> pb_log option" where
  "LogPB D p b =
     (case p of db2_protocol \<Rightarrow> map_option PB_Log2 (de_parse_log2 D b)
              | db3_protocol \<Rightarrow> map_option PB_Log3 (de_parse_log3 D b))"

definition LogPBFromRequest :: "protocol \<Rightarrow> bytes \<Rightarrow> pb_request \<Rightarrow> bytes \<Rightarrow> pb_log option \<times> error" where
  "LogPBFromRequest p new_key request authenticated_id =
     (case p of db2_protocol \<Rightarrow> DB2_LogPBFromRequest request authenticated_id
              | db3_protocol \<Rightarrow> DB3_LogPBFromRequest new_key request authenticated_id)"

definition LogKey :: "protocol \<Rightarrow> pb_log \<Rightarrow> bytes option" where
  "LogKey p r = (case p of db2_protocol \<Rightarrow> DB2_LogKey r | db3_protocol \<Rightarrow> DB3_LogKey r)"

definition ValidateClientLog :: "protocol \<Rightarrow> pb_log \<Rightarrow> error" where
  "ValidateClientLog p log = (case p of db2_protocol \<Rightarrow> DB2_ValidateClientLog log | db3_protocol \<Rightarrow> DB3_ValidateClientLog log)"

definition MaxRowSerializedSize :: "protocol \<Rightarrow> nat" where
  "MaxRowSerializedSize p = (case p of db2_protocol \<Rightarrow> DB2_MaxRowSerializedSize | db3_protocol \<Rightarrow> DB3_MaxRowSerializedSize)"

definition ser_log :: "db_env \<Rightarrow> pb_log \<Rightarrow> bytes option" where
  "ser_log D log = (case log of PB_Log2 l \<Rightarrow> de_ser_log2 D l | PB_Log3 l \<Rightarrow> de_ser_log3 D l)"

definition ser_response :: "db_env \<Rightarrow> pb_response \<Rightarrow> bytes option" where
  "ser_response D r = (case r of PB_Response r \<Rightarrow> de_ser_response D r | PB_Response3 r \<Rightarrow> de_ser_response3 D r)"

subsection \<open>Databases\<close>

datatype database = DB2_rows "(bytes, db2_row) omap" | DB3_rows "(bytes, db3_row) omap"

definition NewDB :: "protocol \<Rightarrow> database" where
  "NewDB p = (case p of db2_protocol \<Rightarrow> DB2_rows [] | db3_protocol \<Rightarrow> DB3_rows [])"

definition DB_Run :: "(bytes \<Rightarrow> hash) \<Rightarrow> db_env \<Rightarrow> pb_log \<Rightarrow> database \<times> tree \<Rightarrow> (pb_response \<times> database \<times> tree) option" where
  "DB_Run H D log db =
     (case db of
        (DB2_rows rows, t) \<Rightarrow> map_option (\<lambda>(r, rows, t). (r, DB2_rows rows, t)) (DB2_Run H (de_sip D) log (rows, t))
      | (DB3_rows rows, t) \<Rightarrow> map_option (\<lambda>(r, rows, t). (r, DB3_rows rows, t)) (DB3_Run H (de_sip D) (de_mult D) log (rows, t)))"

definition DB_RowsAsProtos :: "db_env \<Rightarrow> bytes \<Rightarrow> nat \<Rightarrow> database \<times> tree \<Rightarrow> bytes \<times> error \<times> bytes list" where
  "DB_RowsAsProtos D exclusive_start max_rows db =
     (case db of
        (DB2_rows rows, t) \<Rightarrow> DB2_RowsAsProtos (de_ser_row2 D) exclusive_start max_rows (rows, t)
      | (DB3_rows rows, t) \<Rightarrow> DB3_RowsAsProtos (de_ser_row3 D) exclusive_start max_rows (rows, t))"

definition DB_LoadRowsFromProtos ::
  "(bytes \<Rightarrow> hash) \<Rightarrow> db_env \<Rightarrow> bytes list \<Rightarrow> database \<times> tree \<Rightarrow> (bytes \<times> error \<times> database \<times> tree) option" where
  "DB_LoadRowsFromProtos H D protos db =
     (case db of
        (DB2_rows rows, t) \<Rightarrow>
          map_option (\<lambda>(l, e, rows, t). (l, e, DB2_rows rows, t)) (DB2_LoadRowsFromProtos H (de_sip D) (de_parse_row2 D) protos (rows, t))
      | (DB3_rows rows, t) \<Rightarrow>
          map_option (\<lambda>(l, e, rows, t). (l, e, DB3_rows rows, t)) (DB3_LoadRowsFromProtos H (de_sip D) (de_parse_row3 D) protos (rows, t)))"

definition DB_Hash :: "db_env \<Rightarrow> database \<times> tree \<Rightarrow> bytes option" where
  "DB_Hash D db =
     (case db of
        (DB2_rows rows, t) \<Rightarrow> DB2_Hash (de_sha D) (de_sip D) (rows, t)
      | (DB3_rows rows, t) \<Rightarrow> DB3_Hash (de_sha D) (de_sip D) (rows, t))"

definition row_count :: "database \<Rightarrow> nat" where
  "row_count db = (case db of DB2_rows rows \<Rightarrow> length rows | DB3_rows rows \<Rightarrow> length rows)"

text \<open>The leaves that the destructor of a database destroys with its rows.\<close>

definition DB_leaves :: "database \<Rightarrow> leaf_id list" where
  "DB_leaves db = (case db of DB2_rows rows \<Rightarrow> map (r2_leaf \<circ> snd) rows | DB3_rows rows \<Rightarrow> map (r3_leaf \<circ> snd) rows)"

end
