(* ===== verification/GuardedRows.thy ===== *)
theory GuardedRows
  imports MerkleSpec OrdMap
begin

text \<open>
  What db/db2.cc and db/db3.cc have in common: an ordered map of rows, each of which owns a leaf of the
  Merkle tree that stores the hash of the row.  \<open>guarded\<close> is the invariant of that arrangement.  The locale
  \<open>guarded_rows\<close> extends the contract of the tree with the rows and proves, once for both databases, that
  the four things the code does to a row (insert, rewrite, erase, load a replicated row) succeed and keep
  the invariant, and that leaves owned by others are left alone.
\<close>

definition owned :: "('r \<Rightarrow> 'l) \<Rightarrow> ('k, 'r) omap \<Rightarrow> 'l set" where
  "owned leaf_of rows = leaf_of ` ran (map_of rows)"

definition guarded ::
  "('t \<Rightarrow> 'l set \<Rightarrow> bool) \<Rightarrow> ('t \<Rightarrow> 'l \<Rightarrow> hash option) \<Rightarrow> ('r \<Rightarrow> 'l) \<Rightarrow> ('k::linorder \<Rightarrow> 'r \<Rightarrow> hash option) \<Rightarrow>
   ('k \<Rightarrow> 'r \<Rightarrow> bool) \<Rightarrow> ('k, 'r) omap \<times> 't \<Rightarrow> bool" where
  "guarded pending stored leaf_of rhash ok db \<longleftrightarrow>
     om_inv (fst db) \<and> pending (snd db) {} \<and>
     (\<forall>k r. map_of (fst db) k = Some r \<longrightarrow> ok k r \<and> stored (snd db) (leaf_of r) = rhash k r) \<and>
     (\<forall>k j r s. map_of (fst db) k = Some r \<longrightarrow> map_of (fst db) j = Some s \<longrightarrow> leaf_of r = leaf_of s \<longrightarrow> k = j)"

text \<open>Leaves that other owners keep in the same tree are untouched and stay with their owners.\<close>

definition kept ::
  "('t \<Rightarrow> 'l \<Rightarrow> hash option) \<Rightarrow> ('r \<Rightarrow> 'l) \<Rightarrow> ('k, 'r) omap \<times> 't \<Rightarrow> ('k, 'r) omap \<times> 't \<Rightarrow> bool" where
  "kept stored leaf_of db db' \<longleftrightarrow>
     (\<forall>l. stored (snd db) l \<noteq> None \<and> l \<notin> owned leaf_of (fst db) \<longrightarrow>
        stored (snd db') l = stored (snd db) l \<and> l \<notin> owned leaf_of (fst db'))"

lemma kept_refl [simp]: "kept stored leaf_of db db"
  by (simp add: kept_def)

lemma kept_trans: "kept stored leaf_of a b \<Longrightarrow> kept stored leaf_of b c \<Longrightarrow> kept stored leaf_of a c"
  by (auto simp: kept_def)

locale guarded_rows = integrity_tree pending stored create update verify destroy move
  for pending :: "'t \<Rightarrow> 'l set \<Rightarrow> bool" and stored :: "'t \<Rightarrow> 'l \<Rightarrow> hash option" and create update verify destroy move +
  fixes leaf_of :: "'r \<Rightarrow> 'l" and rhash :: "'k::linorder \<Rightarrow> 'r \<Rightarrow> hash option" and ok :: "'k \<Rightarrow> 'r \<Rightarrow> bool"
  assumes ok_hash: "ok k r \<Longrightarrow> rhash k r \<noteq> None"
begin

lemma guarded_put:
  assumes g: "guarded pending stored leaf_of rhash ok (rows, t)" and ok: "ok k r" and h: "rhash k r = Some h"
    and t': "pending t' {}" "stored t' = (stored t)(leaf_of r \<mapsto> h)"
    and fresh: "\<And>j s. map_of rows j = Some s \<Longrightarrow> j \<noteq> k \<Longrightarrow> leaf_of s \<noteq> leaf_of r"
    and own: "leaf_of r \<in> owned leaf_of rows \<or> stored t (leaf_of r) = None"
  shows "guarded pending stored leaf_of rhash ok (om_put k r rows, t') \<and>
         kept stored leaf_of (rows, t) (om_put k r rows, t')"
proof -
  have om: "om_inv rows" using g by (simp add: guarded_def)
  note mo = om.lookup_put [OF om, of k r]
  have "guarded pending stored leaf_of rhash ok (om_put k r rows, t')"
    using g t' ok h fresh om.inv_put [OF om] by (fastforce simp: guarded_def mo split: if_splits)
  moreover have "owned leaf_of (om_put k r rows) \<subseteq> insert (leaf_of r) (owned leaf_of rows)"
    by (auto simp: owned_def mo ran_def)
  then have "kept stored leaf_of (rows, t) (om_put k r rows, t')"
    using t'(2) own by (auto simp: kept_def)
  ultimately show ?thesis by simp
qed

lemma erase_row:
  assumes g: "guarded pending stored leaf_of rhash ok (rows, t)" and k: "map_of rows k = Some r"
  obtains t' where "destroy (leaf_of r) t = Some t'" "guarded pending stored leaf_of rhash ok (om_del k rows, t')"
    "kept stored leaf_of (rows, t) (om_del k rows, t')"
proof -
  have om: "om_inv rows" and p: "pending t {}" using g by (auto simp: guarded_def)
  have "stored t (leaf_of r) \<noteq> None" using g k ok_hash unfolding guarded_def by fastforce
  then obtain t' where t': "destroy (leaf_of r) t = Some t'" "pending t' {}" "stored t' = (stored t)(leaf_of r := None)"
    using destroy_law [OF p] by blast
  note mo = om.lookup_del [OF om, of k]
  have "guarded pending stored leaf_of rhash ok (om_del k rows, t')"
    using g t' k om.inv_del [OF om] unfolding guarded_def by (auto simp: mo)
  moreover have "leaf_of r \<in> owned leaf_of rows" using k by (auto simp: owned_def ran_def)
  then have "kept stored leaf_of (rows, t) (om_del k rows, t')"
    using t'(3) by (auto simp: kept_def owned_def mo ran_def)
  ultimately show thesis using that t'(1) by blast
qed

lemma update_row:
  assumes g: "guarded pending stored leaf_of rhash ok (rows, t)" and k: "map_of rows k = Some r0"
    and r: "leaf_of r = leaf_of r0" "ok k r" "rhash k r = Some h"
  obtains t' where "update (leaf_of r) h t = Some t'" "guarded pending stored leaf_of rhash ok (om_put k r rows, t')"
    "kept stored leaf_of (rows, t) (om_put k r rows, t')"
proof -
  have p: "pending t {}" and "stored t (leaf_of r0) = rhash k r0" "ok k r0" using g k by (auto simp: guarded_def)
  then have s: "stored t (leaf_of r) \<noteq> None" using r(1) ok_hash [of k r0] by simp
  from p s obtain t' where t': "update (leaf_of r) h t = Some t'" "pending t' {}" "stored t' = (stored t)(leaf_of r \<mapsto> h)"
    by (rule update_same)
  have "leaf_of s \<noteq> leaf_of r" if "map_of rows j = Some s" "j \<noteq> k" for j s
    using g k r(1) that by (auto simp: guarded_def)
  moreover have "leaf_of r \<in> owned leaf_of rows" using k r(1) by (auto simp: owned_def ran_def)
  ultimately show thesis using guarded_put [OF g r(2,3) t'(2,3)] that t'(1) by blast
qed

lemma fresh_leaf_of:
  assumes "guarded pending stored leaf_of rhash ok (rows, t)" "stored t l = None" "map_of rows j = Some s"
  shows "leaf_of s \<noteq> l"
  using assms ok_hash unfolding guarded_def by fastforce

lemma insert_row:
  assumes g: "guarded pending stored leaf_of rhash ok (rows, t)"
  obtains l u where "create t = Some (l, u)"
    "\<And>r h. \<lbrakk>leaf_of r = l; ok k r; rhash k r = Some h\<rbrakk> \<Longrightarrow>
       \<exists>t'. update l h u = Some t' \<and> guarded pending stored leaf_of rhash ok (om_put k r rows, t') \<and>
            kept stored leaf_of (rows, t) (om_put k r rows, t')"
proof -
  have p: "pending t {}" using g by (simp add: guarded_def)
  then obtain l u where 1: "create t = Some (l, u)" "pending u {l}" "stored t l = None"
    "stored u = (stored t)(l \<mapsto> zero_hash)" using create_law by blast
  have "\<exists>t'. update l h u = Some t' \<and> guarded pending stored leaf_of rhash ok (om_put k r rows, t') \<and>
            kept stored leaf_of (rows, t) (om_put k r rows, t')"
    if r: "leaf_of r = l" "ok k r" "rhash k r = Some h" for r h
  proof -
    obtain t' where t': "update l h u = Some t'" "pending t' {}" "stored t' = (stored t)(l \<mapsto> h)"
      using update_law [OF 1(2), of l h] 1(4) by auto
    then show ?thesis using guarded_put [OF g r(2,3), of t'] r(1) 1(3) fresh_leaf_of [OF g 1(3)] by auto
  qed
  then show thesis using that 1(1) by blast
qed

lemma load_row:
  assumes g: "guarded pending stored leaf_of rhash ok (rows, t)"
  obtains l u v l' w t' where "create t = Some (l, u)" "update l h u = Some v" "move l v = Some (l', w)"
    "destroy l w = Some t'"
    "\<And>r. \<lbrakk>leaf_of r = l'; ok k r; rhash k r = Some h\<rbrakk> \<Longrightarrow>
       guarded pending stored leaf_of rhash ok (om_put k r rows, t') \<and>
       kept stored leaf_of (rows, t) (om_put k r rows, t')"
proof -
  have "pending t {}" using g by (simp add: guarded_def)
  then obtain l u v l' w t' where 1: "create t = Some (l, u)" "update l h u = Some v" "move l v = Some (l', w)"
    "destroy l w = Some t'" "pending t' {}" "stored t l' = None" "stored t' = (stored t)(l' \<mapsto> h)"
    by (rule create_update_move)
  have "guarded pending stored leaf_of rhash ok (om_put k r rows, t') \<and>
       kept stored leaf_of (rows, t) (om_put k r rows, t')" if r: "leaf_of r = l'" "ok k r" "rhash k r = Some h" for r
    using guarded_put [OF g r(2,3) 1(5)] 1(6,7) r(1) fresh_leaf_of [OF g 1(6)] by auto
  then show thesis using that 1(1-4) by blast
qed

lemma verify_row:
  assumes "guarded pending stored leaf_of rhash ok (rows, t)" "map_of rows k = Some r" "rhash k r = Some h"
  shows "verify (leaf_of r) h t = Some OK"
  using assms verify_law [of t "leaf_of r" h h] by (auto simp: guarded_def)

end

end
