(* ===== verification/DB2Spec.thy ===== *)
theory DB2Spec
  imports DB2 GuardedRows
begin

text \<open>
  Correctness of db/db2.cc.  \<open>abs2\<close> forgets leaves, the Merkle tree and the padding of a database; \<open>spec2\<close>
  says what one request does to the row of its client.  \<open>DB2_Run\<close> refines \<open>spec2\<close> on every validated log
  entry and keeps the invariant \<open>db2_inv\<close>: it never fails a CHECK, and verification never fails.
\<close>

subsection \<open>Invariant\<close>

definition row2_hash :: "siphash_fn \<Rightarrow> bytes \<Rightarrow> db2_row \<Rightarrow> hash option" where
  "row2_hash S k r = Option.bind (DB2_HashRow S k r) HashFrom"

definition row2_ok :: "bytes \<Rightarrow> db2_row \<Rightarrow> bool" where
  "row2_ok k r \<longleftrightarrow> length k = BACKUP_ID_SIZE \<and> length (r2_data r) = MAX_DATA_SIZE \<and> length (r2_pin r) = PIN_SIZE \<and>
     MIN_DATA_SIZE \<le> unat (r2_data_size r) \<and> unat (r2_data_size r) \<le> MAX_DATA_SIZE"

definition db2_inv :: "(bytes \<Rightarrow> hash) \<Rightarrow> siphash_fn \<Rightarrow> db2 \<Rightarrow> bool" where
  "db2_inv H S db = guarded (pend H) leaf_hash r2_leaf (row2_hash S) row2_ok db"

abbreviation kept2 :: "db2 \<Rightarrow> db2 \<Rightarrow> bool" where "kept2 \<equiv> kept leaf_hash r2_leaf"

lemma row2_hash_defined: "row2_ok k r \<Longrightarrow> row2_hash S k r \<noteq> None"
  by (auto simp: row2_hash_def row2_ok_def DB2_HashRow_def HashFrom_def Let_def)

interpretation g2: guarded_rows "pend H" leaf_hash Leaf_new "Leaf_Update H" "Leaf_Verify H" "Leaf_destroy H" Leaf_move
  r2_leaf "row2_hash S" row2_ok for H S
  by unfold_locales (simp add: row2_hash_defined)

lemma update_leaf2_eq: "row2_hash S k r = Some h \<Longrightarrow> update_leaf2 H S k r t = Leaf_Update H (r2_leaf r) h t"
  by (auto simp: update_leaf2_def row2_hash_def bind_eq_Some_conv)

lemma verify_leaf2_eq: "row2_hash S k r = Some h \<Longrightarrow> verify_leaf2 H S k r t = Leaf_Verify H (r2_leaf r) h t"
  by (auto simp: verify_leaf2_def row2_hash_def bind_eq_Some_conv)

lemma db2_inv_row: "db2_inv H S (rows, t) \<Longrightarrow> map_of rows k = Some r \<Longrightarrow> row2_ok k r"
  by (simp add: db2_inv_def guarded_def)

lemma db2_inv_om: "db2_inv H S (rows, t) \<Longrightarrow> om_inv rows"
  by (simp add: db2_inv_def guarded_def)

lemma verify2:
  assumes "db2_inv H S (rows, t)" "map_of rows k = Some r"
  shows "verify_leaf2 H S k r t = Some OK"
proof -
  obtain h where h: "row2_hash S k r = Some h" using row2_hash_defined [OF db2_inv_row [OF assms]] by blast
  then show ?thesis using g2.verify_row [of H S rows t k r h] assms by (simp add: verify_leaf2_eq db2_inv_def)
qed

lemma rewrite2:
  assumes "db2_inv H S (rows, t)" "map_of rows k = Some r0" "r2_leaf r = r2_leaf r0" "row2_ok k r"
  obtains t' where "update_leaf2 H S k r t = Some t'" "db2_inv H S (om_put k r rows, t')"
    "kept2 (rows, t) (om_put k r rows, t')"
proof -
  obtain h where h: "row2_hash S k r = Some h" using row2_hash_defined assms(4) by blast
  show thesis using g2.update_row [of H S rows t k r0 r h] assms h that
    by (metis db2_inv_def update_leaf2_eq)
qed

lemma erase2:
  assumes "db2_inv H S (rows, t)" "map_of rows k = Some r"
  obtains t' where "Leaf_destroy H (r2_leaf r) t = Some t'" "db2_inv H S (om_del k rows, t')"
    "kept2 (rows, t) (om_del k rows, t')"
  using g2.erase_row [of H S rows t k r] assms that by (metis db2_inv_def)

lemma insert2:
  assumes "db2_inv H S (rows, t)"
  obtains l u where "Leaf_new t = Some (l, u)"
    "\<And>r. r2_leaf r = l \<Longrightarrow> row2_ok k r \<Longrightarrow> \<exists>t'. update_leaf2 H S k r u = Some t' \<and>
        db2_inv H S (om_put k r rows, t') \<and> kept2 (rows, t) (om_put k r rows, t')"
proof -
  obtain l u where 1: "Leaf_new t = Some (l, u)"
    "\<And>r h. \<lbrakk>r2_leaf r = l; row2_ok k r; row2_hash S k r = Some h\<rbrakk> \<Longrightarrow>
       \<exists>t'. Leaf_Update H l h u = Some t' \<and> db2_inv H S (om_put k r rows, t') \<and> kept2 (rows, t) (om_put k r rows, t')"
    using g2.insert_row [of H S rows t k] assms unfolding db2_inv_def by metis
  have "\<exists>t'. update_leaf2 H S k r u = Some t' \<and> db2_inv H S (om_put k r rows, t') \<and> kept2 (rows, t) (om_put k r rows, t')"
    if r: "r2_leaf r = l" "row2_ok k r" for r
  proof -
    obtain h where h: "row2_hash S k r = Some h" using row2_hash_defined r(2) by blast
    then show ?thesis using 1(2) [OF r h] r(1) by (simp add: update_leaf2_eq)
  qed
  then show thesis using that 1(1) by blast
qed

subsection \<open>Specification\<close>

record view2 =
  v_state :: "32 word"
  v_tries :: byte
  v_data :: bytes
  v_pin :: bytes

definition view2_of :: "db2_row \<Rightarrow> view2" where
  "view2_of r = \<lparr>v_state = r2_state r, v_tries = r2_tries r, v_data = take (unat (r2_data_size r)) (r2_data r),
                 v_pin = r2_pin r\<rparr>"

definition abs2 :: "db2 \<Rightarrow> bytes \<Rightarrow> view2 option" where
  "abs2 db k = map_option view2_of (map_of (fst db) k)"

fun spec2 :: "request \<Rightarrow> view2 option \<Rightarrow> response \<times> view2 option" where
  "spec2 (BackupRequest data pin max_tries) v =
     (BackupResponse Backup_OK,
      Some \<lparr>v_state = POPULATED, v_tries = ucast max_tries, v_data = data, v_pin = pin\<rparr>)"
| "spec2 (ExposeRequest data) None = (ExposeResponse Expose_ERROR, None)"
| "spec2 (ExposeRequest data) (Some r) =
     (if take (length (v_data r)) data = v_data r \<and> v_state r \<in> {POPULATED, AVAILABLE}
      then (ExposeResponse Expose_OK, Some (r\<lparr>v_state := AVAILABLE\<rparr>))
      else (ExposeResponse Expose_ERROR, Some r))"
| "spec2 (RestoreRequest pin) None = (RestoreResponse Restore_MISSING [] 0, None)"
| "spec2 (RestoreRequest pin) (Some r) =
     (if v_state r \<noteq> AVAILABLE then (RestoreResponse Restore_MISSING [] 0, Some r)
      else if pin = v_pin r then (RestoreResponse Restore_OK (v_data r) (ucast (v_tries r)), Some r)
      else if v_tries r = 1 then (RestoreResponse Restore_MISSING [] 0, None)
      else (RestoreResponse Restore_PIN_MISMATCH [] (ucast (v_tries r - 1)), Some (r\<lparr>v_tries := v_tries r - 1\<rparr>)))"
| "spec2 DeleteRequest v = (DeleteResponse, None)"
| "spec2 TriesRequest None = (TriesResponse Tries_MISSING 0 False, None)"
| "spec2 TriesRequest (Some r) = (TriesResponse Tries_OK (ucast (v_tries r)) (v_state r = AVAILABLE), Some r)"
| "spec2 RequestUnset v = (ResponseUnset, v)"

text \<open>What it means that an operation, started in \<open>db\<close>, implements the specification for client \<open>k\<close>.\<close>

definition refines2 :: "(bytes \<Rightarrow> hash) \<Rightarrow> siphash_fn \<Rightarrow> bytes \<Rightarrow> request \<Rightarrow> db2 \<Rightarrow> (response \<times> db2) option \<Rightarrow> bool" where
  "refines2 H S k req db out \<longleftrightarrow>
     (\<exists>resp db'. out = Some (resp, db') \<and> db2_inv H S db' \<and> kept2 db db' \<and>
        (resp, abs2 db' k) = spec2 req (abs2 db k) \<and> (\<forall>j. j \<noteq> k \<longrightarrow> abs2 db' j = abs2 db j))"

lemma abs2_put:
  "om_inv rows \<Longrightarrow> abs2 (om_put k r rows, t') = (abs2 (rows, t))(k \<mapsto> view2_of r)"
  by (auto simp: abs2_def fun_eq_iff om.lookup_put)

lemma abs2_del:
  "om_inv rows \<Longrightarrow> abs2 (om_del k rows, t') = (abs2 (rows, t))(k := None)"
  by (auto simp: abs2_def fun_eq_iff om.lookup_del)

lemma Backup_refines:
  assumes inv: "db2_inv H S (rows, t)" and k: "length k = BACKUP_ID_SIZE" "length pin = PIN_SIZE"
    and d: "MIN_DATA_SIZE \<le> length data" "length data \<le> MAX_DATA_SIZE"
  shows "refines2 H S k (BackupRequest data pin n) (rows, t) (DB2_Backup H S k data pin n (rows, t))"
proof -
  define up where "up = (\<lambda>r. (Row2_Clear POPULATED r)\<lparr>r2_data := data @ drop (length data) (r2_data (Row2_Clear POPULATED r)),
                r2_data_size := of_nat (length data), r2_tries := ucast n, r2_pin := pin\<rparr>)"
  have ds: "unat (of_nat (length data) :: byte) = length data"
    using d by (simp add: unat_of_nat_byte)
  have ok: "row2_ok k (up r)" "view2_of (up r) = \<lparr>v_state = POPULATED, v_tries = ucast n, v_data = data, v_pin = pin\<rparr>"
    "r2_leaf (up r) = r2_leaf r"
    if "length (r2_data r) = MAX_DATA_SIZE" "length (r2_pin r) = PIN_SIZE" for r
    using that k d by (auto simp: row2_ok_def ds view2_of_def Row2_Clear_def up_def)
  note om = db2_inv_om [OF inv]
  show ?thesis
  proof (cases "map_of rows k")
    case None
    obtain l u where l: "Leaf_new t = Some (l, u)"
      "\<And>r. r2_leaf r = l \<Longrightarrow> row2_ok k r \<Longrightarrow> \<exists>t'. update_leaf2 H S k r u = Some t' \<and>
        db2_inv H S (om_put k r rows, t') \<and> kept2 (rows, t) (om_put k r rows, t')"
      using insert2 [OF inv, of k] by metis
    have r: "length (r2_data (Row2_new l)) = MAX_DATA_SIZE" "length (r2_pin (Row2_new l)) = PIN_SIZE" "r2_leaf (Row2_new l) = l"
      by (simp_all add: Row2_new_def)
    obtain t' where t': "update_leaf2 H S k (up (Row2_new l)) u = Some t'"
      "db2_inv H S (om_put k (up (Row2_new l)) rows, t')" "kept2 (rows, t) (om_put k (up (Row2_new l)) rows, t')"
      using l(2) [of "up (Row2_new l)"] ok [OF r(1,2)] r(3) by metis
    have "DB2_Backup H S k data pin n (rows, t) = Some (BackupResponse Backup_OK, (om_put k (up (Row2_new l)) rows, t'))"
      using None l(1) t'(1) k d r by (simp add: DB2_Backup_def copy_into_def Row2_Clear_def Let_def up_def)
    then show ?thesis using t'(2,3) abs2_put [OF om, of k "up (Row2_new l)" t' t] ok(2) [OF r(1,2)]
      by (simp add: refines2_def)
  next
    case (Some r0)
    have r: "length (r2_data r0) = MAX_DATA_SIZE" "length (r2_pin r0) = PIN_SIZE"
      using db2_inv_row [OF inv Some] by (auto simp: row2_ok_def)
    obtain t' where t': "update_leaf2 H S k (up r0) t = Some t'" "db2_inv H S (om_put k (up r0) rows, t')"
      "kept2 (rows, t) (om_put k (up r0) rows, t')"
      using rewrite2 [OF inv Some ok(3) [OF r] ok(1) [OF r]] by metis
    have "DB2_Backup H S k data pin n (rows, t) = Some (BackupResponse Backup_OK, (om_put k (up r0) rows, t'))"
      using Some t'(1) k d r by (simp add: DB2_Backup_def copy_into_def Row2_Clear_def Let_def up_def)
    then show ?thesis using t'(2,3) abs2_put [OF om, of k "up r0" t' t] ok(2) [OF r]
      by (simp add: refines2_def)
  qed
qed

lemma Restore_refines:
  assumes inv: "db2_inv H S (rows, t)"
  shows "refines2 H S k (RestoreRequest pin) (rows, t) (DB2_Restore H S k pin (rows, t))"
proof (cases "map_of rows k")
  case None
  then show ?thesis using inv by (auto simp: refines2_def DB2_Restore_def abs2_def)
next
  case (Some r)
  note ok = db2_inv_row [OF inv Some] and om = db2_inv_om [OF inv]
  have v: "abs2 (rows, t) k = Some (view2_of r)" using Some by (simp add: abs2_def)
  let ?r = "r\<lparr>r2_tries := r2_tries r - 1\<rparr>"
  have r1: "r2_tries r - 1 = 0 \<longleftrightarrow> r2_tries r = 1" by auto
  have "row2_ok k ?r" "r2_leaf ?r = r2_leaf r" using ok by (auto simp: row2_ok_def)
  with rewrite2 [OF inv Some] obtain t1 where t1: "update_leaf2 H S k ?r t = Some t1"
    "db2_inv H S (om_put k ?r rows, t1)" "kept2 (rows, t) (om_put k ?r rows, t1)" by metis
  obtain t2 where t2: "Leaf_destroy H (r2_leaf r) t = Some t2" "db2_inv H S (om_del k rows, t2)"
    "kept2 (rows, t) (om_del k rows, t2)" by (rule erase2 [OF inv Some])
  have v1: "view2_of ?r = (view2_of r)\<lparr>v_tries := r2_tries r - 1\<rparr>" by (simp add: view2_of_def)
  consider "r2_state r \<noteq> AVAILABLE" | "r2_state r = AVAILABLE" "pin = r2_pin r"
    | "r2_state r = AVAILABLE" "pin \<noteq> r2_pin r" "r2_tries r = 1"
    | "r2_state r = AVAILABLE" "pin \<noteq> r2_pin r" "r2_tries r \<noteq> 1" by blast
  then show ?thesis
  proof cases
    case 1
    then show ?thesis using inv Some v by (simp add: refines2_def DB2_Restore_def view2_of_def)
  next
    case 2
    then show ?thesis using inv Some v verify2 [OF inv Some] by (simp add: refines2_def DB2_Restore_def view2_of_def)
  next
    case 3
    then have "DB2_Restore H S k pin (rows, t) = Some (RestoreResponse Restore_MISSING [] 0, (om_del k rows, t2))"
      using Some verify2 [OF inv Some] t2(1) by (simp add: DB2_Restore_def Row2_Clear_def Let_def)
    then show ?thesis using 3 v t2 abs2_del [OF om, of k t2 t] by (simp add: refines2_def) (simp add: view2_of_def)
  next
    case 4
    then have "DB2_Restore H S k pin (rows, t) =
        Some (RestoreResponse Restore_PIN_MISMATCH [] (ucast (r2_tries r - 1)), (om_put k ?r rows, t1))"
      using Some verify2 [OF inv Some] t1(1) r1 by (simp add: DB2_Restore_def Let_def)
    then show ?thesis using 4 v v1 t1 abs2_put [OF om, of k ?r t1 t] by (simp add: refines2_def) (simp add: view2_of_def)
  qed
qed

lemma Delete_refines:
  assumes inv: "db2_inv H S (rows, t)"
  shows "refines2 H S k DeleteRequest (rows, t) (DB2_Delete H k (rows, t))"
proof (cases "map_of rows k")
  case None
  then show ?thesis using inv by (auto simp: refines2_def DB2_Delete_def abs2_def)
next
  case (Some r)
  obtain t2 where t2: "Leaf_destroy H (r2_leaf r) t = Some t2" "db2_inv H S (om_del k rows, t2)"
    "kept2 (rows, t) (om_del k rows, t2)" by (rule erase2 [OF inv Some])
  then show ?thesis using Some abs2_del [OF db2_inv_om [OF inv], of k t2 t]
    by (simp add: refines2_def DB2_Delete_def Row2_Clear_def)
qed

lemma Expose_refines:
  assumes inv: "db2_inv H S (rows, t)"
  shows "refines2 H S k (ExposeRequest data) (rows, t) (DB2_Expose H S k data (rows, t))"
proof (cases "map_of rows k")
  case None
  then show ?thesis using inv by (auto simp: refines2_def DB2_Expose_def abs2_def)
next
  case (Some r)
  note ok = db2_inv_row [OF inv Some]
  let ?r = "r\<lparr>r2_state := AVAILABLE\<rparr>"
  have v: "abs2 (rows, t) k = Some (view2_of r)" using Some by (simp add: abs2_def)
  have "row2_ok k ?r" "r2_leaf ?r = r2_leaf r" using ok by (auto simp: row2_ok_def)
  with rewrite2 [OF inv Some] obtain t1 where t1: "update_leaf2 H S k ?r t = Some t1"
    "db2_inv H S (om_put k ?r rows, t1)" "kept2 (rows, t) (om_put k ?r rows, t1)" by metis
  have v1: "view2_of ?r = (view2_of r)\<lparr>v_state := AVAILABLE\<rparr>" by (simp add: view2_of_def)
  let ?n = "unat (r2_data_size r)"
  have lv: "length (v_data (view2_of r)) = ?n" using ok by (simp add: view2_of_def row2_ok_def)
  then have p: "ConstantTimeEqualsPrefix (r2_data r) data ?n \<longleftrightarrow> take (length (v_data (view2_of r))) data = v_data (view2_of r)"
    using ok unfolding lv by (auto simp: ConstantTimeEqualsPrefix_iff row2_ok_def view2_of_def dest: arg_cong [of _ _ length])
  have st: "v_state (view2_of r) = r2_state r" by (simp add: view2_of_def)
  show ?thesis
  proof (cases "ConstantTimeEqualsPrefix (r2_data r) data ?n \<and> r2_state r \<in> {POPULATED, AVAILABLE}")
    case True
    then have "DB2_Expose H S k data (rows, t) = Some (ExposeResponse Expose_OK, (om_put k ?r rows, t1))"
      using Some verify2 [OF inv Some] t1(1) by (auto simp: DB2_Expose_def Let_def)
    then show ?thesis using True p v v1 st t1 abs2_put [OF db2_inv_om [OF inv], of k ?r t1 t] by (simp add: refines2_def)
  next
    case False
    then have "DB2_Expose H S k data (rows, t) = Some (ExposeResponse Expose_ERROR, (rows, t))"
      using Some verify2 [OF inv Some] by (auto simp: DB2_Expose_def)
    then show ?thesis using False p v st inv by (auto simp: refines2_def)
  qed
qed

lemma Tries_refines:
  assumes "db2_inv H S (rows, t)"
  shows "refines2 H S k TriesRequest (rows, t) (Some (DB2_Tries k (rows, t), (rows, t)))"
  using assms by (cases "map_of rows k") (auto simp: refines2_def DB2_Tries_def abs2_def view2_of_def)

lemma DB2_Run_refines:
  assumes "db2_inv H S db" "DB2_ValidateClientLog (PB_Log2 log) = OK"
  shows "\<exists>resp db'. DB2_Run H S (PB_Log2 log) db = Some (PB_Response resp, db') \<and> db2_inv H S db' \<and> kept2 db db' \<and>
    (resp, abs2 db' (log2_backup_id log)) = spec2 (log2_req log) (abs2 db (log2_backup_id log)) \<and>
    (\<forall>j. j \<noteq> log2_backup_id log \<longrightarrow> abs2 db' j = abs2 db j)"
proof -
  obtain rows t where db: "db = (rows, t)" by (cases db)
  let ?k = "log2_backup_id log"
  let ?out = "case log2_req log of
                BackupRequest data pin max_tries \<Rightarrow> DB2_Backup H S ?k data pin max_tries db
              | RestoreRequest pin \<Rightarrow> DB2_Restore H S ?k pin db
              | DeleteRequest \<Rightarrow> DB2_Delete H ?k db
              | ExposeRequest data \<Rightarrow> DB2_Expose H S ?k data db
              | TriesRequest \<Rightarrow> Some (DB2_Tries ?k db, db)
              | RequestUnset \<Rightarrow> Some (ResponseUnset, db)"
  have len: "length ?k = BACKUP_ID_SIZE" using assms(2) by (auto simp: DB2_ValidateClientLog_def split: if_splits)
  have "refines2 H S ?k (log2_req log) db ?out"
    using assms unfolding db
    by (cases "log2_req log")
      (auto simp: DB2_ValidateClientLog_def Restore_refines Delete_refines Expose_refines Tries_refines
        intro!: Backup_refines split: if_splits)
  moreover have "DB2_Run H S (PB_Log2 log) db = map_option (map_prod PB_Response (\<lambda>d. d)) ?out"
    using assms(2) len by (simp add: DB2_Run_def Let_def)
  ultimately show ?thesis unfolding refines2_def by auto
qed

end
