(* ===== verification/ReplDB.thy ===== *)
theory ReplDB
  imports Prelude
begin

text \<open>
  The contract between the database interface (src/enclave/db/db.h) and the log that drives it: \<^verbatim>\<open>Run\<close> on a
  validated log entry returns, and its response and the new contents are functions of the old contents.
  The locale \<open>replicated_db\<close> proves from it that replicas which apply the same committed entries to equal
  contents stay equal and answer alike.
\<close>

text \<open>Applying committed entries in order, as Core does with \<^verbatim>\<open>TakeCommittedLog\<close>.\<close>

primrec run_all :: "('log \<Rightarrow> 's \<Rightarrow> ('r \<times> 's) option) \<Rightarrow> 'log list \<Rightarrow> 's \<Rightarrow> ('r list \<times> 's) option" where
  "run_all run [] s = Some ([], s)"
| "run_all run (l # ls) s =
     do { (r, s1) \<leftarrow> run l s; (rs, s2) \<leftarrow> run_all run ls s1; Some (r # rs, s2) }"

primrec step_all :: "('log \<Rightarrow> 'v \<Rightarrow> 'r \<times> 'v) \<Rightarrow> 'log list \<Rightarrow> 'v \<Rightarrow> 'r list \<times> 'v" where
  "step_all step [] v = ([], v)"
| "step_all step (l # ls) v = (let (r, v1) = step l v; (rs, v2) = step_all step ls v1 in (r # rs, v2))"

locale replicated_db =
  fixes inv :: "'s \<Rightarrow> bool"
    and view :: "'s \<Rightarrow> 'v"
    and valid :: "'log \<Rightarrow> bool"
    and run :: "'log \<Rightarrow> 's \<Rightarrow> ('r \<times> 's) option"
    and step :: "'log \<Rightarrow> 'v \<Rightarrow> 'r \<times> 'v"
  assumes run_law: "inv s \<Longrightarrow> valid l \<Longrightarrow> \<exists>r s'. run l s = Some (r, s') \<and> inv s' \<and> step l (view s) = (r, view s')"
begin

lemma run_all_law:
  "inv s \<Longrightarrow> list_all valid ls \<Longrightarrow>
   \<exists>rs s'. run_all run ls s = Some (rs, s') \<and> inv s' \<and> step_all step ls (view s) = (rs, view s')"
proof (induction ls arbitrary: s)
  case (Cons l ls)
  obtain r s1 where 1: "run l s = Some (r, s1)" "inv s1" "step l (view s) = (r, view s1)"
    using run_law [of s l] Cons.prems by auto
  obtain rs s2 where "run_all run ls s1 = Some (rs, s2)" "inv s2" "step_all step ls (view s1) = (rs, view s2)"
    using Cons.IH [OF 1(2)] Cons.prems by auto
  with 1 show ?case by simp
qed simp

lemma replicas_agree:
  assumes "inv s" "inv u" "view s = view u" "list_all valid ls"
  shows "\<exists>rs s' u'. run_all run ls s = Some (rs, s') \<and> run_all run ls u = Some (rs, u') \<and>
           inv s' \<and> inv u' \<and> view s' = view u'"
  using run_all_law [OF assms(1,4)] run_all_law [OF assms(2,4)] assms(3) by auto

end

end
