(* ===== verification/DB2Props.thy ===== *)
theory DB2Props
  imports DB2Spec ReplDB
begin

text \<open>
  What the refinement of db/db2.cc gives: replicas that apply the same log agree (\<open>replicated_db\<close>), guesses of
  a PIN are limited by the tries of the row, rows that were not exposed are never restored, and rows
  replicated with \<^verbatim>\<open>RowsAsProtos\<close> and \<^verbatim>\<open>LoadRowsFromProtos\<close> arrive unchanged.
\<close>

subsection \<open>Replicas\<close>

definition step2 :: "pb_log \<Rightarrow> (bytes \<Rightarrow> view2 option) \<Rightarrow> pb_response \<times> (bytes \<Rightarrow> view2 option)" where
  "step2 l v = (case l of
      PB_Log2 log \<Rightarrow> (let (resp, r) = spec2 (log2_req log) (v (log2_backup_id log))
                      in (PB_Response resp, v(log2_backup_id log := r)))
    | PB_Log3 _ \<Rightarrow> (PB_Response ResponseUnset, v))"

lemma step2_Log2: "step2 (PB_Log2 log) v =
    (PB_Response (fst (spec2 (log2_req log) (v (log2_backup_id log)))),
     v(log2_backup_id log := snd (spec2 (log2_req log) (v (log2_backup_id log)))))"
  by (simp add: step2_def split_def Let_def)

definition valid2 :: "pb_log \<Rightarrow> bool" where
  "valid2 l = (DB2_ValidateClientLog l = OK)"

interpretation r2: replicated_db "db2_inv H S" abs2 valid2 "DB2_Run H S" step2 for H S
proof
  fix s l assume inv: "db2_inv H S s" and v: "valid2 l"
  obtain log where l: "l = PB_Log2 log" using v by (cases l) (auto simp: valid2_def DB2_ValidateClientLog_def)
  let ?k = "log2_backup_id log"
  obtain resp db' where r: "DB2_Run H S l s = Some (PB_Response resp, db')" "db2_inv H S db'"
    "(resp, abs2 db' ?k) = spec2 (log2_req log) (abs2 s ?k)" "\<forall>j. j \<noteq> ?k \<longrightarrow> abs2 db' j = abs2 s j"
    using DB2_Run_refines [OF inv, of log] v l by (auto simp: valid2_def)
  have "(abs2 s)(?k := abs2 db' ?k) = abs2 db'" using r(4) by auto
  then show "\<exists>r s'. DB2_Run H S l s = Some (r, s') \<and> db2_inv H S s' \<and> step2 l (abs2 s) = (r, abs2 s')"
    using r(1-3) l by (auto simp: step2_def simp flip: r(3))
qed

subsection \<open>Guessing\<close>

text \<open>The restore attempts for client \<open>k\<close> in a run: the PIN tried and the status answered.\<close>

fun attempts :: "bytes \<Rightarrow> pb_log list \<Rightarrow> pb_response list \<Rightarrow> (bytes \<times> restore_status) list" where
  "attempts k (PB_Log2 log # ls) (PB_Response (RestoreResponse st d n) # rs) =
     (case log2_req log of
        RestoreRequest pin \<Rightarrow> if log2_backup_id log = k then (pin, st) # attempts k ls rs else attempts k ls rs
      | _ \<Rightarrow> attempts k ls rs)"
| "attempts k (l # ls) (r # rs) = attempts k ls rs"
| "attempts k _ _ = []"

definition backs_up :: "bytes \<Rightarrow> pb_log \<Rightarrow> bool" where
  "backs_up k l = (case l of PB_Log2 log \<Rightarrow> log2_backup_id log = k \<and>
       (case log2_req log of BackupRequest _ _ _ \<Rightarrow> True | _ \<Rightarrow> False) | PB_Log3 _ \<Rightarrow> False)"

definition mismatches :: "(bytes \<times> restore_status) list \<Rightarrow> nat" where
  "mismatches as = length (filter (\<lambda>(p, s). s = Restore_PIN_MISMATCH) as)"

lemma attempts_Cons:
  "attempts k (PB_Log2 log # ls) (PB_Response r # rs) =
     (case (log2_req log, r) of
        (RestoreRequest pin, RestoreResponse st d n) \<Rightarrow>
          if log2_backup_id log = k then (pin, st) # attempts k ls rs else attempts k ls rs
      | _ \<Rightarrow> attempts k ls rs)"
  by (cases r; cases "log2_req log") auto

lemma step2_absent:
  "\<lbrakk>step_all step2 ls v = (rs, v'); v k = None; list_all valid2 ls; list_all (\<lambda>l. \<not> backs_up k l) ls\<rbrakk> \<Longrightarrow>
   v' k = None \<and> (\<forall>(p, s) \<in> set (attempts k ls rs). s = Restore_MISSING)"
proof (induction ls arbitrary: v rs)
  case (Cons l ls)
  obtain log where l: "l = PB_Log2 log" using Cons.prems by (cases l) (auto simp: valid2_def DB2_ValidateClientLog_def)
  obtain resp r where s: "spec2 (log2_req log) (v (log2_backup_id log)) = (resp, r)" by fastforce
  let ?v1 = "v(log2_backup_id log := r)"
  obtain rs1 where 1: "step_all step2 ls ?v1 = (rs1, v')" "rs = PB_Response resp # rs1"
    using Cons.prems(1) by (auto simp: l step2_Log2 s split: prod.splits)
  have n: "?v1 k = None"
    using s Cons.prems(2,4) by (cases "log2_req log") (auto simp: l backs_up_def)
  have "v' k = None \<and> (\<forall>(p, s) \<in> set (attempts k ls rs1). s = Restore_MISSING)"
    using Cons.IH [OF 1(1) n] Cons.prems by auto
  then show ?case using s Cons.prems(2,4)
    by (cases "log2_req log") (auto simp: l 1(2) attempts_Cons split: response.splits if_splits)
qed simp

lemma spec2_keeps:
  assumes "spec2 req (Some r) = (resp, Some r2)" "\<forall>d p n. req \<noteq> BackupRequest d p n" "0 < unat (v_tries r)"
  shows "v_pin r2 = v_pin r \<and> v_data r2 = v_data r \<and> 0 < unat (v_tries r2) \<and>
    unat (v_tries r2) + (if \<exists>d n. resp = RestoreResponse Restore_PIN_MISMATCH d n then 1 else 0) = unat (v_tries r)"
proof (cases req)
  case (RestoreRequest pin)
  show ?thesis
  proof (cases "v_state r = AVAILABLE \<and> pin \<noteq> v_pin r \<and> v_tries r \<noteq> 1")
    case True
    then have r2: "r2 = r\<lparr>v_tries := v_tries r - 1\<rparr>" "\<exists>d n. resp = RestoreResponse Restore_PIN_MISMATCH d n"
      using assms(1) RestoreRequest by auto
    have "v_tries r \<noteq> 0" using assms(3) by auto
    then have u: "Suc (unat (v_tries r - 1)) = unat (v_tries r)" using assms(3) by (simp add: unat_minus_one)
    have "v_tries r - 1 \<noteq> 0" using True by auto
    then have "0 < unat (v_tries r - 1)" by (simp add: unat_gt_0)
    then show ?thesis using r2 u by simp
  qed (use assms RestoreRequest in \<open>auto split: if_splits\<close>)
qed (use assms in \<open>auto split: if_splits\<close>)

lemma step2_guesses:
  "\<lbrakk>step_all step2 ls v = (rs, v'); v k = Some r; 0 < unat (v_tries r); list_all valid2 ls;
    list_all (\<lambda>l. \<not> backs_up k l) ls\<rbrakk> \<Longrightarrow>
   mismatches (attempts k ls rs) < unat (v_tries r) \<and>
   (\<forall>(p, s) \<in> set (attempts k ls rs). (s = Restore_OK \<longrightarrow> p = v_pin r) \<and> (s = Restore_PIN_MISMATCH \<longrightarrow> p \<noteq> v_pin r)) \<and>
   (case v' k of None \<Rightarrow> True
    | Some r' \<Rightarrow> v_pin r' = v_pin r \<and> v_data r' = v_data r \<and>
        unat (v_tries r') + mismatches (attempts k ls rs) = unat (v_tries r))"
proof (induction ls arbitrary: v rs r)
  case (Cons l ls)
  obtain log where l: "l = PB_Log2 log" using Cons.prems by (cases l) (auto simp: valid2_def DB2_ValidateClientLog_def)
  obtain resp r1 where s: "spec2 (log2_req log) (v (log2_backup_id log)) = (resp, r1)" by fastforce
  let ?v1 = "v(log2_backup_id log := r1)"
  obtain rs1 where 1: "step_all step2 ls ?v1 = (rs1, v')" "rs = PB_Response resp # rs1"
    using Cons.prems(1) by (auto simp: l step2_Log2 s split: prod.splits)
  have vs: "list_all valid2 ls" "list_all (\<lambda>l. \<not> backs_up k l) ls" using Cons.prems by auto
  show ?case
  proof (cases "log2_backup_id log = k")
    case False
    then have "attempts k (l # ls) rs = attempts k ls rs1"
      by (auto simp: l 1(2) attempts_Cons split: request.splits response.splits)
    moreover have "?v1 k = Some r" using False Cons.prems(2) by simp
    ultimately show ?thesis using Cons.IH [OF 1(1) _ Cons.prems(3) vs] by (auto split: option.splits)
  next
    case True
    then have s': "spec2 (log2_req log) (Some r) = (resp, r1)" using s Cons.prems(2) by simp
    have nb: "\<forall>d p n. log2_req log \<noteq> BackupRequest d p n" using Cons.prems(5) True by (auto simp: l backs_up_def)
    show ?thesis
    proof (cases r1)
      case None
      then have "attempts k ls rs1 = attempts k ls rs1" "\<forall>(p, s) \<in> set (attempts k ls rs1). s = Restore_MISSING" "v' k = None"
        using step2_absent [OF 1(1) _ vs] True by auto
      moreover have "mismatches (attempts k ls rs1) = 0"
        using calculation(2) by (auto simp: mismatches_def filter_empty_conv)
      ultimately show ?thesis using s' None True nb Cons.prems(3)
        by (cases "log2_req log")
          (auto simp: l 1(2) attempts_Cons mismatches_def split: response.splits if_splits)
    next
      case (Some r2)
      let ?m = "\<exists>d n. resp = RestoreResponse Restore_PIN_MISMATCH d n"
      have r2: "v_pin r2 = v_pin r" "v_data r2 = v_data r" "0 < unat (v_tries r2)"
        "unat (v_tries r2) + (if ?m then 1 else 0) = unat (v_tries r)"
        using spec2_keeps [OF s' [unfolded Some] nb Cons.prems(3)] by auto
      have a: "attempts k (l # ls) rs = (case (log2_req log, resp) of
          (RestoreRequest pin, RestoreResponse st d n) \<Rightarrow> [(pin, st)] | _ \<Rightarrow> []) @ attempts k ls rs1" (is "_ = ?h @ _")
        using True by (auto simp: l 1(2) attempts_Cons split: request.splits response.splits)
      have "mismatches ?h = (if ?m then 1 else 0)"
        using s' Some by (cases "log2_req log") (auto simp: mismatches_def split: response.splits if_splits)
      moreover have "\<forall>(p, s) \<in> set ?h. (s = Restore_OK \<longrightarrow> p = v_pin r) \<and> (s = Restore_PIN_MISMATCH \<longrightarrow> p \<noteq> v_pin r)"
        using s' Some by (cases "log2_req log") (auto split: response.splits if_splits)
      moreover have "mismatches (?h @ attempts k ls rs1) = mismatches ?h + mismatches (attempts k ls rs1)"
        by (simp add: mismatches_def)
      ultimately show ?thesis
        using Cons.IH [OF 1(1) _ r2(3) vs] True Some r2 unfolding a by (auto split: option.splits)
    qed
  qed
qed (auto simp: mismatches_def)

subsection \<open>Replication of rows\<close>

definition rows_view :: "db2 \<Rightarrow> (bytes \<times> view2) list" where
  "rows_view db = map (\<lambda>(k, r). (k, view2_of r)) (fst db)"

lemma map_of_rows_view: "map_of (rows_view db) = abs2 db"
proof -
  have "map_of (map (\<lambda>(k, r). (k, view2_of r)) xs) k = map_option view2_of (map_of xs k)" for xs k
    by (induction xs) auto
  then show ?thesis by (auto simp: rows_view_def abs2_def fun_eq_iff)
qed

lemma om_inv_rows_view: "om_inv (fst db) \<Longrightarrow> om_inv (rows_view db)"
  by (simp add: om_inv_def rows_view_def case_prod_unfold comp_def)

lemma rows_view_abs2: "db2_inv H S a \<Longrightarrow> db2_inv H S b \<Longrightarrow> abs2 a = abs2 b \<Longrightarrow> rows_view a = rows_view b"
  by (metis db2_inv_om map_of_rows_view om.extensional om_inv_rows_view prod.collapse)

lemma row2_state_data: "row2_ok k r \<Longrightarrow> rs2_data (row2_state k r) = take (unat (r2_data_size r)) (r2_data r)"
  by (simp add: row2_state_def row2_ok_def Let_def)

lemma load_row2_view:
  assumes inv: "db2_inv H S (rows, t)" and p: "parse b = Some row"
    and row: "rs2_tries row \<le> MAX_ALLOWED_MAX_TRIES" "length (rs2_pin row) = PIN_SIZE"
      "MIN_DATA_SIZE \<le> length (rs2_data row)" "length (rs2_data row) \<le> MAX_DATA_SIZE"
      "length (rs2_backup_id row) = BACKUP_ID_SIZE"
    and lst: "rows \<noteq> [] \<Longrightarrow> fst (last rows) < rs2_backup_id row"
  shows "\<exists>db'. load_row2 H S parse b (rows, t) = Some (rs2_backup_id row, OK, db') \<and> db2_inv H S db' \<and>
    kept2 (rows, t) db' \<and>
    rows_view db' = rows_view (rows, t) @ [(rs2_backup_id row,
       \<lparr>v_state = rs2_state row, v_tries = ucast (rs2_tries row), v_data = rs2_data row, v_pin = rs2_pin row\<rparr>)]"
proof -
  let ?k = "rs2_backup_id row"
  define r where "r = (\<lambda>l. (Row2_new l)\<lparr>r2_state := rs2_state row, r2_pin := rs2_pin row,
    r2_data := rs2_data row @ drop (length (rs2_data row)) (replicate MAX_DATA_SIZE 0),
    r2_data_size := of_nat (length (rs2_data row)), r2_tries := ucast (rs2_tries row)\<rparr>)"
  have ds: "unat (of_nat (length (rs2_data row)) :: byte) = length (rs2_data row)"
    using row(4) by (simp add: unat_of_nat_byte)
  have ok: "row2_ok ?k (r l)" "r2_leaf (r l) = l" "(r l)\<lparr>r2_leaf := l'\<rparr> = r l'"
    "view2_of (r l) = \<lparr>v_state = rs2_state row, v_tries = ucast (rs2_tries row), v_data = rs2_data row, v_pin = rs2_pin row\<rparr>"
    for l l' using row by (auto simp: r_def row2_ok_def ds Row2_new_def view2_of_def)
  have hl: "row2_hash S ?k (r l) = row2_hash S ?k (r 0)" for l
    by (simp add: row2_hash_def DB2_HashRow_def r_def Row2_new_def Let_def)
  obtain h where h: "row2_hash S ?k (r 0) = Some h" using row2_hash_defined ok(1) by blast
  obtain l u v l' w t' where g: "Leaf_new t = Some (l, u)" "Leaf_Update H l h u = Some v" "Leaf_move l v = Some (l', w)"
    "Leaf_destroy H l w = Some t'"
    "\<And>r. \<lbrakk>r2_leaf r = l'; row2_ok ?k r; row2_hash S ?k r = Some h\<rbrakk> \<Longrightarrow>
       db2_inv H S (om_put ?k r rows, t') \<and> kept2 (rows, t) (om_put ?k r rows, t')"
    using g2.load_row [of H S rows t h ?k] inv unfolding db2_inv_def by metis
  have up: "update_leaf2 H S ?k (r l) u = Some v" using update_leaf2_eq [of S ?k "r l" h] hl h ok(2) g(2) by simp
  have "load_row2 H S parse b (rows, t) = Some (?k, OK, (om_put ?k (r l') rows, t'))"
    using p row lst g(1,3,4) up ok(3)
    by (auto simp: load_row2_def DB2_BackupIDFromString_def copy_into_def Let_def r_def Row2_new_def not_le)
  moreover have "om_put ?k (r l') rows = rows @ [(?k, r l')]"
    using om_put_last [OF db2_inv_om [OF inv]] lst by blast
  ultimately show ?thesis using g(5) [of "r l'"] ok hl h by (auto simp: rows_view_def)
qed

text \<open>What \<^verbatim>\<open>RowsAsProtos\<close> writes: the first rows of the list it walks, in order.\<close>

lemma rows2_out_OK:
  "rows2_out ser n rows lid out = (l, OK, res) \<Longrightarrow>
   \<exists>ss. res = out @ ss \<and> list_all2 (\<lambda>(k, r) s. ser (row2_state k r) = Some s) (take n rows) ss \<and>
        l = (if take n rows = [] then lid else fst (last (take n rows)))"
proof (induction ser n rows lid out rule: rows2_out.induct)
  case (3 ser n k row rows lid out)
  then obtain s where s: "ser (row2_state k row) = Some s" "rows2_out ser n rows k (out @ [s]) = (l, OK, res)"
    by (auto split: option.splits)
  with 3 obtain ss where "res = (out @ [s]) @ ss" "list_all2 (\<lambda>(k, r) s. ser (row2_state k r) = Some s) (take n rows) ss"
    "l = (if take n rows = [] then k else fst (last (take n rows)))" by blast
  with s show ?case by (intro exI [of _ "s # ss"]) auto
qed auto

lemma load_rows2_view:
  assumes "faithful ser parse" "db2_inv H S db" "list_all2 (\<lambda>(k, r) s. ser (row2_state k r) = Some s) rs ss"
    and "om_inv (fst db @ rs)" "\<forall>(k, r) \<in> set rs. row2_ok k r"
  shows "\<exists>db'. load_rows2 H S parse ss lid db = Some (if rs = [] then lid else fst (last rs), OK, db') \<and>
    db2_inv H S db' \<and> kept2 db db' \<and> rows_view db' = rows_view db @ map (\<lambda>(k, r). (k, view2_of r)) rs"
  using assms(3,2,4,5)
proof (induction rs ss arbitrary: lid db rule: list_all2_induct)
  case (Cons x rs s ss)
  obtain k r where x: "x = (k, r)" by (cases x)
  obtain rows t where db: "db = (rows, t)" by (cases db)
  have ok: "row2_ok k r" and "parse s = Some (row2_state k r)"
    using Cons assms(1) x by (auto simp: faithful_def)
  moreover have "fst (last rows) < k" if "rows \<noteq> []"
    using Cons.prems(2) that last_in_set [OF that] by (auto simp: x db om_inv_def sorted_wrt_append)
  moreover have "length (r2_data r) \<ge> unat (r2_data_size r)" using ok by (simp add: row2_ok_def)
  ultimately obtain db1 where db1: "load_row2 H S parse s (rows, t) = Some (k, OK, db1)" "db2_inv H S db1" "kept2 (rows, t) db1"
    "rows_view db1 = rows_view (rows, t) @ [(k, view2_of r)]"
    using load_row2_view [of H S rows t parse s "row2_state k r"] Cons.prems(1) row2_state_data [OF ok]
    by (auto simp: db row2_state_def row2_ok_def view2_of_def)
  have "map fst (fst db1) = map fst (fst db) @ [k]"
    using arg_cong [OF db1(4), of "map fst"] by (simp add: rows_view_def db case_prod_unfold comp_def)
  then have om: "om_inv (fst db1 @ rs)" using Cons.prems(2) by (simp add: om_inv_def x)
  from Cons.IH [OF db1(2) om, of k] Cons.prems(3)
  obtain db' where "load_rows2 H S parse ss k db1 = Some (if rs = [] then k else fst (last rs), OK, db')" "db2_inv H S db'"
    "kept2 db1 db'" "rows_view db' = rows_view db1 @ map (\<lambda>(k, r). (k, view2_of r)) rs" by auto
  then show ?case using db1 db x kept_trans [OF db1(3)] by auto
qed auto

lemma RowsAsProtos2_OK:
  assumes "db2_inv H S src" "DB2_RowsAsProtos ser start n src = (l, OK, out)" "out \<noteq> []"
  obtains a b c where "fst src = a @ b @ c" "filter (\<lambda>(k, v). k \<le> start) (rows_view src) = map (\<lambda>(k, r). (k, view2_of r)) a"
    "list_all2 (\<lambda>(k, r) s. ser (row2_state k r) = Some s) b out" "b \<noteq> []" "l = fst (last b)" "length out < n \<longrightarrow> c = []"
    "start < l"
proof -
  let ?u = "if start = [] then fst src else om_upper_bound start (fst src)"
  have om: "om_inv (fst src)" using assms(1) by (cases src) (simp add: db2_inv_om)
  have "rows2_out ser n ?u [] [] = (l, OK, out)"
    using assms(2) by (auto simp: DB2_RowsAsProtos_def DB2_BackupIDFromString_def split: if_splits)
  from rows2_out_OK [OF this] have b: "list_all2 (\<lambda>(k, r) s. ser (row2_state k r) = Some s) (take n ?u) out"
    "take n ?u \<noteq> []" "l = fst (last (take n ?u))" using assms(3) by (auto split: if_splits)
  have "map_of (fst src) k = Some r \<Longrightarrow> k \<noteq> []" for k r
    using db2_inv_row [of H S "fst src" "snd src" k r] assms(1) by (auto simp: row2_ok_def)
  then have ne: "\<forall>(k, v) \<in> set (fst src). k \<noteq> []"
    using om_inv_distinct [OF om] by (auto simp: map_of_eq_Some_iff)
  then have sp: "fst src = filter (\<lambda>(k, v). k \<le> start) (fst src) @ ?u"
    using om_split [OF om, of start] by (cases "start = []") (auto simp: filter_empty_conv)
  have "filter (\<lambda>(k, v). k \<le> start) (rows_view src) = map (\<lambda>(k, r). (k, view2_of r)) (filter (\<lambda>(k, v). k \<le> start) (fst src))"
    by (simp add: rows_view_def filter_map comp_def case_prod_unfold)
  moreover have "fst src = filter (\<lambda>(k, v). k \<le> start) (fst src) @ take n ?u @ drop n ?u" using sp by simp
  moreover have "length out < n \<longrightarrow> drop n ?u = []" using list_all2_lengthD [OF b(1)] by auto
  moreover have "start < k" if "(k, r) \<in> set ?u" for k r
    using that ne om_upper_bound_filter [OF om, of start] by (cases "start = []") (auto simp: neq_Nil_conv)
  then have "start < l" using b(2,3) last_in_set [OF b(2)] in_set_takeD by (metis prod.collapse)
  ultimately show thesis using that b by blast
qed

lemma load_view_step:
  assumes f: "faithful ser parse" and src: "db2_inv H' S' src" and dst: "db2_inv H S dst"
    and v: "rows_view dst = filter (\<lambda>(k, v). k \<le> start) (rows_view src)"
    and out: "DB2_RowsAsProtos ser start n src = (l, OK, out)" "out \<noteq> []"
  shows "\<exists>dst'. DB2_LoadRowsFromProtos H S parse out dst = Some (l, OK, dst') \<and> db2_inv H S dst' \<and> kept2 dst dst' \<and>
    rows_view dst' = filter (\<lambda>(k, v). k \<le> l) (rows_view src) \<and> (length out < n \<longrightarrow> rows_view dst' = rows_view src) \<and> start < l"
proof -
  let ?w = "map (\<lambda>(k, r). (k, view2_of r))"
  obtain a b c where s: "fst src = a @ b @ c" "rows_view dst = ?w a"
    "list_all2 (\<lambda>(k, r) s. ser (row2_state k r) = Some s) b out" "b \<noteq> []" "l = fst (last b)" "length out < n \<longrightarrow> c = []"
    "start < l" using RowsAsProtos2_OK [OF src out] v by metis
  have om: "om_inv (a @ b @ c)" using src s(1) db2_inv_om by (metis prod.collapse)
  have ks: "map fst (fst dst) = map fst a"
    using arg_cong [OF s(2), of "map fst"] by (simp add: rows_view_def case_prod_unfold comp_def)
  have "map fst (fst dst @ b) = map fst (a @ b)" using ks by simp
  then have om1: "om_inv (fst dst @ b)" using om by (simp add: om_inv_def sorted_wrt_append)
  have "map_of (fst src) k = Some r" if "(k, r) \<in> set b" for k r
    using that s(1) om_inv_distinct om by (metis Un_iff map_of_is_SomeI set_append)
  then have "\<forall>(k, r) \<in> set b. row2_ok k r" using src db2_inv_row by (metis case_prodI2 prod.collapse)
  from load_rows2_view [OF f dst s(3) om1 this, of "[]"] obtain dst' where
    d: "load_rows2 H S parse out [] dst = Some (l, OK, dst')" "db2_inv H S dst'" "kept2 dst dst'"
      "rows_view dst' = ?w a @ ?w b" using s(2,4,5) by auto
  have len: "length (fst dst') = length (fst dst) + length out"
    using arg_cong [OF d(4), of length] arg_cong [OF ks, of length] list_all2_lengthD [OF s(3)] by (simp add: rows_view_def)
  have "fst (last (?w b)) = l" using s(4,5) by (simp add: last_map case_prod_unfold)
  moreover have "om_inv (?w (a @ b @ c))" using om by (simp add: om_inv_def case_prod_unfold comp_def)
  then have "om_inv (?w a @ ?w b)" by (auto simp: om_inv_def sorted_wrt_append)
  moreover have "\<forall>y \<in> set c. l < fst y"
    using om s(5) last_in_set [OF s(4)] by (auto simp: om_inv_def sorted_wrt_append)
  then have "filter (\<lambda>(k, v). k \<le> l) (?w c) = []" by (auto simp: filter_empty_conv)
  ultimately have "filter (\<lambda>(k, v). k \<le> l) (rows_view src) = ?w a @ ?w b"
    using sorted_prefix [of "?w a" "?w b" "?w c"] s(1,4) by (simp add: rows_view_def)
  then show ?thesis using d len out(2) s(1,6,7) by (auto simp: DB2_LoadRowsFromProtos_def rows_view_def)
qed

subsection \<open>The hash of the database\<close>

lemma HashRow2_view:
  assumes "row2_ok k r" "row2_ok k s" "view2_of r = view2_of s"
  shows "DB2_HashRow S k r = DB2_HashRow S k s"
proof -
  have "take (unat (r2_data_size r)) (r2_data r) = take (unat (r2_data_size s)) (r2_data s)" "r2_pin r = r2_pin s"
    "r2_state r = r2_state s" "r2_tries r = r2_tries s" using assms(3) by (auto simp: view2_of_def)
  moreover from this(1) have "unat (r2_data_size r) = unat (r2_data_size s)"
    using assms(1,2) by (auto simp: row2_ok_def dest: arg_cong [of _ _ length])
  then have "r2_data_size r = r2_data_size s" by (simp add: word_unat_eq_iff)
  ultimately show ?thesis using assms(1,2) by (auto simp: DB2_HashRow_def row2_ok_def Let_def)
qed

lemma hash_rows2_view:
  "\<lbrakk>map (\<lambda>(k, r). (k, view2_of r)) xs = map (\<lambda>(k, r). (k, view2_of r)) ys;
    \<forall>(k, r) \<in> set xs. row2_ok k r; \<forall>(k, r) \<in> set ys. row2_ok k r\<rbrakk> \<Longrightarrow> hash_rows2 S xs = hash_rows2 S ys"
proof (induction xs arbitrary: ys)
  case (Cons x xs)
  then obtain y ys' where y: "ys = y # ys'" by (cases ys) auto
  then show ?case using Cons.IH [of ys'] Cons.prems HashRow2_view [of "fst x" "snd x" "snd y" S]
    by (cases x; cases y) auto
qed auto

lemma db2_rows_ok: "db2_inv H S db \<Longrightarrow> \<forall>(k, r) \<in> set (fst db). row2_ok k r"
  using om_inv_distinct [of "fst db"] db2_inv_row [of H S "fst db" "snd db"] db2_inv_om [of H S "fst db" "snd db"]
  by (auto simp: map_of_eq_Some_iff)

lemma DB2_Hash_view:
  assumes "db2_inv H S a" "db2_inv H S b" "abs2 a = abs2 b"
  shows "DB2_Hash sha S a = DB2_Hash sha S b"
proof -
  have v: "rows_view a = rows_view b" using rows_view_abs2 [OF assms] .
  then have "length (fst a) = length (fst b)" by (metis length_map rows_view_def)
  then show ?thesis
    using hash_rows2_view [OF v [unfolded rows_view_def] db2_rows_ok [OF assms(1)] db2_rows_ok [OF assms(2)], of S]
    by (simp add: DB2_Hash_def)
qed

definition exposes :: "bytes \<Rightarrow> pb_log \<Rightarrow> bool" where
  "exposes k l = (case l of PB_Log2 log \<Rightarrow> log2_backup_id log = k \<and>
       (case log2_req log of ExposeRequest _ \<Rightarrow> True | _ \<Rightarrow> False) | PB_Log3 _ \<Rightarrow> False)"

lemma step2_unexposed:
  "\<lbrakk>step_all step2 ls v = (rs, v'); v k = None \<or> (\<exists>r. v k = Some r \<and> v_state r \<noteq> AVAILABLE); list_all valid2 ls;
    list_all (\<lambda>l. \<not> exposes k l) ls\<rbrakk> \<Longrightarrow> \<forall>(p, s) \<in> set (attempts k ls rs). s = Restore_MISSING"
proof (induction ls arbitrary: v rs)
  case (Cons l ls)
  obtain log where l: "l = PB_Log2 log" using Cons.prems by (cases l) (auto simp: valid2_def DB2_ValidateClientLog_def)
  obtain resp r where s: "spec2 (log2_req log) (v (log2_backup_id log)) = (resp, r)" by fastforce
  let ?v1 = "v(log2_backup_id log := r)"
  obtain rs1 where 1: "step_all step2 ls ?v1 = (rs1, v')" "rs = PB_Response resp # rs1"
    using Cons.prems(1) by (auto simp: l step2_Log2 s split: prod.splits)
  have n: "?v1 k = None \<or> (\<exists>r. ?v1 k = Some r \<and> v_state r \<noteq> AVAILABLE)"
    using s Cons.prems(2,4) by (cases "log2_req log") (auto simp: l exposes_def split: if_splits)
  have "\<forall>(p, s) \<in> set (attempts k ls rs1). s = Restore_MISSING"
    using Cons.IH [OF 1(1) n] Cons.prems by auto
  then show ?case using s Cons.prems(2,4)
    by (cases "log2_req log") (auto simp: l 1(2) attempts_Cons split: response.splits if_splits)
qed simp

subsection \<open>Properties\<close>

definition demo_sip :: siphash_fn where
  "demo_sip key data n = replicate n (sum_list data)"

abbreviation demo_id :: bytes where "demo_id \<equiv> replicate 16 1"
abbreviation demo_log :: "request \<Rightarrow> pb_log" where
  "demo_log req \<equiv> PB_Log2 \<lparr>log2_backup_id = demo_id, log2_req = req\<rparr>"
abbreviation demo_backup :: pb_log where
  "demo_backup \<equiv> demo_log (BackupRequest (replicate 16 2) (replicate 32 3) 2)"
abbreviation demo_expose :: pb_log where "demo_expose \<equiv> demo_log (ExposeRequest (replicate 16 2))"
abbreviation demo_restore :: "byte \<Rightarrow> pb_log" where "demo_restore b \<equiv> demo_log (RestoreRequest (replicate 32 b))"

lemma db2_empty: "pend H t {} \<Longrightarrow> db2_inv H S ([], t) \<and> abs2 ([], t) = Map.empty"
  by (simp add: db2_inv_def guarded_def abs2_def fun_eq_iff)

lemma demo_db2:
  assumes "list_all valid2 ls"
  obtains t rs db where "Tree_init demo_hash = Some t" "run_all (DB2_Run demo_hash demo_sip) ls ([], t) = Some (rs, db)"
    "db2_inv demo_hash demo_sip db" "step_all step2 ls Map.empty = (rs, abs2 db)"
proof -
  obtain t where t: "Tree_init demo_hash = Some t" "pend demo_hash t {}" using Tree_init_pend by blast
  then show thesis
    using r2.run_all_law [of demo_hash demo_sip "([], t)" ls] db2_empty [OF t(2), of demo_sip] assms that by metis
qed

text \<open>C12: \<^verbatim>\<open>DB2::Run\<close> refines its specification.  On a log entry that \<^verbatim>\<open>ValidateClientLog\<close> accepts, \<^verbatim>\<open>Run\<close>
  returns without a failed CHECK, answers and changes the row of the client exactly as \<open>spec2\<close> says, leaves
  every other row as it is, and keeps the invariant (rows ordered, every Merkle leaf up to date).\<close>

theorem db2_run_refines_spec:
  assumes "db2_inv H S db" "DB2_ValidateClientLog (PB_Log2 log) = OK"
  shows "\<exists>resp db'. DB2_Run H S (PB_Log2 log) db = Some (PB_Response resp, db') \<and> db2_inv H S db' \<and>
    (resp, abs2 db' (log2_backup_id log)) = spec2 (log2_req log) (abs2 db (log2_backup_id log)) \<and>
    (\<forall>j. j \<noteq> log2_backup_id log \<longrightarrow> abs2 db' j = abs2 db j)"
  using DB2_Run_refines [OF assms] by blast

theorem db2_run_refines_spec_witness:
  "\<exists>t db'. Tree_init demo_hash = Some t \<and>
     DB2_Run demo_hash demo_sip demo_backup ([], t) = Some (PB_Response (BackupResponse Backup_OK), db') \<and>
     map_option v_tries (abs2 db' demo_id) = Some 2"
proof -
  obtain t where t: "Tree_init demo_hash = Some t" "pend demo_hash t {}" using Tree_init_pend by blast
  have "DB2_ValidateClientLog demo_backup = OK" by (simp add: DB2_ValidateClientLog_def)
  from db2_run_refines_spec [OF conjunct1 [OF db2_empty [OF t(2), of demo_sip]] this] t(1) show ?thesis by auto
qed



text \<open>C13: Guesses are limited.  From a row with \<open>n > 0\<close> tries left and until the client backs up again, whatever
  requests of this and other clients are applied: fewer than \<open>n\<close> restore attempts are answered
  PIN_MISMATCH, an attempt is answered OK only if it has the right PIN, and if the row still exists then its
  data and PIN are unchanged and the tries left plus the mismatches are \<open>n\<close>.\<close>

theorem db2_guess_limit:
  assumes "db2_inv H S db" "abs2 db k = Some r" "0 < unat (v_tries r)"
    and "list_all (\<lambda>l. DB2_ValidateClientLog l = OK \<and> \<not> backs_up k l) ls"
  shows "\<exists>rs db'. run_all (DB2_Run H S) ls db = Some (rs, db') \<and>
    mismatches (attempts k ls rs) < unat (v_tries r) \<and>
    (\<forall>p. (p, Restore_OK) \<in> set (attempts k ls rs) \<longrightarrow> p = v_pin r) \<and>
    (case abs2 db' k of None \<Rightarrow> True
     | Some r' \<Rightarrow> v_pin r' = v_pin r \<and> v_data r' = v_data r \<and>
         unat (v_tries r') + mismatches (attempts k ls rs) = unat (v_tries r))"
proof -
  have v: "list_all valid2 ls" "list_all (\<lambda>l. \<not> backs_up k l) ls" using assms(4) by (auto simp: list_all_iff valid2_def)
  obtain rs db' where r: "run_all (DB2_Run H S) ls db = Some (rs, db')" "step_all step2 ls (abs2 db) = (rs, abs2 db')"
    using r2.run_all_law [OF assms(1) v(1)] by blast
  from step2_guesses [OF r(2) assms(2,3) v] r(1) show ?thesis by fast
qed

theorem db2_guess_limit_witness:
  "\<exists>t rs0 db rs db'. Tree_init demo_hash = Some t \<and>
     run_all (DB2_Run demo_hash demo_sip) [demo_backup, demo_expose] ([], t) = Some (rs0, db) \<and>
     run_all (DB2_Run demo_hash demo_sip) [demo_restore 4, demo_restore 5, demo_restore 3] db = Some (rs, db') \<and>
     mismatches (attempts demo_id [demo_restore 4, demo_restore 5, demo_restore 3] rs) < 2"
proof -
  have v: "list_all valid2 [demo_backup, demo_expose]" by (simp add: valid2_def DB2_ValidateClientLog_def)
  obtain t rs0 db where 1: "Tree_init demo_hash = Some t"
    "run_all (DB2_Run demo_hash demo_sip) [demo_backup, demo_expose] ([], t) = Some (rs0, db)"
    "db2_inv demo_hash demo_sip db" "step_all step2 [demo_backup, demo_expose] Map.empty = (rs0, abs2 db)"
    by (rule demo_db2 [OF v])
  have r: "abs2 db demo_id = Some \<lparr>v_state = AVAILABLE, v_tries = 2, v_data = replicate 16 2, v_pin = replicate 32 3\<rparr>"
    using 1(4) by (simp add: step2_Log2 fun_eq_iff split: if_splits)
  have "list_all (\<lambda>l. DB2_ValidateClientLog l = OK \<and> \<not> backs_up demo_id l) [demo_restore 4, demo_restore 5, demo_restore 3]"
    by (simp add: DB2_ValidateClientLog_def backs_up_def)
  from db2_guess_limit [OF 1(3) r _ this] obtain rs db' where
    "run_all (DB2_Run demo_hash demo_sip) [demo_restore 4, demo_restore 5, demo_restore 3] db = Some (rs, db')"
    "mismatches (attempts demo_id [demo_restore 4, demo_restore 5, demo_restore 3] rs) < 2"
    by (auto simp del: run_all.simps attempts.simps)
  with 1(1,2) show ?thesis by blast
qed

text \<open>C14: A backup that was not exposed is never restored.  While the row of a client is absent or only
  POPULATED, and no Expose request of this client is applied, every restore attempt of the client is
  answered MISSING, also after further backups.  This is the two-phase commit that db2.cc explains.\<close>

theorem db2_unexposed_never_restored:
  assumes "db2_inv H S db" "\<forall>r. abs2 db k = Some r \<longrightarrow> v_state r \<noteq> AVAILABLE"
    and "list_all (\<lambda>l. DB2_ValidateClientLog l = OK \<and> \<not> exposes k l) ls"
  shows "\<exists>rs db'. run_all (DB2_Run H S) ls db = Some (rs, db') \<and> snd ` set (attempts k ls rs) \<subseteq> {Restore_MISSING}"
proof -
  have v: "list_all valid2 ls" "list_all (\<lambda>l. \<not> exposes k l) ls" using assms(3) by (auto simp: list_all_iff valid2_def)
  obtain rs db' where r: "run_all (DB2_Run H S) ls db = Some (rs, db')" "step_all step2 ls (abs2 db) = (rs, abs2 db')"
    using r2.run_all_law [OF assms(1) v(1)] by blast
  have "abs2 db k = None \<or> (\<exists>r. abs2 db k = Some r \<and> v_state r \<noteq> AVAILABLE)" using assms(2) by (cases "abs2 db k") auto
  from step2_unexposed [OF r(2) this v] r(1) show ?thesis by (auto simp del: attempts.simps)
qed

theorem db2_unexposed_never_restored_witness:
  "\<exists>t rs db. Tree_init demo_hash = Some t \<and>
     run_all (DB2_Run demo_hash demo_sip) [demo_backup, demo_restore 3] ([], t) = Some (rs, db) \<and>
     snd ` set (attempts demo_id [demo_backup, demo_restore 3] rs) \<subseteq> {Restore_MISSING}"
proof -
  obtain t where t: "Tree_init demo_hash = Some t" "pend demo_hash t {}" using Tree_init_pend by blast
  note i = db2_empty [OF t(2), of demo_sip]
  have "list_all (\<lambda>l. DB2_ValidateClientLog l = OK \<and> \<not> exposes demo_id l) [demo_backup, demo_restore 3]"
    by (simp add: DB2_ValidateClientLog_def exposes_def)
  from db2_unexposed_never_restored [OF conjunct1 [OF i] _ this] i t(1) show ?thesis by auto
qed

text \<open>C16: Replicated rows arrive unchanged.  If the receiver holds exactly the sender's rows up to \<open>start\<close>
  (nothing, for the empty start), loading the chunk that the sender's \<^verbatim>\<open>RowsAsProtos\<close> produced after \<open>start\<close>
  succeeds, returns the key to continue from, and the receiver then holds exactly the sender's rows up to
  that key, and all of them when the chunk was not full.\<close>

theorem db2_replication_round_trip:
  assumes "faithful ser parse" "db2_inv H S src" "db2_inv H S dst"
    and "rows_view dst = filter (\<lambda>(k, v). k \<le> start) (rows_view src)"
    and "DB2_RowsAsProtos ser start n src = (l, OK, out)" "out \<noteq> []"
  shows "\<exists>dst'. DB2_LoadRowsFromProtos H S parse out dst = Some (l, OK, dst') \<and> db2_inv H S dst' \<and>
    rows_view dst' = filter (\<lambda>(k, v). k \<le> l) (rows_view src) \<and> (length out < n \<longrightarrow> rows_view dst' = rows_view src)"
  using load_view_step [OF assms] by blast

definition demo_row_state :: db2_row_state where
  "demo_row_state = \<lparr>rs2_backup_id = demo_id, rs2_tries = 2, rs2_data = replicate 16 2, rs2_pin = replicate 32 3,
                     rs2_state = POPULATED\<rparr>"

theorem db2_replication_round_trip_witness:
  "\<exists>t rs src dst. Tree_init demo_hash = Some t \<and>
     run_all (DB2_Run demo_hash demo_sip) [demo_backup] ([], t) = Some (rs, src) \<and>
     DB2_LoadRowsFromProtos demo_hash demo_sip (\<lambda>b. if b = [0] then Some demo_row_state else None) [[0]] ([], t) =
       Some (demo_id, OK, dst) \<and> rows_view dst = rows_view src"
proof -
  let ?w = "\<lparr>v_state = POPULATED, v_tries = 2, v_data = replicate 16 2, v_pin = replicate 32 3\<rparr>"
  let ?ser = "\<lambda>r. if r = demo_row_state then Some [0 :: byte] else None"
  have v: "list_all valid2 [demo_backup]" by (simp add: valid2_def DB2_ValidateClientLog_def)
  obtain t rs src where 1: "Tree_init demo_hash = Some t"
    "run_all (DB2_Run demo_hash demo_sip) [demo_backup] ([], t) = Some (rs, src)"
    "db2_inv demo_hash demo_sip src" "step_all step2 [demo_backup] Map.empty = (rs, abs2 src)"
    by (rule demo_db2 [OF v])
  have "abs2 src = map_of [(demo_id, ?w)]" using 1(4) by (simp add: step2_Log2)
  then have w: "rows_view src = [(demo_id, ?w)]"
    using map_of_rows_view [of src] om_inv_rows_view [of src] db2_inv_om [of demo_hash demo_sip "fst src" "snd src"] 1(3)
      om_eqI [of "rows_view src" "[(demo_id, ?w)]"] by (simp add: om_inv_Cons)
  then obtain r where r: "fst src = [(demo_id, r)]" "view2_of r = ?w" by (auto simp: rows_view_def)
  have "row2_ok demo_id r" using db2_rows_ok [OF 1(3)] r(1) by simp
  then have "row2_state demo_id r = demo_row_state"
    using r(2) row2_state_data [of demo_id r] by (auto simp: row2_state_def demo_row_state_def view2_of_def)
  then have out: "DB2_RowsAsProtos ?ser [] 2 src = (demo_id, OK, [[0]])"
    by (simp add: DB2_RowsAsProtos_def r(1) numeral_2_eq_2)
  obtain t' where t': "Tree_init demo_hash = Some t'" "pend demo_hash t' {}" using Tree_init_pend by blast
  then have dst: "db2_inv demo_hash demo_sip ([], t)" using db2_empty 1(1) by simp
  have f: "faithful ?ser (\<lambda>b. if b = [0] then Some demo_row_state else None)" by (simp add: faithful_def)
  have e: "rows_view ([], t) = filter (\<lambda>(k, v). k \<le> []) (rows_view src)"
    unfolding w by (simp add: rows_view_def)
  obtain dst' where "DB2_LoadRowsFromProtos demo_hash demo_sip (\<lambda>b. if b = [0] then Some demo_row_state else None)
      [[0]] ([], t) = Some (demo_id, OK, dst')" "rows_view dst' = rows_view src"
    using db2_replication_round_trip [OF f 1(3) dst e out] by auto
  with 1(1,2) show ?thesis by blast
qed

text \<open>C30: A replicated row with no tries left gets 255 new guesses.  \<^verbatim>\<open>LoadRowsFromProtos\<close> bounds the tries of a
  row from above only; from such a row with tries 0 the first wrong PIN decrements the 8-bit counter to
  255, and the row is not erased.\<close>

theorem db2_zero_tries_wraps:
  assumes "db2_inv H S (rows, t)" "parse b = Some row" "rs2_tries row = 0" "rs2_state row = AVAILABLE"
    and "length (rs2_pin row) = PIN_SIZE" "MIN_DATA_SIZE \<le> length (rs2_data row)" "length (rs2_data row) \<le> MAX_DATA_SIZE"
    and "length (rs2_backup_id row) = BACKUP_ID_SIZE" "rows \<noteq> [] \<Longrightarrow> fst (last rows) < rs2_backup_id row"
    and "length pin = PIN_SIZE" "pin \<noteq> rs2_pin row"
  shows "\<exists>db db'. DB2_LoadRowsFromProtos H S parse [b] (rows, t) = Some (rs2_backup_id row, OK, db) \<and>
    DB2_Run H S (PB_Log2 \<lparr>log2_backup_id = rs2_backup_id row, log2_req = RestoreRequest pin\<rparr>) db =
      Some (PB_Response (RestoreResponse Restore_PIN_MISMATCH [] 255), db')"
proof -
  let ?w = "\<lparr>v_state = AVAILABLE, v_tries = 0, v_data = rs2_data row, v_pin = rs2_pin row\<rparr>"
  obtain db where db: "load_row2 H S parse b (rows, t) = Some (rs2_backup_id row, OK, db)" "db2_inv H S db"
    "rows_view db = rows_view (rows, t) @ [(rs2_backup_id row, ?w)]"
    using load_row2_view [of H S rows t parse b row] assms by auto
  have "om_inv (rows_view db)" using om_inv_rows_view db(2) db2_inv_om by (metis prod.collapse)
  then have "abs2 db (rs2_backup_id row) = Some ?w"
    unfolding map_of_rows_view [symmetric] using om_inv_distinct [of "rows_view db"] db(3)
    by (intro map_of_is_SomeI) simp_all
  moreover have "length (fst db) = Suc (length rows)" using arg_cong [OF db(3), of length] by (simp add: rows_view_def)
  moreover have "(ucast (- 1 :: byte) :: 32 word) = 255" by code_simp
  moreover have "DB2_LoadRowsFromProtos H S parse [b] (rows, t) = Some (rs2_backup_id row, OK, db)"
    using db(1) calculation(2) by (simp add: DB2_LoadRowsFromProtos_def)
  ultimately show ?thesis
    using DB2_Run_refines [OF db(2), of "\<lparr>log2_backup_id = rs2_backup_id row, log2_req = RestoreRequest pin\<rparr>"]
      assms(8,10,11) by (auto simp: DB2_ValidateClientLog_def)
qed

theorem db2_zero_tries_wraps_witness:
  "\<exists>t db db'. Tree_init demo_hash = Some t \<and>
     DB2_LoadRowsFromProtos demo_hash demo_sip
       (\<lambda>b. Some (demo_row_state\<lparr>rs2_tries := 0, rs2_state := AVAILABLE\<rparr>)) [[]] ([], t) = Some (demo_id, OK, db) \<and>
     DB2_Run demo_hash demo_sip (demo_restore 4) db = Some (PB_Response (RestoreResponse Restore_PIN_MISMATCH [] 255), db')"
proof -
  obtain t where t: "Tree_init demo_hash = Some t" "pend demo_hash t {}" using Tree_init_pend by blast
  from db2_zero_tries_wraps [of demo_hash demo_sip "[]" t "\<lambda>b. Some (demo_row_state\<lparr>rs2_tries := 0, rs2_state := AVAILABLE\<rparr>)" "[]"
      "demo_row_state\<lparr>rs2_tries := 0, rs2_state := AVAILABLE\<rparr>" "replicate 32 4"] db2_empty [OF t(2), of demo_sip] t(1)
  show ?thesis by (auto simp: demo_row_state_def)
qed

end
