(* ===== verification/DB3Spec.thy ===== *)
theory DB3Spec
  imports DB3 GuardedRows ReplDB
begin

text \<open>
  Correctness of db/db3.cc, along the lines of theories DB2Spec and DB2Props: \<open>DB3_Run\<close> refines \<open>spec3\<close>, replicas
  agree, the number of evaluations under one key is limited by \<^verbatim>\<open>max_tries\<close>, and replicated rows arrive
  unchanged.
\<close>

subsection \<open>Invariant\<close>

definition row3_hash :: "siphash_fn \<Rightarrow> bytes \<Rightarrow> db3_row \<Rightarrow> hash option" where
  "row3_hash S k r = Option.bind (DB3_HashRow S k r) HashFrom"

definition row3_ok :: "bytes \<Rightarrow> db3_row \<Rightarrow> bool" where
  "row3_ok k r \<longleftrightarrow> length k = BACKUP_ID_SIZE3 \<and> length (r3_priv r) = SCALAR_SIZE \<and> r3_tries r \<noteq> 0"

definition db3_inv :: "(bytes \<Rightarrow> hash) \<Rightarrow> siphash_fn \<Rightarrow> db3 \<Rightarrow> bool" where
  "db3_inv H S db = guarded (pend H) leaf_hash r3_leaf (row3_hash S) row3_ok db"

abbreviation kept3 :: "db3 \<Rightarrow> db3 \<Rightarrow> bool" where "kept3 \<equiv> kept leaf_hash r3_leaf"

lemma row3_hash_defined: "row3_ok k r \<Longrightarrow> row3_hash S k r \<noteq> None"
  by (auto simp: row3_hash_def row3_ok_def DB3_HashRow_def HashFrom_def)

interpretation g3: guarded_rows "pend H" leaf_hash Leaf_new "Leaf_Update H" "Leaf_Verify H" "Leaf_destroy H" Leaf_move
  r3_leaf "row3_hash S" row3_ok for H S
  by unfold_locales (simp add: row3_hash_defined)

lemma update_leaf3_eq: "row3_hash S k r = Some h \<Longrightarrow> update_leaf3 H S k r t = Leaf_Update H (r3_leaf r) h t"
  by (auto simp: update_leaf3_def row3_hash_def bind_eq_Some_conv)

lemma db3_inv_row: "db3_inv H S (rows, t) \<Longrightarrow> map_of rows k = Some r \<Longrightarrow> row3_ok k r"
  by (simp add: db3_inv_def guarded_def)

lemma db3_inv_om: "db3_inv H S (rows, t) \<Longrightarrow> om_inv rows"
  by (simp add: db3_inv_def guarded_def)

lemma verify3:
  assumes "db3_inv H S (rows, t)" "map_of rows k = Some r"
  shows "verify_leaf3 H S k r t = Some OK"
proof -
  obtain h where h: "row3_hash S k r = Some h" using row3_hash_defined [OF db3_inv_row [OF assms]] by blast
  then show ?thesis using g3.verify_row [of H S rows t k r h] assms
    by (auto simp: verify_leaf3_def row3_hash_def bind_eq_Some_conv db3_inv_def)
qed

lemma rewrite3:
  assumes "db3_inv H S (rows, t)" "map_of rows k = Some r0" "r3_leaf r = r3_leaf r0" "row3_ok k r"
  obtains t' where "update_leaf3 H S k r t = Some t'" "db3_inv H S (om_put k r rows, t')"
    "kept3 (rows, t) (om_put k r rows, t')"
proof -
  obtain h where h: "row3_hash S k r = Some h" using row3_hash_defined assms(4) by blast
  show thesis using g3.update_row [of H S rows t k r0 r h] assms h that
    by (metis db3_inv_def update_leaf3_eq)
qed

lemma erase3:
  assumes "db3_inv H S (rows, t)" "map_of rows k = Some r"
  obtains t' where "Leaf_destroy H (r3_leaf r) t = Some t'" "db3_inv H S (om_del k rows, t')"
    "kept3 (rows, t) (om_del k rows, t')"
  using g3.erase_row [of H S rows t k r] assms that by (metis db3_inv_def)

lemma insert3:
  assumes "db3_inv H S (rows, t)"
  obtains l u where "Leaf_new t = Some (l, u)"
    "\<And>r. r3_leaf r = l \<Longrightarrow> row3_ok k r \<Longrightarrow> \<exists>t'. update_leaf3 H S k r u = Some t' \<and>
        db3_inv H S (om_put k r rows, t') \<and> kept3 (rows, t) (om_put k r rows, t')"
proof -
  obtain l u where 1: "Leaf_new t = Some (l, u)"
    "\<And>r h. \<lbrakk>r3_leaf r = l; row3_ok k r; row3_hash S k r = Some h\<rbrakk> \<Longrightarrow>
       \<exists>t'. Leaf_Update H l h u = Some t' \<and> db3_inv H S (om_put k r rows, t') \<and> kept3 (rows, t) (om_put k r rows, t')"
    using g3.insert_row [of H S rows t k] assms unfolding db3_inv_def by metis
  have "\<exists>t'. update_leaf3 H S k r u = Some t' \<and> db3_inv H S (om_put k r rows, t') \<and> kept3 (rows, t) (om_put k r rows, t')"
    if r: "r3_leaf r = l" "row3_ok k r" for r
  proof -
    obtain h where h: "row3_hash S k r = Some h" using row3_hash_defined r(2) by blast
    then show ?thesis using 1(2) [OF r h] r(1) by (simp add: update_leaf3_eq)
  qed
  then show thesis using that 1(1) by blast
qed

subsection \<open>Specification\<close>

record view3 =
  v3_priv :: bytes
  v3_tries :: byte

definition view3_of :: "db3_row \<Rightarrow> view3" where
  "view3_of r = \<lparr>v3_priv = r3_priv r, v3_tries = r3_tries r\<rparr>"

definition abs3 :: "db3 \<Rightarrow> bytes \<Rightarrow> view3 option" where
  "abs3 db k = map_option view3_of (map_of (fst db) k)"

fun spec3 :: "scalarmult_fn \<Rightarrow> bytes \<Rightarrow> request3 \<Rightarrow> view3 option \<Rightarrow> response3 \<times> view3 option" where
  "spec3 mult privkey (CreateRequest max_tries blinded) v =
     (case mult privkey blinded of
        None \<Rightarrow> (CreateResponse Create_ERROR [], v)
      | Some e \<Rightarrow> (CreateResponse Create_OK (out_array ELEMENT_SIZE e),
                   Some \<lparr>v3_priv = privkey, v3_tries = ucast max_tries\<rparr>))"
| "spec3 mult privkey (EvaluateRequest blinded) None = (EvaluateResponse Evaluate_MISSING [] 0, None)"
| "spec3 mult privkey (EvaluateRequest blinded) (Some r) =
     (case mult (v3_priv r) blinded of
        None \<Rightarrow> (EvaluateResponse Evaluate_ERROR [] 0, Some r)
      | Some e \<Rightarrow> (EvaluateResponse Evaluate_OK (out_array ELEMENT_SIZE e) (ucast (v3_tries r - 1)),
                   if v3_tries r = 1 then None else Some (r\<lparr>v3_tries := v3_tries r - 1\<rparr>)))"
| "spec3 mult privkey RemoveRequest v = (RemoveResponse, None)"
| "spec3 mult privkey QueryRequest None = (QueryResponse Query_MISSING 0, None)"
| "spec3 mult privkey QueryRequest (Some r) = (QueryResponse Query_OK (ucast (v3_tries r)), Some r)"
| "spec3 mult privkey Request3Unset v = (Response3Unset, v)"

definition refines3 ::
  "(bytes \<Rightarrow> hash) \<Rightarrow> siphash_fn \<Rightarrow> scalarmult_fn \<Rightarrow> bytes \<Rightarrow> bytes \<Rightarrow> request3 \<Rightarrow> db3 \<Rightarrow> (response3 \<times> db3) option \<Rightarrow> bool" where
  "refines3 H S mult k privkey req db out \<longleftrightarrow>
     (\<exists>resp db'. out = Some (resp, db') \<and> db3_inv H S db' \<and> kept3 db db' \<and>
        (resp, abs3 db' k) = spec3 mult privkey req (abs3 db k) \<and> (\<forall>j. j \<noteq> k \<longrightarrow> abs3 db' j = abs3 db j))"

lemma abs3_put: "om_inv rows \<Longrightarrow> abs3 (om_put k r rows, t') = (abs3 (rows, t))(k \<mapsto> view3_of r)"
  by (auto simp: abs3_def fun_eq_iff om.lookup_put)

lemma abs3_del: "om_inv rows \<Longrightarrow> abs3 (om_del k rows, t') = (abs3 (rows, t))(k := None)"
  by (auto simp: abs3_def fun_eq_iff om.lookup_del)

lemma StringToByteArray_exact [simp]: "length s = n \<Longrightarrow> StringToByteArray n s = (s, OK)"
  by (simp add: StringToByteArray_def)

lemma ByteArrayToString_exact [simp]: "length s = n \<Longrightarrow> ByteArrayToString n s = s"
  by (simp add: ByteArrayToString_def)

lemma Create_refines:
  assumes inv: "db3_inv H S (rows, t)" and k: "length k = BACKUP_ID_SIZE3" "length priv = SCALAR_SIZE"
    and b: "length blinded = ELEMENT_SIZE" and n: "(ucast n :: byte) \<noteq> 0"
  shows "refines3 H S mult k priv (CreateRequest n blinded) (rows, t) (DB3_Create H S mult k priv n blinded (rows, t))"
proof (cases "mult priv blinded")
  case None
  then show ?thesis using inv k b by (simp add: refines3_def DB3_Create_def DB3_BlindEvaluate_def)
next
  case (Some e)
  let ?r = "\<lambda>l. \<lparr>r3_priv = priv, r3_tries = ucast n, r3_leaf = l\<rparr>"
  have ok: "row3_ok k (?r l)" "view3_of (?r l) = \<lparr>v3_priv = priv, v3_tries = ucast n\<rparr>" for l
    using k n by (simp_all add: row3_ok_def view3_of_def)
  have "\<exists>l u t'. (case map_of rows k of None \<Rightarrow> Leaf_new t | Some row \<Rightarrow> Some (r3_leaf row, t)) = Some (l, u) \<and>
      update_leaf3 H S k (?r l) u = Some t' \<and> db3_inv H S (om_put k (?r l) rows, t') \<and>
      kept3 (rows, t) (om_put k (?r l) rows, t')"
  proof (cases "map_of rows k")
    case None
    then show ?thesis using insert3 [OF inv, of k] ok(1) by (metis (no_types, lifting) db3_row.select_convs(3) option.case(1))
  next
    case (Some r0)
    then show ?thesis using rewrite3 [OF inv Some, of "?r (r3_leaf r0)"] ok(1) by auto
  qed
  then obtain l u t' where 1: "(case map_of rows k of None \<Rightarrow> Leaf_new t | Some row \<Rightarrow> Some (r3_leaf row, t)) = Some (l, u)"
    "update_leaf3 H S k (?r l) u = Some t'" "db3_inv H S (om_put k (?r l) rows, t')"
    "kept3 (rows, t) (om_put k (?r l) rows, t')" by blast
  then have "DB3_Create H S mult k priv n blinded (rows, t) =
      Some (CreateResponse Create_OK (out_array ELEMENT_SIZE e), (om_put k (?r l) rows, t'))"
    using Some k b by (simp add: DB3_Create_def DB3_BlindEvaluate_def Let_def)
  then show ?thesis
    using 1(3,4) Some abs3_put [OF db3_inv_om [OF inv], of k "?r l" t' t] ok(2) by (simp add: refines3_def)
qed

lemma Evaluate_refines:
  assumes inv: "db3_inv H S (rows, t)" and b: "length blinded = ELEMENT_SIZE"
  shows "refines3 H S mult k priv (EvaluateRequest blinded) (rows, t) (DB3_Evaluate H S mult k blinded (rows, t))"
proof (cases "map_of rows k")
  case None
  then show ?thesis using inv b by (simp add: refines3_def DB3_Evaluate_def abs3_def)
next
  case (Some r)
  note ok = db3_inv_row [OF inv Some] and om = db3_inv_om [OF inv] and v = verify3 [OF inv Some]
  have a: "abs3 (rows, t) k = Some (view3_of r)" using Some by (simp add: abs3_def)
  show ?thesis
  proof (cases "mult (r3_priv r) blinded")
    case None
    then show ?thesis using inv Some b v a by (simp add: refines3_def DB3_Evaluate_def DB3_BlindEvaluate_def view3_of_def)
  next
    case e: (Some e)
    let ?resp = "EvaluateResponse Evaluate_OK (out_array ELEMENT_SIZE e) (ucast (r3_tries r - 1))"
    show ?thesis
    proof (cases "r3_tries r = 1")
      case True
      obtain t2 where t2: "Leaf_destroy H (r3_leaf r) t = Some t2" "db3_inv H S (om_del k rows, t2)"
        "kept3 (rows, t) (om_del k rows, t2)" by (rule erase3 [OF inv Some])
      then have "DB3_Evaluate H S mult k blinded (rows, t) = Some (?resp, (om_del k rows, t2))"
        using True Some b v e by (simp add: DB3_Evaluate_def DB3_BlindEvaluate_def Let_def)
      then show ?thesis using t2 True a e abs3_del [OF om, of k t2 t] by (simp add: refines3_def) (simp add: view3_of_def)
    next
      case False
      let ?r = "r\<lparr>r3_tries := r3_tries r - 1\<rparr>"
      have "row3_ok k ?r" "r3_leaf ?r = r3_leaf r" using ok False by (auto simp: row3_ok_def)
      with rewrite3 [OF inv Some] obtain t1 where t1: "update_leaf3 H S k ?r t = Some t1"
        "db3_inv H S (om_put k ?r rows, t1)" "kept3 (rows, t) (om_put k ?r rows, t1)" by metis
      then have "DB3_Evaluate H S mult k blinded (rows, t) = Some (?resp, (om_put k ?r rows, t1))"
        using False Some b v e by (simp add: DB3_Evaluate_def DB3_BlindEvaluate_def Let_def)
      then show ?thesis using t1 False a e abs3_put [OF om, of k ?r t1 t] by (simp add: refines3_def) (simp add: view3_of_def)
    qed
  qed
qed

lemma Remove_refines:
  assumes inv: "db3_inv H S (rows, t)"
  shows "refines3 H S mult k priv RemoveRequest (rows, t) (DB3_Remove H k (rows, t))"
proof (cases "map_of rows k")
  case None
  then show ?thesis using inv by (simp add: refines3_def DB3_Remove_def abs3_def)
next
  case (Some r)
  obtain t2 where "Leaf_destroy H (r3_leaf r) t = Some t2" "db3_inv H S (om_del k rows, t2)"
    "kept3 (rows, t) (om_del k rows, t2)" by (rule erase3 [OF inv Some])
  then show ?thesis using Some abs3_del [OF db3_inv_om [OF inv], of k t2 t] by (simp add: refines3_def DB3_Remove_def)
qed

lemma Query_refines:
  assumes "db3_inv H S (rows, t)"
  shows "refines3 H S mult k priv QueryRequest (rows, t) (Some (DB3_Query k (rows, t), (rows, t)))"
  using assms by (cases "map_of rows k") (auto simp: refines3_def DB3_Query_def abs3_def view3_of_def)

lemma u32_to_byte_nonzero: "(n :: 32 word) \<noteq> 0 \<Longrightarrow> n \<le> 255 \<Longrightarrow> (ucast n :: byte) \<noteq> 0"
proof
  assume n: "n \<noteq> 0" "n \<le> 255" and z: "(ucast n :: byte) = 0"
  then have "unat n < 256" "unat n \<noteq> 0" by (auto simp: word_le_nat_alt unat_eq_zero)
  moreover have "unat (ucast n :: byte) = unat n mod 256"
    by (simp add: unsigned_ucast_eq take_bit_eq_mod)
  ultimately show False using z by simp
qed

lemma DB3_Run_refines:
  assumes "db3_inv H S db" "DB3_ValidateClientLog (PB_Log3 log) = OK"
  shows "\<exists>resp db'. DB3_Run H S mult (PB_Log3 log) db = Some (PB_Response3 resp, db') \<and> db3_inv H S db' \<and> kept3 db db' \<and>
    (resp, abs3 db' (log3_backup_id log)) =
      spec3 mult (log3_create_privkey log) (log3_req log) (abs3 db (log3_backup_id log)) \<and>
    (\<forall>j. j \<noteq> log3_backup_id log \<longrightarrow> abs3 db' j = abs3 db j)"
proof -
  obtain rows t where db: "db = (rows, t)" by (cases db)
  let ?k = "log3_backup_id log" and ?p = "log3_create_privkey log"
  let ?out = "case log3_req log of
                CreateRequest max_tries blinded \<Rightarrow> DB3_Create H S mult ?k ?p max_tries blinded db
              | EvaluateRequest blinded \<Rightarrow> DB3_Evaluate H S mult ?k blinded db
              | RemoveRequest \<Rightarrow> DB3_Remove H ?k db
              | QueryRequest \<Rightarrow> Some (DB3_Query ?k db, db)
              | Request3Unset \<Rightarrow> None"
  have len: "length ?k = BACKUP_ID_SIZE3" using assms(2) by (auto simp: DB3_ValidateClientLog_def split: if_splits)
  have "refines3 H S mult ?k ?p (log3_req log) db ?out"
    using assms unfolding db
    by (cases "log3_req log")
      (auto simp: DB3_ValidateClientLog_def Evaluate_refines Remove_refines Query_refines not_less
        dest: u32_to_byte_nonzero intro!: Create_refines split: if_splits)
  moreover have "DB3_Run H S mult (PB_Log3 log) db = map_option (map_prod PB_Response3 (\<lambda>d. d)) ?out"
    using assms(2) len by (simp add: DB3_Run_def Let_def)
  ultimately show ?thesis unfolding refines3_def by auto
qed

end
