(* ===== verification/DB3Props.thy ===== *)
theory DB3Props
  imports DB3Spec
begin

text \<open>
  What the refinement of db/db3.cc gives: replicas agree, evaluations under one key are limited, and
  replicated rows arrive unchanged.
\<close>

subsection \<open>Replicas\<close>

definition step3 ::
  "scalarmult_fn \<Rightarrow> pb_log \<Rightarrow> (bytes \<Rightarrow> view3 option) \<Rightarrow> pb_response \<times> (bytes \<Rightarrow> view3 option)" where
  "step3 mult l v = (case l of
      PB_Log3 log \<Rightarrow> (let (resp, r) = spec3 mult (log3_create_privkey log) (log3_req log) (v (log3_backup_id log))
                      in (PB_Response3 resp, v(log3_backup_id log := r)))
    | PB_Log2 _ \<Rightarrow> (PB_Response3 Response3Unset, v))"

lemma step3_Log3: "step3 mult (PB_Log3 log) v =
    (PB_Response3 (fst (spec3 mult (log3_create_privkey log) (log3_req log) (v (log3_backup_id log)))),
     v(log3_backup_id log := snd (spec3 mult (log3_create_privkey log) (log3_req log) (v (log3_backup_id log)))))"
  by (simp add: step3_def split_def Let_def)

definition valid3 :: "pb_log \<Rightarrow> bool" where
  "valid3 l = (DB3_ValidateClientLog l = OK)"

interpretation r3: replicated_db "db3_inv H S" abs3 valid3 "DB3_Run H S mult" "step3 mult" for H S mult
proof
  fix s l assume inv: "db3_inv H S s" and v: "valid3 l"
  obtain log where l: "l = PB_Log3 log" using v by (cases l) (auto simp: valid3_def DB3_ValidateClientLog_def)
  let ?k = "log3_backup_id log"
  obtain resp db' where r: "DB3_Run H S mult l s = Some (PB_Response3 resp, db')" "db3_inv H S db'"
    "(resp, abs3 db' ?k) = spec3 mult (log3_create_privkey log) (log3_req log) (abs3 s ?k)"
    "\<forall>j. j \<noteq> ?k \<longrightarrow> abs3 db' j = abs3 s j"
    using DB3_Run_refines [OF inv, of log mult] v l by (auto simp: valid3_def)
  have "(abs3 s)(?k := abs3 db' ?k) = abs3 db'" using r(4) by auto
  then show "\<exists>r s'. DB3_Run H S mult l s = Some (r, s') \<and> db3_inv H S s' \<and> step3 mult l (abs3 s) = (r, abs3 s')"
    using r(1-3) l by (auto simp: step3_def simp flip: r(3))
qed

subsection \<open>Evaluations\<close>

text \<open>The successful evaluations for client \<open>k\<close> in a run.\<close>

fun evaluations :: "bytes \<Rightarrow> pb_log list \<Rightarrow> pb_response list \<Rightarrow> nat" where
  "evaluations k (PB_Log3 log # ls) (PB_Response3 (EvaluateResponse Evaluate_OK e n) # rs) =
     (if log3_backup_id log = k then 1 else 0) + evaluations k ls rs"
| "evaluations k (l # ls) (r # rs) = evaluations k ls rs"
| "evaluations k _ _ = 0"

definition creates :: "bytes \<Rightarrow> pb_log \<Rightarrow> bool" where
  "creates k l = (case l of PB_Log3 log \<Rightarrow> log3_backup_id log = k \<and>
       (case log3_req log of CreateRequest _ _ \<Rightarrow> True | _ \<Rightarrow> False) | PB_Log2 _ \<Rightarrow> False)"

definition evaluated :: "response3 \<Rightarrow> bool" where
  "evaluated r = (\<exists>e n. r = EvaluateResponse Evaluate_OK e n)"

lemma evaluations_Cons:
  "evaluations k (PB_Log3 log # ls) (PB_Response3 r # rs) =
     (if evaluated r \<and> log3_backup_id log = k then 1 else 0) + evaluations k ls rs"
proof (cases r)
  case (EvaluateResponse st e n)
  then show ?thesis by (cases st) (auto simp: evaluated_def)
qed (auto simp: evaluated_def)

definition budget :: "view3 option \<Rightarrow> nat" where
  "budget v = (case v of None \<Rightarrow> 0 | Some r \<Rightarrow> unat (v3_tries r))"

lemma spec3_budget:
  assumes "spec3 mult p req v = (resp, v')" "\<forall>n b. req \<noteq> CreateRequest n b" "\<forall>r. v = Some r \<longrightarrow> v3_tries r \<noteq> 0"
  shows "budget v' + (if evaluated resp then 1 else 0) \<le> budget v \<and> (\<forall>r. v' = Some r \<longrightarrow> v3_tries r \<noteq> 0) \<and>
    (\<forall>r r'. v = Some r \<longrightarrow> v' = Some r' \<longrightarrow> v3_priv r' = v3_priv r)"
proof (cases req)
  case (EvaluateRequest b)
  show ?thesis
  proof (cases v)
    case (Some r)
    have u: "unat (v3_tries r - 1) + 1 = unat (v3_tries r)" using assms(3) Some
      by (simp add: unat_minus_one unat_gt_0 Suc_leI)
    show ?thesis using assms(1,3) EvaluateRequest Some u
      by (auto simp: budget_def evaluated_def split: option.splits if_splits)
  qed (use assms EvaluateRequest in \<open>auto simp: budget_def evaluated_def\<close>)
next
  case QueryRequest
  then show ?thesis using assms by (cases v) (auto simp: budget_def evaluated_def)
qed (use assms in \<open>auto simp: budget_def evaluated_def\<close>)

lemma step3_evaluations:
  "\<lbrakk>step_all (step3 mult) ls v = (rs, v'); \<forall>r. v k = Some r \<longrightarrow> v3_tries r \<noteq> 0; list_all valid3 ls;
    list_all (\<lambda>l. \<not> creates k l) ls\<rbrakk> \<Longrightarrow> evaluations k ls rs + budget (v' k) \<le> budget (v k)"
proof (induction ls arbitrary: v rs)
  case (Cons l ls)
  obtain log where l: "l = PB_Log3 log" using Cons.prems by (cases l) (auto simp: valid3_def DB3_ValidateClientLog_def)
  obtain resp r1 where s: "spec3 mult (log3_create_privkey log) (log3_req log) (v (log3_backup_id log)) = (resp, r1)"
    by fastforce
  let ?v1 = "v(log3_backup_id log := r1)"
  obtain rs1 where 1: "step_all (step3 mult) ls ?v1 = (rs1, v')" "rs = PB_Response3 resp # rs1"
    using Cons.prems(1) by (auto simp: l step3_Log3 s split: prod.splits)
  have vs: "list_all valid3 ls" "list_all (\<lambda>l. \<not> creates k l) ls" using Cons.prems by auto
  show ?case
  proof (cases "log3_backup_id log = k")
    case True
    have "\<forall>n b. log3_req log \<noteq> CreateRequest n b" using Cons.prems(4) True by (auto simp: l creates_def)
    from spec3_budget [OF s this] Cons.prems(2) True
    have b: "budget r1 + (if evaluated resp then 1 else 0) \<le> budget (v k)" "\<forall>r. ?v1 k = Some r \<longrightarrow> v3_tries r \<noteq> 0" by auto
    show ?thesis using Cons.IH [OF 1(1) b(2) vs] b(1) True by (simp add: l 1(2) evaluations_Cons)
  next
    case False
    then show ?thesis using Cons.IH [OF 1(1) _ vs] Cons.prems(2) by (simp add: l 1(2) evaluations_Cons)
  qed
qed simp

subsection \<open>Replication of rows\<close>

definition rows_view3 :: "db3 \<Rightarrow> (bytes \<times> view3) list" where
  "rows_view3 db = map (\<lambda>(k, r). (k, view3_of r)) (fst db)"

lemma map_of_rows_view3: "map_of (rows_view3 db) = abs3 db"
proof -
  have "map_of (map (\<lambda>(k, r). (k, view3_of r)) xs) k = map_option view3_of (map_of xs k)" for xs k
    by (induction xs) auto
  then show ?thesis by (auto simp: rows_view3_def abs3_def fun_eq_iff)
qed

lemma om_inv_rows_view3: "om_inv (fst db) \<Longrightarrow> om_inv (rows_view3 db)"
  by (simp add: om_inv_def rows_view3_def case_prod_unfold comp_def)

lemma db3_rows_ok: "db3_inv H S db \<Longrightarrow> \<forall>(k, r) \<in> set (fst db). row3_ok k r"
  using om_inv_distinct [of "fst db"] db3_inv_row [of H S "fst db" "snd db"] db3_inv_om [of H S "fst db" "snd db"]
  by (auto simp: map_of_eq_Some_iff)

lemma load_row3_view:
  assumes inv: "db3_inv H S (rows, t)" and p: "parse b = Some (row3_state k r)" and ok: "row3_ok k r"
    and lst: "rows \<noteq> [] \<Longrightarrow> fst (last rows) < k"
  shows "\<exists>db'. load_row3 H S parse b (rows, t) = Some (k, OK, db') \<and> db3_inv H S db' \<and> kept3 (rows, t) db' \<and>
    rows_view3 db' = rows_view3 (rows, t) @ [(k, view3_of r)]"
proof -
  let ?r = "\<lambda>l. r\<lparr>r3_leaf := l\<rparr>"
  have okl: "row3_ok k (?r l)" "view3_of (?r l) = view3_of r" "row3_hash S k (?r l) = row3_hash S k r" for l
    using ok by (simp_all add: row3_ok_def view3_of_def row3_hash_def DB3_HashRow_def)
  obtain h where h: "row3_hash S k r = Some h" using row3_hash_defined ok by blast
  obtain l u v l' w t' where g: "Leaf_new t = Some (l, u)" "Leaf_Update H l h u = Some v" "Leaf_move l v = Some (l', w)"
    "Leaf_destroy H l w = Some t'"
    "\<And>r. \<lbrakk>r3_leaf r = l'; row3_ok k r; row3_hash S k r = Some h\<rbrakk> \<Longrightarrow>
       db3_inv H S (om_put k r rows, t') \<and> kept3 (rows, t) (om_put k r rows, t')"
    using g3.load_row [of H S rows t h k] inv unfolding db3_inv_def by metis
  have up: "update_leaf3 H S k (?r l) u = Some v" using update_leaf3_eq [of S k "?r l" h] okl h g(2) by simp
  have tr: "\<not> rs3_tries (row3_state k r) < 1"
    using ok by (auto simp: row3_state_def row3_ok_def) (metis ucast_0 ucast_byte_u32)
  have "load_row3 H S parse b (rows, t) = Some (k, OK, (om_put k (?r l') rows, t'))"
    using p ok lst g(1,3,4) up tr
    by (cases r) (auto simp: load_row3_def Let_def row3_state_def row3_ok_def not_le)
  moreover have "om_put k (?r l') rows = rows @ [(k, ?r l')]"
    using om_put_last [OF db3_inv_om [OF inv]] lst by blast
  ultimately show ?thesis using g(5) [of "?r l'"] okl h by (auto simp: rows_view3_def)
qed

lemma rows3_out_OK:
  "rows3_out ser n rows lid out = (l, OK, res) \<Longrightarrow> \<forall>(k, r) \<in> set rows. row3_ok k r \<Longrightarrow>
   \<exists>ss. res = out @ ss \<and> list_all2 (\<lambda>(k, r) s. ser (row3_state k r) = Some s) (take n rows) ss \<and>
        l = (if take n rows = [] then lid else fst (last (take n rows)))"
proof (induction ser n rows lid out rule: rows3_out.induct)
  case (3 ser n k row rows lid out)
  then obtain s where s: "ser (row3_state k row) = Some s" "rows3_out ser n rows k (out @ [s]) = (l, OK, res)"
    by (auto simp: row3_state_def row3_ok_def split: option.splits)
  with 3 have "\<exists>ss. res = (out @ [s]) @ ss \<and> list_all2 (\<lambda>(k, r) s. ser (row3_state k r) = Some s) (take n rows) ss \<and>
    l = (if take n rows = [] then k else fst (last (take n rows)))"
    by (auto simp: row3_state_def row3_ok_def)
  then obtain ss where "res = (out @ [s]) @ ss" "list_all2 (\<lambda>(k, r) s. ser (row3_state k r) = Some s) (take n rows) ss"
    "l = (if take n rows = [] then k else fst (last (take n rows)))" by blast
  with s show ?case by (intro exI [of _ "s # ss"]) auto
qed auto

lemma load_rows3_view:
  assumes "faithful ser parse" "db3_inv H S db" "list_all2 (\<lambda>(k, r) s. ser (row3_state k r) = Some s) rs ss"
    and "om_inv (fst db @ rs)" "\<forall>(k, r) \<in> set rs. row3_ok k r"
  shows "\<exists>db'. load_rows3 H S parse ss lid db = Some (if rs = [] then lid else fst (last rs), OK, db') \<and>
    db3_inv H S db' \<and> kept3 db db' \<and> rows_view3 db' = rows_view3 db @ map (\<lambda>(k, r). (k, view3_of r)) rs"
  using assms(3,2,4,5)
proof (induction rs ss arbitrary: lid db rule: list_all2_induct)
  case (Cons x rs s ss)
  obtain k r where x: "x = (k, r)" by (cases x)
  obtain rows t where db: "db = (rows, t)" by (cases db)
  have ok: "row3_ok k r" and p: "parse s = Some (row3_state k r)"
    using Cons assms(1) x by (auto simp: faithful_def)
  have "fst (last rows) < k" if "rows \<noteq> []"
    using Cons.prems(2) that last_in_set [OF that] by (auto simp: x db om_inv_def sorted_wrt_append)
  then obtain db1 where db1: "load_row3 H S parse s (rows, t) = Some (k, OK, db1)" "db3_inv H S db1" "kept3 (rows, t) db1"
    "rows_view3 db1 = rows_view3 (rows, t) @ [(k, view3_of r)]"
    using load_row3_view [of H S rows t parse s k r] p ok Cons.prems(1) db by blast
  have "map fst (fst db1) = map fst (fst db) @ [k]"
    using arg_cong [OF db1(4), of "map fst"] by (simp add: rows_view3_def db case_prod_unfold comp_def)
  then have om: "om_inv (fst db1 @ rs)" using Cons.prems(2) by (simp add: om_inv_def x)
  from Cons.IH [OF db1(2) om, of k] Cons.prems(3)
  obtain db' where "load_rows3 H S parse ss k db1 = Some (if rs = [] then k else fst (last rs), OK, db')" "db3_inv H S db'"
    "kept3 db1 db'" "rows_view3 db' = rows_view3 db1 @ map (\<lambda>(k, r). (k, view3_of r)) rs" by auto
  then show ?case using db1 db x kept_trans [OF db1(3)] by auto
qed auto

lemma RowsAsProtos3_OK:
  assumes src: "db3_inv H S src" and out: "DB3_RowsAsProtos ser start n src = (l, OK, out)" "out \<noteq> []"
    and st: "start = [] \<or> length start = BACKUP_ID_SIZE3"
  obtains a b c where "fst src = a @ b @ c" "filter (\<lambda>(k, v). k \<le> start) (rows_view3 src) = map (\<lambda>(k, r). (k, view3_of r)) a"
    "list_all2 (\<lambda>(k, r) s. ser (row3_state k r) = Some s) b out" "b \<noteq> []" "l = fst (last b)" "length out < n \<longrightarrow> c = []"
    "start < l"
proof -
  let ?u = "if start = [] then fst src else om_upper_bound start (fst src)"
  have om: "om_inv (fst src)" using src by (cases src) (simp add: db3_inv_om)
  have u: "\<forall>(k, r) \<in> set ?u. row3_ok k r"
    using db3_rows_ok [OF src] om_upper_bound_filter [OF om, of start] by auto
  have "rows3_out ser n ?u [] [] = (l, OK, out)"
    using out(1) st by (auto simp: DB3_RowsAsProtos_def split: if_splits)
  from rows3_out_OK [OF this u] have b: "list_all2 (\<lambda>(k, r) s. ser (row3_state k r) = Some s) (take n ?u) out"
    "take n ?u \<noteq> []" "l = fst (last (take n ?u))" using out(2) by (auto split: if_splits)
  have ne: "\<forall>(k, v) \<in> set (fst src). k \<noteq> []" using db3_rows_ok [OF src] by (auto simp: row3_ok_def)
  then have sp: "fst src = filter (\<lambda>(k, v). k \<le> start) (fst src) @ ?u"
    using om_split [OF om, of start] by (cases "start = []") (auto simp: filter_empty_conv)
  have "filter (\<lambda>(k, v). k \<le> start) (rows_view3 src) = map (\<lambda>(k, r). (k, view3_of r)) (filter (\<lambda>(k, v). k \<le> start) (fst src))"
    by (simp add: rows_view3_def filter_map comp_def case_prod_unfold)
  moreover have "fst src = filter (\<lambda>(k, v). k \<le> start) (fst src) @ take n ?u @ drop n ?u" using sp by simp
  moreover have "length out < n \<longrightarrow> drop n ?u = []" using list_all2_lengthD [OF b(1)] by auto
  moreover have "start < k" if "(k, r) \<in> set ?u" for k r
    using that ne om_upper_bound_filter [OF om, of start] by (cases "start = []") (auto simp: neq_Nil_conv)
  then have "start < l" using b(2,3) last_in_set [OF b(2)] in_set_takeD by (metis prod.collapse)
  ultimately show thesis using that b by blast
qed

lemma load_view_step3:
  assumes f: "faithful ser parse" and src: "db3_inv H' S' src" and dst: "db3_inv H S dst"
    and v: "rows_view3 dst = filter (\<lambda>(k, v). k \<le> start) (rows_view3 src)"
    and out: "DB3_RowsAsProtos ser start n src = (l, OK, out)" "out \<noteq> []" "start = [] \<or> length start = BACKUP_ID_SIZE3"
  shows "\<exists>dst'. DB3_LoadRowsFromProtos H S parse out dst = Some (l, OK, dst') \<and> db3_inv H S dst' \<and> kept3 dst dst' \<and>
    rows_view3 dst' = filter (\<lambda>(k, v). k \<le> l) (rows_view3 src) \<and> (length out < n \<longrightarrow> rows_view3 dst' = rows_view3 src) \<and> start < l"
proof -
  let ?w = "map (\<lambda>(k, r). (k, view3_of r))"
  obtain a b c where s: "fst src = a @ b @ c" "rows_view3 dst = ?w a"
    "list_all2 (\<lambda>(k, r) s. ser (row3_state k r) = Some s) b out" "b \<noteq> []" "l = fst (last b)" "length out < n \<longrightarrow> c = []"
    "start < l" using RowsAsProtos3_OK [OF src out] v by metis
  have om: "om_inv (a @ b @ c)" using src s(1) db3_inv_om by (metis prod.collapse)
  have ks: "map fst (fst dst) = map fst a"
    using arg_cong [OF s(2), of "map fst"] by (simp add: rows_view3_def case_prod_unfold comp_def)
  have "map fst (fst dst @ b) = map fst (a @ b)" using ks by simp
  then have om1: "om_inv (fst dst @ b)" using om by (simp add: om_inv_def sorted_wrt_append)
  have "\<forall>(k, r) \<in> set b. row3_ok k r" using db3_rows_ok [OF src] s(1) by auto
  from load_rows3_view [OF f dst s(3) om1 this, of "[]"] obtain dst' where
    d: "load_rows3 H S parse out [] dst = Some (l, OK, dst')" "db3_inv H S dst'" "kept3 dst dst'"
      "rows_view3 dst' = ?w a @ ?w b" using s(2,4,5) by auto
  have len: "length (fst dst') = length (fst dst) + length out"
    using arg_cong [OF d(4), of length] arg_cong [OF ks, of length] list_all2_lengthD [OF s(3)] by (simp add: rows_view3_def)
  have "fst (last (?w b)) = l" using s(4,5) by (simp add: last_map case_prod_unfold)
  moreover have "om_inv (?w (a @ b @ c))" using om by (simp add: om_inv_def case_prod_unfold comp_def)
  then have "om_inv (?w a @ ?w b)" by (auto simp: om_inv_def sorted_wrt_append)
  moreover have "\<forall>y \<in> set c. l < fst y"
    using om s(5) last_in_set [OF s(4)] by (auto simp: om_inv_def sorted_wrt_append)
  then have "filter (\<lambda>(k, v). k \<le> l) (?w c) = []" by (auto simp: filter_empty_conv)
  ultimately have "filter (\<lambda>(k, v). k \<le> l) (rows_view3 src) = ?w a @ ?w b"
    using sorted_prefix [of "?w a" "?w b" "?w c"] s(1,4) by (simp add: rows_view3_def)
  then show ?thesis using d len out(2) s(1,6,7) by (auto simp: DB3_LoadRowsFromProtos_def rows_view3_def)
qed

lemma hash_rows3_view:
  "map (\<lambda>(k, r). (k, view3_of r)) xs = map (\<lambda>(k, r). (k, view3_of r)) ys \<Longrightarrow> hash_rows3 S xs = hash_rows3 S ys"
proof (induction xs arbitrary: ys)
  case (Cons x xs)
  then obtain y ys' where y: "ys = y # ys'" by (cases ys) auto
  then show ?case using Cons.IH [of ys'] Cons.prems
    by (cases x; cases y) (auto simp: DB3_HashRow_def view3_of_def)
qed auto

lemma DB3_Hash_view:
  assumes "db3_inv H S a" "db3_inv H S b" "abs3 a = abs3 b"
  shows "DB3_Hash sha S a = DB3_Hash sha S b"
proof -
  have v: "rows_view3 a = rows_view3 b"
    using assms by (metis db3_inv_om map_of_rows_view3 om.extensional om_inv_rows_view3 prod.collapse)
  then have "length (fst a) = length (fst b)" by (metis length_map rows_view3_def)
  then show ?thesis using hash_rows3_view [OF v [unfolded rows_view3_def], of S] by (simp add: DB3_Hash_def)
qed

subsection \<open>Properties\<close>

lemma db3_empty: "pend H t {} \<Longrightarrow> db3_inv H S ([], t) \<and> abs3 ([], t) = Map.empty"
  by (simp add: db3_inv_def guarded_def abs3_def fun_eq_iff)

definition demo_sip3 :: siphash_fn where
  "demo_sip3 key data n = replicate n (sum_list data)"

definition demo_mult :: scalarmult_fn where
  "demo_mult k b = Some (map2 (+) k b)"

abbreviation demo_id3 :: bytes where "demo_id3 \<equiv> replicate 16 1"
abbreviation demo_create :: pb_log where
  "demo_create \<equiv> PB_Log3 \<lparr>log3_backup_id = demo_id3, log3_req = CreateRequest 2 (replicate 32 5),
                          log3_create_privkey = replicate 32 7\<rparr>"
abbreviation demo_evaluate :: pb_log where
  "demo_evaluate \<equiv> PB_Log3 \<lparr>log3_backup_id = demo_id3, log3_req = EvaluateRequest (replicate 32 6), log3_create_privkey = []\<rparr>"

lemma demo_db3:
  assumes "list_all valid3 ls"
  obtains t rs db where "Tree_init demo_hash = Some t" "db3_inv demo_hash demo_sip3 ([], t)"
    "run_all (DB3_Run demo_hash demo_sip3 demo_mult) ls ([], t) = Some (rs, db)"
    "db3_inv demo_hash demo_sip3 db" "step_all (step3 demo_mult) ls Map.empty = (rs, abs3 db)"
proof -
  obtain t where t: "Tree_init demo_hash = Some t" "pend demo_hash t {}" using Tree_init_pend by blast
  then show thesis
    using r3.run_all_law [of demo_hash demo_sip3 "([], t)" ls] db3_empty [OF t(2), of demo_sip3] assms that by metis
qed

lemma demo_created:
  "step_all (step3 demo_mult) [demo_create] Map.empty = (rs, v) \<Longrightarrow>
   v = map_of [(demo_id3, \<lparr>v3_priv = replicate 32 7, v3_tries = 2\<rparr>)]"
  by (auto simp: step3_Log3 demo_mult_def)

text \<open>C17: \<^verbatim>\<open>DB3::Run\<close> refines its specification.  On a log entry that \<^verbatim>\<open>ValidateClientLog\<close> accepts, \<^verbatim>\<open>Run\<close>
  returns without a failed CHECK, answers and changes the row of the client exactly as \<open>spec3\<close> says, leaves
  every other row as it is, and keeps the invariant.\<close>

theorem db3_run_refines_spec:
  assumes "db3_inv H S db" "DB3_ValidateClientLog (PB_Log3 log) = OK"
  shows "\<exists>resp db'. DB3_Run H S mult (PB_Log3 log) db = Some (PB_Response3 resp, db') \<and> db3_inv H S db' \<and>
    (resp, abs3 db' (log3_backup_id log)) =
      spec3 mult (log3_create_privkey log) (log3_req log) (abs3 db (log3_backup_id log)) \<and>
    (\<forall>j. j \<noteq> log3_backup_id log \<longrightarrow> abs3 db' j = abs3 db j)"
  using DB3_Run_refines [OF assms] by blast

theorem db3_run_refines_spec_witness:
  "\<exists>t db'. Tree_init demo_hash = Some t \<and>
     DB3_Run demo_hash demo_sip3 demo_mult demo_create ([], t) =
       Some (PB_Response3 (CreateResponse Create_OK (replicate 32 12)), db') \<and>
     abs3 db' demo_id3 = Some \<lparr>v3_priv = replicate 32 7, v3_tries = 2\<rparr>"
proof -
  obtain t where t: "Tree_init demo_hash = Some t" "pend demo_hash t {}" using Tree_init_pend by blast
  have "DB3_ValidateClientLog demo_create = OK" by (simp add: DB3_ValidateClientLog_def)
  from db3_run_refines_spec [OF conjunct1 [OF db3_empty [OF t(2), of demo_sip3]] this, of demo_mult] t(1)
  show ?thesis by (auto simp: demo_mult_def zip_replicate out_array_def)
qed

text \<open>C18: Evaluations are limited.  Between two creations of a client's row, whatever requests are applied, the
  evaluations that succeed for this client and the tries that are left afterwards are together at most the
  tries at the start, so at most \<^verbatim>\<open>max_tries\<close> evaluations are answered under one key.\<close>

theorem db3_evaluation_limit:
  assumes "db3_inv H S db" "list_all (\<lambda>l. DB3_ValidateClientLog l = OK \<and> \<not> creates k l) ls"
  shows "\<exists>rs db'. run_all (DB3_Run H S mult) ls db = Some (rs, db') \<and>
    evaluations k ls rs + budget (abs3 db' k) \<le> budget (abs3 db k)"
proof -
  have v: "list_all valid3 ls" "list_all (\<lambda>l. \<not> creates k l) ls" using assms(2) by (auto simp: list_all_iff valid3_def)
  obtain rs db' where r: "run_all (DB3_Run H S mult) ls db = Some (rs, db')"
    "step_all (step3 mult) ls (abs3 db) = (rs, abs3 db')"
    using r3.run_all_law [OF assms(1) v(1)] by blast
  have "\<forall>r. abs3 db k = Some r \<longrightarrow> v3_tries r \<noteq> 0"
    using db3_inv_row [of H S "fst db" "snd db" k] assms(1) by (auto simp: abs3_def view3_of_def row3_ok_def)
  from step3_evaluations [OF r(2) this v] r(1) show ?thesis by blast
qed

theorem db3_evaluation_limit_witness:
  "\<exists>t rs0 db rs db'. Tree_init demo_hash = Some t \<and>
     run_all (DB3_Run demo_hash demo_sip3 demo_mult) [demo_create] ([], t) = Some (rs0, db) \<and>
     run_all (DB3_Run demo_hash demo_sip3 demo_mult) [demo_evaluate, demo_evaluate, demo_evaluate] db = Some (rs, db') \<and>
     evaluations demo_id3 [demo_evaluate, demo_evaluate, demo_evaluate] rs \<le> 2"
proof -
  have v: "list_all valid3 [demo_create]" by (simp add: valid3_def DB3_ValidateClientLog_def)
  obtain t rs0 db where 1: "Tree_init demo_hash = Some t"
    "run_all (DB3_Run demo_hash demo_sip3 demo_mult) [demo_create] ([], t) = Some (rs0, db)"
    "db3_inv demo_hash demo_sip3 db" "step_all (step3 demo_mult) [demo_create] Map.empty = (rs0, abs3 db)"
    using demo_db3 [OF v] by metis
  have b: "budget (abs3 db demo_id3) = 2" unfolding demo_created [OF 1(4)] by (simp add: budget_def)
  have "list_all (\<lambda>l. DB3_ValidateClientLog l = OK \<and> \<not> creates demo_id3 l) [demo_evaluate, demo_evaluate, demo_evaluate]"
    by (simp add: DB3_ValidateClientLog_def creates_def)
  from db3_evaluation_limit [OF 1(3) this, of demo_mult] obtain rs db' where
    "run_all (DB3_Run demo_hash demo_sip3 demo_mult) [demo_evaluate, demo_evaluate, demo_evaluate] db = Some (rs, db')"
    "evaluations demo_id3 [demo_evaluate, demo_evaluate, demo_evaluate] rs + budget (abs3 db' demo_id3) \<le> budget (abs3 db demo_id3)"
    by blast
  moreover from this(2) have "evaluations demo_id3 [demo_evaluate, demo_evaluate, demo_evaluate] rs \<le> 2"
    unfolding b by (rule add_leD1)
  ultimately show ?thesis using 1(1,2) by blast
qed

definition demo_row_state3 :: db3_row_state where
  "demo_row_state3 = \<lparr>rs3_backup_id = demo_id3, rs3_priv = replicate 32 7, rs3_tries = 2\<rparr>"

text \<open>C19: A whole replicated SVR3 database arrives unchanged: loading into an empty database what
  \<^verbatim>\<open>RowsAsProtos\<close> wrote for all rows gives the same contents, and the same database hash.\<close>

theorem db3_replication_round_trip:
  assumes "faithful ser parse" "db3_inv H S src" "db3_inv H S ([], t)"
    and "DB3_RowsAsProtos ser [] n src = (l, OK, out)" "length (fst src) \<le> n"
  shows "\<exists>dst. DB3_LoadRowsFromProtos H S parse out ([], t) = Some (l, OK, dst) \<and> db3_inv H S dst \<and>
    abs3 dst = abs3 src \<and> DB3_Hash sha S dst = DB3_Hash sha S src"
proof -
  have "rows3_out ser n (fst src) [] [] = (l, OK, out)" using assms(4) by (simp add: DB3_RowsAsProtos_def)
  from rows3_out_OK [OF this db3_rows_ok [OF assms(2)]]
  have ss: "list_all2 (\<lambda>(k, r) s. ser (row3_state k r) = Some s) (fst src) out"
    "l = (if fst src = [] then [] else fst (last (fst src)))" using assms(5) by auto
  have om: "om_inv (fst ([], t) @ fst src)" using assms(2) db3_inv_om [of H S "fst src" "snd src"] by simp
  from load_rows3_view [OF assms(1,3) ss(1) om db3_rows_ok [OF assms(2)], of "[]"] obtain dst where
    d: "load_rows3 H S parse out [] ([], t) = Some (l, OK, dst)" "db3_inv H S dst" "rows_view3 dst = rows_view3 src"
    using ss(2) by (auto simp: rows_view3_def)
  have a: "abs3 dst = abs3 src" using d(3) map_of_rows_view3 by metis
  have "length (fst dst) = length out"
    using arg_cong [OF d(3), of length] list_all2_lengthD [OF ss(1)] by (simp add: rows_view3_def)
  then show ?thesis using d a DB3_Hash_view [OF d(2) assms(2) a] by (simp add: DB3_LoadRowsFromProtos_def)
qed

theorem db3_replication_round_trip_witness:
  "\<exists>t rs src dst. Tree_init demo_hash = Some t \<and>
     run_all (DB3_Run demo_hash demo_sip3 demo_mult) [demo_create] ([], t) = Some (rs, src) \<and>
     DB3_LoadRowsFromProtos demo_hash demo_sip3 (\<lambda>b. if b = [0] then Some demo_row_state3 else None) [[0]] ([], t) =
       Some (demo_id3, OK, dst) \<and> abs3 dst = abs3 src"
proof -
  let ?w = "\<lparr>v3_priv = replicate 32 7, v3_tries = 2\<rparr>"
  let ?ser = "\<lambda>r. if r = demo_row_state3 then Some [0 :: byte] else None"
  have v: "list_all valid3 [demo_create]" by (simp add: valid3_def DB3_ValidateClientLog_def)
  obtain t rs src where 1: "Tree_init demo_hash = Some t" "db3_inv demo_hash demo_sip3 ([], t)"
    "run_all (DB3_Run demo_hash demo_sip3 demo_mult) [demo_create] ([], t) = Some (rs, src)"
    "db3_inv demo_hash demo_sip3 src" "step_all (step3 demo_mult) [demo_create] Map.empty = (rs, abs3 src)"
    by (rule demo_db3 [OF v])
  have "rows_view3 src = [(demo_id3, ?w)]"
    using map_of_rows_view3 [of src] om_inv_rows_view3 [of src] db3_inv_om [of demo_hash demo_sip3 "fst src" "snd src"]
      1(4) om_eqI [of "rows_view3 src" "[(demo_id3, ?w)]"] demo_created [OF 1(5)] by (simp add: om_inv_Cons)
  then obtain r where r: "fst src = [(demo_id3, r)]" "view3_of r = ?w" by (auto simp: rows_view3_def)
  then have "row3_state demo_id3 r = demo_row_state3" by (auto simp: row3_state_def demo_row_state3_def view3_of_def)
  then have out: "DB3_RowsAsProtos ?ser [] 2 src = (demo_id3, OK, [[0]])"
    by (simp add: DB3_RowsAsProtos_def r(1) numeral_2_eq_2 demo_row_state3_def)
  have f: "faithful ?ser (\<lambda>b. if b = [0] then Some demo_row_state3 else None)" by (simp add: faithful_def)
  have n: "length (fst src) \<le> 2" by (simp add: r(1))
  from db3_replication_round_trip [OF f 1(4,2) out n] 1(1,3) show ?thesis by blast
qed

end
