(* ===== verification/DatabaseSpec.thy ===== *)
theory DatabaseSpec
  imports Database DB2Props DB3Props
begin

text \<open>
  The contract of src/enclave/db/db.h for the core, uniformly for the two databases: \<open>abs_db\<close> is the map of rows that a database
  stands for, \<open>db_step\<close> what a log entry does to it.  The locale \<open>keyed_store\<close> states what state transfer relies on: an
  entry reads and writes the row of its key only, so it commutes with cutting the map off at a key.
\<close>

datatype db_view = View2 "bytes \<Rightarrow> view2 option" | View3 "bytes \<Rightarrow> view3 option"

fun abs_db :: "database \<times> tree \<Rightarrow> db_view" where
  "abs_db (DB2_rows rows, t) = View2 (abs2 (rows, t))"
| "abs_db (DB3_rows rows, t) = View3 (abs3 (rows, t))"

fun db_inv :: "(bytes \<Rightarrow> hash) \<Rightarrow> db_env \<Rightarrow> database \<times> tree \<Rightarrow> bool" where
  "db_inv H D (DB2_rows rows, t) = db2_inv H (de_sip D) (rows, t)"
| "db_inv H D (DB3_rows rows, t) = db3_inv H (de_sip D) (rows, t)"

fun db_owned :: "database \<Rightarrow> leaf_id set" where
  "db_owned (DB2_rows rows) = owned r2_leaf rows"
| "db_owned (DB3_rows rows) = owned r3_leaf rows"

text \<open>Leaves of other owners keep their hashes and stay with their owners.\<close>

definition db_kept :: "database \<times> tree \<Rightarrow> database \<times> tree \<Rightarrow> bool" where
  "db_kept a b \<longleftrightarrow> (\<forall>l. leaf_hash (snd a) l \<noteq> None \<and> l \<notin> db_owned (fst a) \<longrightarrow>
     leaf_hash (snd b) l = leaf_hash (snd a) l \<and> l \<notin> db_owned (fst b))"

fun db_of :: "protocol \<Rightarrow> database \<Rightarrow> bool" where
  "db_of db2_protocol db = (case db of DB2_rows _ \<Rightarrow> True | DB3_rows _ \<Rightarrow> False)"
| "db_of db3_protocol db = (case db of DB2_rows _ \<Rightarrow> False | DB3_rows _ \<Rightarrow> True)"

fun db_step :: "db_env \<Rightarrow> pb_log \<Rightarrow> db_view \<Rightarrow> pb_response \<times> db_view" where
  "db_step D log (View2 v) = (let (r, v) = step2 log v in (r, View2 v))"
| "db_step D log (View3 v) = (let (r, v) = step3 (de_mult D) log v in (r, View3 v))"

text \<open>The rows with keys up to a bound.\<close>

fun view_upto :: "bytes \<Rightarrow> db_view \<Rightarrow> db_view" where
  "view_upto b (View2 v) = View2 (v |` {k. k \<le> b})"
| "view_upto b (View3 v) = View3 (v |` {k. k \<le> b})"

lemma db_of_cases:
  assumes "db_of p db"
  obtains rows where "p = db2_protocol" "db = DB2_rows rows" | rows where "p = db3_protocol" "db = DB3_rows rows"
  using assms by (cases p; cases db) auto

lemma db_kept_trans: "db_kept a b \<Longrightarrow> db_kept b c \<Longrightarrow> db_kept a c"
  by (auto simp: db_kept_def)

lemma db_kept_refl [simp]: "db_kept a a"
  by (simp add: db_kept_def)

lemma NewDB_law:
  assumes "pend H t {}"
  shows "db_inv H D (NewDB p, t) \<and> db_of p (NewDB p) \<and> db_owned (NewDB p) = {} \<and>
    view_upto b (abs_db (NewDB p, t)) = abs_db (NewDB p, t)"
  using db2_empty [OF assms, of "de_sip D"] db3_empty [OF assms, of "de_sip D"] by (cases p) (auto simp: NewDB_def owned_def)

lemma db_inv_pend: "db_inv H D (db, t) \<Longrightarrow> pend H t {}"
  by (cases db) (simp_all add: db2_inv_def db3_inv_def guarded_def)

text \<open>The invariant only depends on the hashes that the tree keeps for the rows.\<close>

lemma db_inv_tree:
  assumes "db_inv H D (db, t)" "pend H u {}" "\<And>l. l \<in> db_owned db \<Longrightarrow> leaf_hash u l = leaf_hash t l"
  shows "db_inv H D (db, u) \<and> abs_db (db, u) = abs_db (db, t)"
  using assms
  by (cases db) (fastforce simp: db2_inv_def db3_inv_def guarded_def owned_def ran_def abs2_def abs3_def fun_eq_iff)+

lemma DB_Run_law:
  assumes inv: "db_inv H D (db, t)" and p: "db_of p db" and v: "ValidateClientLog p log = OK"
  shows "\<exists>r db' t'. DB_Run H D log (db, t) = Some (r, db', t') \<and> db_inv H D (db', t') \<and> db_of p db' \<and> db_kept (db, t) (db', t') \<and>
    db_step D log (abs_db (db, t)) = (r, abs_db (db', t'))"
  using p
proof (cases rule: db_of_cases)
  case (1 rows)
  then obtain l where l: "log = PB_Log2 l" using v by (cases log) (auto simp: ValidateClientLog_def DB2_ValidateClientLog_def)
  have i: "db2_inv H (de_sip D) (rows, t)" using inv 1 by simp
  obtain resp db' where r: "DB2_Run H (de_sip D) log (rows, t) = Some (PB_Response resp, db')" "db2_inv H (de_sip D) db'" "kept2 (rows, t) db'"
    using DB2_Run_refines [OF i, of l] v 1 l by (auto simp: ValidateClientLog_def)
  have "step2 log (abs2 (rows, t)) = (PB_Response resp, abs2 db')"
    using r2.run_law [OF i, of log] r(1) v 1 by (auto simp: valid2_def ValidateClientLog_def)
  then show ?thesis using 1 r by (cases db') (auto simp: DB_Run_def db_kept_def kept_def)
next
  case (2 rows)
  then obtain l where l: "log = PB_Log3 l" using v by (cases log) (auto simp: ValidateClientLog_def DB3_ValidateClientLog_def)
  have i: "db3_inv H (de_sip D) (rows, t)" using inv 2 by simp
  obtain resp db' where r: "DB3_Run H (de_sip D) (de_mult D) log (rows, t) = Some (PB_Response3 resp, db')" "db3_inv H (de_sip D) db'" "kept3 (rows, t) db'"
    using DB3_Run_refines [OF i, of l "de_mult D"] v 2 l by (auto simp: ValidateClientLog_def)
  have "step3 (de_mult D) log (abs3 (rows, t)) = (PB_Response3 resp, abs3 db')"
    using r3.run_law [OF i, of log "de_mult D"] r(1) v 2 by (auto simp: valid3_def ValidateClientLog_def)
  then show ?thesis using 2 r by (cases db') (auto simp: DB_Run_def db_kept_def kept_def)
qed

subsection \<open>Entries act on their own row\<close>

locale keyed_store =
  fixes key :: "'log \<Rightarrow> 'k::linorder option"
    and upto :: "'k \<Rightarrow> 'v \<Rightarrow> 'v"
    and step :: "'log \<Rightarrow> 'v \<Rightarrow> 'v"
    and fits :: "'log \<Rightarrow> 'v \<Rightarrow> bool"
  assumes fits_upto: "fits l v \<Longrightarrow> fits l (upto b v)"
    and below: "fits l v \<Longrightarrow> key l = Some k \<Longrightarrow> k \<le> b \<Longrightarrow> step l (upto b v) = upto b (step l v)"
    and above: "fits l v \<Longrightarrow> key l = Some k \<Longrightarrow> b < k \<Longrightarrow> upto b (step l v) = upto b v"
begin

text \<open>Cutting off after an entry is applying the entry, if its key is below the bound, to what was cut off.\<close>

lemma cut_step:
  assumes "fits l v" "key l = Some k"
  shows "upto b (step l v) = (if b < k then upto b v else step l (upto b v))"
  using below [OF assms, of b] above [OF assms, of b] by auto

end

fun view_of :: "protocol \<Rightarrow> db_view \<Rightarrow> bool" where
  "view_of db2_protocol v = (case v of View2 _ \<Rightarrow> True | View3 _ \<Rightarrow> False)"
| "view_of db3_protocol v = (case v of View2 _ \<Rightarrow> False | View3 _ \<Rightarrow> True)"

lemma view_of_cases:
  assumes "view_of p v"
  obtains f where "p = db2_protocol" "v = View2 f" | f where "p = db3_protocol" "v = View3 f"
  using assms by (cases p; cases v) auto

lemma view_of_abs: "view_of p (abs_db (db, t)) = db_of p db"
  by (cases p; cases db) auto

lemma LogKey_valid: "ValidateClientLog p log = OK \<Longrightarrow> \<exists>k. LogKey p log = Some k \<and> length k = 16"
  by (cases p; cases log)
    (auto simp: ValidateClientLog_def DB2_ValidateClientLog_def DB3_ValidateClientLog_def LogKey_def DB2_LogKey_def DB3_LogKey_def
      split: if_splits)

interpretation ks: keyed_store "LogKey p" view_upto "\<lambda>l v. snd (db_step D l v)"
  "\<lambda>l v. view_of p v \<and> ValidateClientLog p l = OK" for p D
proof
  fix l v k b
  assume f: "view_of p v \<and> ValidateClientLog p l = OK" and k: "LogKey p l = Some k"
  show "snd (db_step D l (view_upto b v)) = view_upto b (snd (db_step D l v))" if "k \<le> b"
    using conjunct1 [OF f] by (cases rule: view_of_cases)
      (use f k that in \<open>auto simp: LogKey_def DB2_LogKey_def DB3_LogKey_def step2_Log2 step3_Log3 fun_eq_iff restrict_map_def split: pb_log.splits\<close>)
  show "view_upto b (snd (db_step D l v)) = view_upto b v" if "b < k"
    using conjunct1 [OF f] by (cases rule: view_of_cases)
      (use f k that in \<open>auto simp: LogKey_def DB2_LogKey_def DB3_LogKey_def step2_Log2 step3_Log3 fun_eq_iff restrict_map_def split: pb_log.splits\<close>)
qed (auto elim: view_of_cases)

subsection \<open>Loading rows\<close>

definition row_codecs :: "db_env \<Rightarrow> bool" where
  "row_codecs D \<longleftrightarrow> faithful (de_ser_row2 D) (de_parse_row2 D) \<and> faithful (de_ser_row3 D) (de_parse_row3 D)"

lemma rows_upto:
  assumes "om_inv xs"
  shows "map_of (filter (\<lambda>(k, v). k \<le> b) xs) = map_of xs |` {k. k \<le> b}"
  using om_inv_distinct [OF assms]
  by (induction xs) (auto simp: fun_eq_iff restrict_map_def map_of_eq_None_iff split: if_splits)

lemma rows_view_upto:
  assumes "db2_inv H S dst" "db2_inv H' S' src" "abs2 dst = abs2 src |` {k. k \<le> b}"
  shows "rows_view dst = filter (\<lambda>(k, v). k \<le> b) (rows_view src)"
proof -
  have om: "om_inv (rows_view dst)" "om_inv (rows_view src)"
    using assms(1,2) db2_inv_om om_inv_rows_view by (metis prod.collapse)+
  then have "om_inv (filter (\<lambda>(k, v). k \<le> b) (rows_view src))"
    by (auto simp: om_inv_def sorted_wrt_map intro: sorted_wrt_filter)
  then show ?thesis using om.extensional om assms(3) rows_upto [OF om(2), of b] by (simp add: map_of_rows_view om_eqI)
qed

lemma rows_view3_upto:
  assumes "db3_inv H S dst" "db3_inv H' S' src" "abs3 dst = abs3 src |` {k. k \<le> b}"
  shows "rows_view3 dst = filter (\<lambda>(k, v). k \<le> b) (rows_view3 src)"
proof -
  have om: "om_inv (rows_view3 dst)" "om_inv (rows_view3 src)"
    using assms(1,2) db3_inv_om om_inv_rows_view3 by (metis prod.collapse)+
  then have "om_inv (filter (\<lambda>(k, v). k \<le> b) (rows_view3 src))"
    by (auto simp: om_inv_def sorted_wrt_map intro: sorted_wrt_filter)
  then show ?thesis using om assms(3) rows_upto [OF om(2), of b] by (simp add: map_of_rows_view3 om_eqI)
qed

end
