(* ===== verification/Queue.thy ===== *)
theory Queue
  imports Prelude
begin

text \<open>
  src/enclave/queue: a bounded blocking queue.  An operation whose wait condition does not hold blocks, which is
  \<^term>\<open>None\<close>; the mutex makes the rest of each operation one step, so that the threads' work is a sequence of steps.
  \<^verbatim>\<open>Flush\<close> is split at its wait: the mark it computes and the condition it waits for.  The constructor leaves the
  counter \<^verbatim>\<open>popped_\<close> uninitialised, hence its argument.
\<close>

record 'a queue =
  q_d :: "'a list"
  q_max_size :: nat
  q_popped :: nat

definition Queue_new :: "nat \<Rightarrow> nat \<Rightarrow> 'a queue" where
  "Queue_new max_size uninit = \<lparr>q_d = [], q_max_size = max_size, q_popped = uninit\<rparr>"

definition Queue_Push :: "'a queue \<Rightarrow> 'a \<Rightarrow> 'a queue option" where
  "Queue_Push q val = (if length (q_d q) < q_max_size q then Some (q\<lparr>q_d := q_d q @ [val]\<rparr>) else None)"

definition Queue_Pop :: "'a queue \<Rightarrow> ('a queue \<times> 'a) option" where
  "Queue_Pop q =
     (case q_d q of
        [] \<Rightarrow> None
      | front # rest \<Rightarrow> Some (q\<lparr>q_d := rest, q_popped := u64_add (q_popped q) 1\<rparr>, front))"

definition Flush_wait_for :: "'a queue \<Rightarrow> nat" where
  "Flush_wait_for q = u64_add (q_popped q) (length (q_d q))"

definition Flush_done :: "'a queue \<Rightarrow> nat \<Rightarrow> bool" where
  "Flush_done q wait_for = (q_popped q \<ge> wait_for)"

datatype 'a queue_op = QPush 'a | QPop

fun run_queue :: "'a queue \<Rightarrow> 'a queue_op list \<Rightarrow> ('a queue \<times> 'a list) option" where
  "run_queue q [] = Some (q, [])"
| "run_queue q (QPush v # ops) = do { q1 \<leftarrow> Queue_Push q v; run_queue q1 ops }"
| "run_queue q (QPop # ops) =
     do { (q1, x) \<leftarrow> Queue_Pop q; (q2, xs) \<leftarrow> run_queue q1 ops; Some (q2, x # xs) }"

fun pushed :: "'a queue_op list \<Rightarrow> 'a list" where
  "pushed [] = []"
| "pushed (QPush v # ops) = v # pushed ops"
| "pushed (QPop # ops) = pushed ops"

lemma run_queue_contents:
  "run_queue q ops = Some (q', out) \<Longrightarrow> length (q_d q) \<le> q_max_size q \<Longrightarrow>
     out @ q_d q' = q_d q @ pushed ops \<and> length (q_d q') \<le> q_max_size q' \<and> q_max_size q' = q_max_size q"
proof (induction q ops arbitrary: q' out rule: run_queue.induct)
  case (2 q v ops)
  from 2(2) obtain q1 where s: "Queue_Push q v = Some q1" "run_queue q1 ops = Some (q', out)" by (auto split: bind_splits)
  then show ?case using 2(1) [OF s] by (auto simp: Queue_Push_def split: if_splits)
next
  case (3 q ops)
  from 3(2) obtain q1 x xs where s: "Queue_Pop q = Some (q1, x)" "run_queue q1 ops = Some (q', xs)" "out = x # xs"
    by (auto split: bind_splits)
  then show ?case using 3(1) [OF s(1) refl s(2)] 3(3) by (auto simp: Queue_Pop_def split: list.splits)
qed simp

lemma run_queue_popped:
  "run_queue q ops = Some (q', out) \<Longrightarrow> q_popped q + length out < 2 ^ 64 \<Longrightarrow> q_popped q' = q_popped q + length out"
proof (induction q ops arbitrary: q' out rule: run_queue.induct)
  case (2 q v ops)
  from 2(2) obtain q1 where s: "Queue_Push q v = Some q1" "run_queue q1 ops = Some (q', out)" by (auto split: bind_splits)
  then show ?case using 2(1) [OF s] 2(3) by (auto simp: Queue_Push_def split: if_splits)
next
  case (3 q ops)
  from 3(2) obtain q1 x xs where s: "Queue_Pop q = Some (q1, x)" "run_queue q1 ops = Some (q', xs)" "out = x # xs"
    by (auto split: bind_splits)
  have "q_popped q1 = q_popped q + 1" using s(1,3) 3(3) by (auto simp: Queue_Pop_def u64_add_exact split: list.splits)
  then show ?case using 3(1) [OF s(1) refl s(2)] 3(3) s(3) by simp
qed simp

text \<open>C27: the queue is a bounded FIFO and Flush waits for what was in it.  Under any sequence of pushes and pops the popped elements
  followed by the contents are the old contents followed by the pushed elements, and the bound holds; while the counter does
  not wrap, the condition that Flush waits for holds exactly when all that was in the queue at its start has been popped.\<close>

theorem queue_fifo_and_flush:
  assumes "run_queue q ops = Some (q', out)" "length (q_d q) \<le> q_max_size q"
    "q_popped q + length (q_d q) + length out < 2 ^ 64"
  shows "out @ q_d q' = q_d q @ pushed ops \<and> length (q_d q') \<le> q_max_size q' \<and>
    (Flush_done q' (Flush_wait_for q) \<longleftrightarrow> (\<exists>more. out = q_d q @ more))"
proof -
  have c: "out @ q_d q' = q_d q @ pushed ops" "length (q_d q') \<le> q_max_size q'"
    using run_queue_contents [OF assms(1,2)] by simp_all
  have "q_popped q' = q_popped q + length out" using run_queue_popped [OF assms(1)] assms(3) by simp
  then have "Flush_done q' (Flush_wait_for q) \<longleftrightarrow> length (q_d q) \<le> length out"
    using assms(3) by (simp add: Flush_done_def Flush_wait_for_def u64_add_exact)
  moreover have "take (length (q_d q)) out = q_d q" if "length (q_d q) \<le> length out"
    using arg_cong [OF c(1), of "take (length (q_d q))"] that by simp
  then have "length (q_d q) \<le> length out \<longleftrightarrow> (\<exists>more. out = q_d q @ more)"
    by (metis append_take_drop_id le_add1 length_append)
  ultimately show ?thesis using c by blast
qed

theorem queue_fifo_and_flush_witness:
  "\<exists>q'. run_queue (Queue_new 2 0) [QPush (1 :: nat), QPush 2, QPop, QPush 3] = Some (q', [1]) \<and> [1] @ q_d q' = [1, 2, 3]"
proof -
  have "map_option snd (run_queue (Queue_new 2 0) [QPush (1 :: nat), QPush 2, QPop, QPush 3]) = Some [1]" by code_simp
  then obtain q' where r: "run_queue (Queue_new 2 0) [QPush (1 :: nat), QPush 2, QPop, QPush 3] = Some (q', [1])" by auto
  show ?thesis using queue_fifo_and_flush [OF r] r by (simp add: Queue_new_def)
qed

text \<open>An uninitialised counter can make Flush return too early.  From the values of \<^verbatim>\<open>popped_\<close> that the constructor may leave there
  is one for which Flush does not wait at all although an element is queued.\<close>

lemma queue_flush_uninitialised:
  "\<exists>q. Queue_Push (Queue_new 1 (2 ^ 64 - 1)) v = Some q \<and> q_d q = [v] \<and> Flush_done q (Flush_wait_for q)"
  by (simp add: Queue_Push_def Queue_new_def Flush_done_def Flush_wait_for_def u64_add_def)

end
