(* ===== verification/Noise.thy ===== *)
theory Noise
  imports Util
begin

text \<open>
  src/enclave/noise: framing of messages of any length into Noise packets.  The noise-c library is the record
  \<open>noise_c\<close> of its functions on handshake states \<open>'hs\<close>, cipher states \<open>'cs\<close> and key pairs \<open>'dh\<close>; a library call that
  mutates a state returns the new one, also when it fails.  The random choices of the library are functions of a seed
  that is given to the call that creates a state.  What the proofs use of the library are the two predicates
  \<open>cipher_sizes\<close> (the documented sizes of \<^verbatim>\<open>noise_cipherstate_encrypt\<close> and \<^verbatim>\<open>_decrypt\<close>) and \<open>cipher_pairing\<close> (the two
  ends of a channel undo each other's encryptions in order, and re-keying both ends keeps them so).

  Buffers are byte lists; a write outside of one is \<^term>\<open>None\<close>, and so is the division by zero of a MAC as large as a
  packet.
\<close>

type_synonym seed = nat

datatype noise_role = NOISE_ROLE_INITIATOR | NOISE_ROLE_RESPONDER
datatype noise_action = NOISE_ACTION_NONE | NOISE_ACTION_WRITE_MESSAGE | NOISE_ACTION_READ_MESSAGE | NOISE_ACTION_FAILED
  | NOISE_ACTION_SPLIT | NOISE_ACTION_COMPLETE

record ('dh, 'hs, 'cs) noise_c =
  cipherstate_get_mac_length :: "'cs \<Rightarrow> nat"
  cipherstate_encrypt :: "'cs \<Rightarrow> bytes \<Rightarrow> bytes option \<times> 'cs"
  cipherstate_decrypt :: "'cs \<Rightarrow> bytes \<Rightarrow> bytes option \<times> 'cs"
  cipherstate_rekey :: "'cs \<Rightarrow> 'cs"
  handshakestate_new_by_id :: "seed \<Rightarrow> noise_role \<Rightarrow> 'hs option"
  handshakestate_set_local_keypair :: "'hs \<Rightarrow> 'dh option \<Rightarrow> 'hs option"
  handshakestate_set_remote_public_key :: "'hs \<Rightarrow> bytes \<Rightarrow> 'hs option"
  handshakestate_start :: "'hs \<Rightarrow> 'hs option"
  handshakestate_get_action :: "'hs \<Rightarrow> noise_action"
  handshakestate_read_message :: "'hs \<Rightarrow> bytes \<Rightarrow> bool \<times> 'hs"
  handshakestate_write_message :: "'hs \<Rightarrow> nat \<Rightarrow> bytes option \<times> 'hs"
  handshakestate_split :: "'hs \<Rightarrow> ('cs \<times> 'cs) option"
  dhstate_new_by_id :: "'dh option"
  dhstate_generate_keypair :: "seed \<Rightarrow> 'dh \<Rightarrow> 'dh option"
  dhstate_get_public_key :: "'dh option \<Rightarrow> bytes option"

definition HANDSHAKE_INIT_SIZE :: nat where
  "HANDSHAKE_INIT_SIZE = 64"

definition max_message_size :: nat where
  "max_message_size = 65535"

definition put_bytes :: "bytes \<Rightarrow> nat \<Rightarrow> bytes \<Rightarrow> bytes option" where
  "put_bytes buf off bs =
     (if off + length bs \<le> length buf then Some (take off buf @ bs @ drop (off + length bs) buf) else None)"

function encrypt_loop :: "('dh, 'hs, 'cs) noise_c \<Rightarrow> bytes \<Rightarrow> nat \<Rightarrow> nat \<Rightarrow> 'cs \<Rightarrow> bytes \<Rightarrow> nat \<Rightarrow> nat \<Rightarrow> ('cs \<times> bytes \<times> error) option" where
  "encrypt_loop N plaintext max_encrypt_size final_size cs ciphertext start plaintext_start =
     (if start < final_size then
        let plaintext_size = min max_encrypt_size (length plaintext - plaintext_start);
            chunk = take plaintext_size (drop plaintext_start plaintext)
        in do {
          ciphertext \<leftarrow> put_bytes ciphertext start chunk;
          (case cipherstate_encrypt N cs chunk of
             (None, cs) \<Rightarrow> Some (cs, [], E_Peers Peers_Encrypt)
           | (Some out, cs) \<Rightarrow> do {
               ciphertext \<leftarrow> put_bytes ciphertext start out;
               encrypt_loop N plaintext max_encrypt_size final_size cs ciphertext (start + max_message_size)
                 (plaintext_start + plaintext_size) })
        }
      else Some (cs, ciphertext, OK))"
  by pat_completeness auto
termination
  by (relation "measure (\<lambda>(N, p, m, final_size, cs, ct, start, ps). final_size - start)") (auto simp: max_message_size_def)

definition Encrypt :: "('dh, 'hs, 'cs) noise_c \<Rightarrow> 'cs \<Rightarrow> bytes \<Rightarrow> ('cs \<times> bytes \<times> error) option" where
  "Encrypt N cs plaintext =
     (let mac_size = cipherstate_get_mac_length N cs;
          max_encrypt_size = u64_sub max_message_size mac_size;
          orig_size = length plaintext
      in if max_encrypt_size = 0 then None
         else
           let num_macs = orig_size div max_encrypt_size + 1;
               num_macs = (if orig_size mod max_encrypt_size = 0 \<and> num_macs > 1 then num_macs - 1 else num_macs);
               macs_size = mac_size * num_macs;
               final_size = orig_size + macs_size
           in encrypt_loop N plaintext max_encrypt_size final_size cs (replicate final_size 0) 0 0)"

function decrypt_loop :: "('dh, 'hs, 'cs) noise_c \<Rightarrow> bytes \<Rightarrow> 'cs \<Rightarrow> bytes \<Rightarrow> nat \<Rightarrow> nat \<Rightarrow> ('cs \<times> bytes \<times> error) option" where
  "decrypt_loop N ciphertext cs plaintext start plaintext_start =
     (if start < length ciphertext then
        let sz = min max_message_size (length ciphertext - start);
            chunk = take sz (drop start ciphertext)
        in do {
          plaintext \<leftarrow> put_bytes plaintext plaintext_start chunk;
          (case cipherstate_decrypt N cs chunk of
             (None, cs) \<Rightarrow> Some (cs, [], E_Peers Peers_Decrypt)
           | (Some out, cs) \<Rightarrow> do {
               plaintext \<leftarrow> put_bytes plaintext plaintext_start out;
               decrypt_loop N ciphertext cs plaintext (start + max_message_size) (plaintext_start + length out) })
        }
      else Some (cs, take plaintext_start plaintext, OK))"
  by pat_completeness auto
termination
  by (relation "measure (\<lambda>(N, ct, cs, p, start, ps). length ct - start)") (auto simp: max_message_size_def)

definition Decrypt :: "('dh, 'hs, 'cs) noise_c \<Rightarrow> 'cs \<Rightarrow> bytes \<Rightarrow> ('cs \<times> bytes \<times> error) option" where
  "Decrypt N cs ciphertext = decrypt_loop N ciphertext cs (replicate (length ciphertext) 0) 0 0"

declare encrypt_loop.simps [simp del] decrypt_loop.simps [simp del]

subsection \<open>What the channel relies on\<close>

definition cipher_sizes :: "('dh, 'hs, 'cs) noise_c \<Rightarrow> bool" where
  "cipher_sizes N \<longleftrightarrow>
     (\<forall>cs. 0 < cipherstate_get_mac_length N cs \<and> cipherstate_get_mac_length N cs < max_message_size) \<and>
     (\<forall>cs p c cs'. cipherstate_encrypt N cs p = (Some c, cs') \<longrightarrow>
        length c = length p + cipherstate_get_mac_length N cs \<and> cipherstate_get_mac_length N cs' = cipherstate_get_mac_length N cs) \<and>
     (\<forall>cs p c cs'. cipherstate_decrypt N cs c = (Some p, cs') \<longrightarrow> length p \<le> length c)"

definition cipher_pairing :: "('dh, 'hs, 'cs) noise_c \<Rightarrow> ('cs \<Rightarrow> 'cs \<Rightarrow> bool) \<Rightarrow> bool" where
  "cipher_pairing N R \<longleftrightarrow>
     (\<forall>tx rx p c tx'. R tx rx \<and> cipherstate_encrypt N tx p = (Some c, tx') \<longrightarrow>
        (\<exists>rx'. cipherstate_decrypt N rx c = (Some p, rx') \<and> R tx' rx')) \<and>
     (\<forall>tx rx. R tx rx \<longrightarrow> R (cipherstate_rekey N tx) (cipherstate_rekey N rx))"

lemma cipher_sizesD:
  assumes "cipher_sizes N"
  shows "0 < cipherstate_get_mac_length N cs" "cipherstate_get_mac_length N cs < max_message_size"
    "cipherstate_encrypt N cs p = (Some c, cs') \<Longrightarrow> length c = length p + cipherstate_get_mac_length N cs"
    "cipherstate_encrypt N cs p = (Some c, cs') \<Longrightarrow> cipherstate_get_mac_length N cs' = cipherstate_get_mac_length N cs"
    "cipherstate_decrypt N cs c = (Some p, cs') \<Longrightarrow> length p \<le> length c"
  using assms unfolding cipher_sizes_def by blast+

subsection \<open>The loops as functions on chunks\<close>

text \<open>The packets of a message, encrypted one after the other, and back.\<close>

function encrypt_chunks :: "('dh, 'hs, 'cs) noise_c \<Rightarrow> nat \<Rightarrow> 'cs \<Rightarrow> bytes \<Rightarrow> 'cs \<times> bytes option" where
  "encrypt_chunks N m cs p =
     (case cipherstate_encrypt N cs (take m p) of
        (None, cs) \<Rightarrow> (cs, None)
      | (Some c, cs) \<Rightarrow>
          if length p \<le> m \<or> m = 0 then (cs, Some c)
          else (case encrypt_chunks N m cs (drop m p) of (cs, r) \<Rightarrow> (cs, map_option (append c) r)))"
  by pat_completeness auto
termination by (relation "measure (\<lambda>(N, m, cs, p). length p)") auto

function decrypt_chunks :: "('dh, 'hs, 'cs) noise_c \<Rightarrow> 'cs \<Rightarrow> bytes \<Rightarrow> 'cs \<times> bytes option" where
  "decrypt_chunks N cs c =
     (if c = [] then (cs, Some [])
      else case cipherstate_decrypt N cs (take max_message_size c) of
        (None, cs) \<Rightarrow> (cs, None)
      | (Some p, cs) \<Rightarrow>
          (case decrypt_chunks N cs (drop max_message_size c) of (cs, r) \<Rightarrow> (cs, map_option (append p) r)))"
  by pat_completeness auto
termination by (relation "measure (\<lambda>(N, cs, c). length c)") (auto simp: max_message_size_def)

declare encrypt_chunks.simps [simp del] decrypt_chunks.simps [simp del]

definition frame_size :: "nat \<Rightarrow> nat \<Rightarrow> nat \<Rightarrow> nat" where
  "frame_size mac m n = n + mac * (if n mod m = 0 \<and> n \<noteq> 0 then n div m else n div m + 1)"

lemma frame_size_small: "n \<le> m \<Longrightarrow> 0 < m \<Longrightarrow> frame_size mac m n = n + mac"
  by (cases "n = m") (auto simp: frame_size_def)

lemma frame_size_step:
  assumes "m < n" "0 < m"
  shows "frame_size mac m n = m + mac + frame_size mac m (n - m)"
proof -
  obtain k where n: "n = m + k" "0 < k" using assms less_imp_add_positive by blast
  have "(m + k) div m = k div m + 1" "(m + k) mod m = k mod m" using assms(2) by (simp_all add: div_add_self1)
  then show ?thesis using n(2) unfolding n(1) frame_size_def by (auto simp: distrib_left)
qed

lemma put_bytes_put_bytes:
  assumes "put_bytes buf off as = Some buf'" "length as \<le> length bs"
  shows "put_bytes buf' off bs = put_bytes buf off bs"
  using assms by (auto simp: put_bytes_def add.commute split: if_splits)

lemma encrypt_loop_chunks:
  assumes laws: "cipher_sizes N" and m: "m = max_message_size - cipherstate_get_mac_length N cs"
    and len: "length ct = start + frame_size (cipherstate_get_mac_length N cs) m (length (drop ps p))"
    and ps: "ps \<le> length p"
  shows "encrypt_loop N p m (length ct) cs ct start ps =
    Some (case encrypt_chunks N m cs (drop ps p) of
      (cs', None) \<Rightarrow> (cs', [], E_Peers Peers_Encrypt) | (cs', Some out) \<Rightarrow> (cs', take start ct @ out, OK))"
  using m len ps
proof (induction "length p - ps" arbitrary: cs ct start ps rule: less_induct)
  case less
  let ?mac = "cipherstate_get_mac_length N cs" and ?rem = "drop ps p"
  note sizes = cipher_sizesD [OF laws, of cs]
  have m0: "0 < m" "m + ?mac = max_message_size" using less(2) sizes(1,2) by auto
  have room: "start + (min m (length ?rem) + ?mac) \<le> length ct"
    using less(3) frame_size_small [of "length ?rem" m ?mac] frame_size_step [of m "length ?rem" ?mac] m0(1)
    by (cases "length ?rem \<le> m") auto
  have pos: "start < length ct" using room sizes(1) by linarith
  let ?chunk = "take m ?rem"
  have chunk: "take (min m (length p - ps)) ?rem = ?chunk" by (simp add: min_def)
  have "start + length ?chunk \<le> length ct" using room by simp
  then obtain ct1 where ct1: "put_bytes ct start ?chunk = Some ct1" by (simp add: put_bytes_def)
  show ?case
  proof (cases "cipherstate_encrypt N cs ?chunk")
    case (Pair r cs')
    show ?thesis
    proof (cases r)
      case None
      then show ?thesis using pos Pair ct1 chunk
        by (subst encrypt_loop.simps, subst encrypt_chunks.simps) simp
    next
      case (Some out)
      have out: "length out = length ?chunk + ?mac" "cipherstate_get_mac_length N cs' = ?mac"
        using sizes(3,4) Pair Some by auto
      define ct2 where "ct2 = take start ct @ out @ drop (start + length out) ct"
      have ct2: "put_bytes ct1 start out = Some ct2" "length ct2 = length ct" "take start ct2 = take start ct"
        using put_bytes_put_bytes [OF ct1, of out] out(1) room pos by (simp_all add: put_bytes_def ct2_def)
      have loop: "encrypt_loop N p m (length ct) cs ct start ps =
          encrypt_loop N p m (length ct2) cs' ct2 (start + max_message_size) (ps + min m (length p - ps))"
        by (subst encrypt_loop.simps) (simp add: pos Pair Some ct1 ct2 chunk)
      have chunks: "encrypt_chunks N m cs ?rem =
          (if length ?rem \<le> m then (cs', Some out)
           else case encrypt_chunks N m cs' (drop (ps + m) p) of (cs2, r) \<Rightarrow> (cs2, map_option (append out) r))"
        using m0(1) by (subst encrypt_chunks.simps) (simp add: Pair Some add.commute)
      show ?thesis
      proof (cases "length ?rem \<le> m")
        case True
        then have "length ct = start + length out"
          using less(3) m0(1) out(1) frame_size_small [of "length ?rem" m ?mac] by simp
        moreover have "length out \<le> max_message_size" using out(1) m0(2) True by simp
        ultimately have "encrypt_loop N p m (length ct2) cs' ct2 (start + max_message_size) q = Some (cs', ct2, OK)" for q
          using ct2(2) by (subst encrypt_loop.simps) simp
        then show ?thesis using loop chunks True \<open>length ct = start + length out\<close> by (simp add: ct2_def)
      next
        case False
        have e: "min m (length p - ps) = m" "length out = max_message_size" using False out(1) m0(2) by auto
        have "encrypt_loop N p m (length ct2) cs' ct2 (start + max_message_size) (ps + m) =
          Some (case encrypt_chunks N m cs' (drop (ps + m) p) of
            (cs', None) \<Rightarrow> (cs', [], E_Peers Peers_Encrypt)
          | (cs', Some out) \<Rightarrow> (cs', take (start + max_message_size) ct2 @ out, OK))"
        proof (rule less(1))
          show "length p - (ps + m) < length p - ps" "ps + m \<le> length p" using False m0(1) by auto
          show "m = max_message_size - cipherstate_get_mac_length N cs'" using less(2) out(2) by simp
          show "length ct2 = start + max_message_size + frame_size (cipherstate_get_mac_length N cs') m (length (drop (ps + m) p))"
            using False frame_size_step [of m "length ?rem" ?mac] less(3) out(2) ct2(2) m0 by simp
        qed
        moreover have "take (start + max_message_size) ct2 = take start ct @ out"
          using pos e(2) by (simp add: ct2_def)
        ultimately show ?thesis using loop chunks False e(1) by (auto split: prod.splits option.splits)
      qed
    qed
  qed
qed

lemma decrypt_loop_chunks:
  assumes laws: "cipher_sizes N" and len: "length pt = length ct" "ps \<le> start"
  shows "decrypt_loop N ct cs pt start ps =
    Some (case decrypt_chunks N cs (drop start ct) of
      (cs', None) \<Rightarrow> (cs', [], E_Peers Peers_Decrypt) | (cs', Some out) \<Rightarrow> (cs', take ps pt @ out, OK))"
  using len
proof (induction "length ct - start" arbitrary: cs pt start ps rule: less_induct)
  case less
  show ?case
  proof (cases "start < length ct")
    case False
    then show ?thesis by (subst decrypt_loop.simps, subst decrypt_chunks.simps) simp
  next
    case True
    let ?chunk = "take max_message_size (drop start ct)"
    have chunk: "take (min max_message_size (length ct - start)) (drop start ct) = ?chunk" by (simp add: min_def)
    have room: "ps + length ?chunk \<le> length pt" using less(2,3) True by auto
    then obtain pt1 where pt1: "put_bytes pt ps ?chunk = Some pt1" "length pt1 = length pt" "take ps pt1 = take ps pt"
      by (simp add: put_bytes_def)
    obtain r cs' where dec: "cipherstate_decrypt N cs ?chunk = (r, cs')" by fastforce
    show ?thesis
    proof (cases r)
      case None
      then show ?thesis using True dec pt1 chunk
        by (subst decrypt_loop.simps, subst decrypt_chunks.simps) simp
    next
      case (Some out)
      have out: "length out \<le> length ?chunk" using cipher_sizesD(5) [OF laws] dec Some by fastforce
      define pt2 where "pt2 = take ps pt @ out @ drop (ps + length out) pt1"
      have pt2: "put_bytes pt1 ps out = Some pt2" "length pt2 = length pt" "take (ps + length out) pt2 = take ps pt @ out"
        using out room pt1 by (auto simp: put_bytes_def pt2_def)
      have "decrypt_loop N ct cs pt start ps = decrypt_loop N ct cs' pt2 (start + max_message_size) (ps + length out)"
        by (subst decrypt_loop.simps) (simp add: True dec Some pt1 pt2 chunk)
      moreover have "decrypt_loop N ct cs' pt2 (start + max_message_size) (ps + length out) =
        Some (case decrypt_chunks N cs' (drop (start + max_message_size) ct) of
          (cs', None) \<Rightarrow> (cs', [], E_Peers Peers_Decrypt)
        | (cs', Some out') \<Rightarrow> (cs', take (ps + length out) pt2 @ out', OK))"
        using True less(2,3) pt2(2) out by (intro less(1)) (auto simp: max_message_size_def)
      moreover have "decrypt_chunks N cs (drop start ct) =
          (case decrypt_chunks N cs' (drop (start + max_message_size) ct) of (cs2, r) \<Rightarrow> (cs2, map_option (append out) r))"
        using True by (subst decrypt_chunks.simps) (simp add: dec Some add.commute)
      ultimately show ?thesis using pt2(3) by (auto split: prod.splits option.splits)
    qed
  qed
qed

lemma decrypt_encrypt_chunks:
  assumes laws: "cipher_sizes N" "cipher_pairing N R" and m: "m = max_message_size - cipherstate_get_mac_length N tx"
    and "encrypt_chunks N m tx p = (tx', Some c)" "R tx rx"
  shows "\<exists>rx'. decrypt_chunks N rx c = (rx', Some p) \<and> R tx' rx'"
  using assms(3-)
proof (induction "length p" arbitrary: tx rx p c rule: less_induct)
  case less
  note sizes = cipher_sizesD [OF laws(1), of tx]
  have m0: "0 < m" "m + cipherstate_get_mac_length N tx = max_message_size" using less(2) sizes(1,2) by auto
  obtain c1 tx1 where enc: "cipherstate_encrypt N tx (take m p) = (Some c1, tx1)"
    using less(3) by (subst (asm) encrypt_chunks.simps) (auto split: prod.splits option.splits)
  then obtain rx1 where dec: "cipherstate_decrypt N rx c1 = (Some (take m p), rx1)" "R tx1 rx1"
    using laws(2) less(4) unfolding cipher_pairing_def by blast
  have c1: "length c1 = min m (length p) + cipherstate_get_mac_length N tx"
    "cipherstate_get_mac_length N tx1 = cipherstate_get_mac_length N tx"
    using sizes(3,4) [OF enc] by (auto simp: min.commute)
  then have ne: "c1 \<noteq> []" using sizes(1) by auto
  show ?case
  proof (cases "length p \<le> m")
    case True
    then have "encrypt_chunks N m tx p = (tx1, Some c1)" using enc by (subst encrypt_chunks.simps) simp
    then have e: "c = c1" "tx' = tx1" using less(3) by simp_all
    have le: "length c1 \<le> max_message_size" using c1(1) m0(2) by linarith
    have "decrypt_chunks N rx1 [] = (rx1, Some [])" by (subst decrypt_chunks.simps) simp
    then have "decrypt_chunks N rx c = (rx1, Some p)"
      using True dec ne le e by (subst decrypt_chunks.simps) simp
    then show ?thesis using dec(2) e by blast
  next
    case False
    then have "encrypt_chunks N m tx p = (case encrypt_chunks N m tx1 (drop m p) of (cs, r) \<Rightarrow> (cs, map_option (append c1) r))"
      using enc m0(1) by (subst encrypt_chunks.simps) simp
    then obtain c2 where r: "encrypt_chunks N m tx1 (drop m p) = (tx', Some c2)" "c = c1 @ c2"
      using less(3) by (cases "encrypt_chunks N m tx1 (drop m p)") (auto simp: eq_commute [of "Some c"])
    have le: "length c1 = max_message_size" using c1(1) m0(2) False by simp
    have "length (drop m p) < length p" using False m0(1) by simp
    then obtain rx2 where ih: "decrypt_chunks N rx1 c2 = (rx2, Some (drop m p))" "R tx' rx2"
      using less(1) [OF _ _ r(1) dec(2)] less(2) c1(2) by metis
    have "decrypt_chunks N rx c = (rx2, Some p)"
      using dec(1) ne le r(2) ih(1) by (subst decrypt_chunks.simps) simp
    then show ?thesis using ih(2) by blast
  qed
qed

lemma Encrypt_chunks:
  assumes "cipher_sizes N"
  shows "Encrypt N cs p = Some (case encrypt_chunks N (max_message_size - cipherstate_get_mac_length N cs) cs p of
      (cs', None) \<Rightarrow> (cs', [], E_Peers Peers_Encrypt) | (cs', Some out) \<Rightarrow> (cs', out, OK))"
proof -
  let ?mac = "cipherstate_get_mac_length N cs"
  have m: "u64_sub max_message_size ?mac = max_message_size - ?mac" "0 < max_message_size - ?mac"
    using cipher_sizesD(2) [OF assms, of cs] by (simp_all add: u64_sub_exact max_message_size_def)
  define m where "m = max_message_size - ?mac"
  have "p = []" if "length p mod m = 0" "length p div m = 0" using mult_div_mod_eq [of m "length p"] that by simp
  then have "Encrypt N cs p = encrypt_loop N p m (length (replicate (frame_size ?mac m (length p)) (0 :: byte)))
      cs (replicate (frame_size ?mac m (length p)) 0) 0 0"
    using m unfolding m_def [symmetric]
    by (cases "length p mod m = 0"; cases "length p div m = 0") (auto simp: Encrypt_def Let_def frame_size_def)
  then show ?thesis using encrypt_loop_chunks [OF assms m_def, of "replicate (frame_size ?mac m (length p)) 0" 0 0 p]
    by (simp add: m_def)
qed

lemma Decrypt_chunks:
  assumes "cipher_sizes N"
  shows "Decrypt N cs c = Some (case decrypt_chunks N cs c of
      (cs', None) \<Rightarrow> (cs', [], E_Peers Peers_Decrypt) | (cs', Some out) \<Rightarrow> (cs', out, OK))"
  unfolding Decrypt_def using decrypt_loop_chunks [OF assms, of "replicate (length c) 0" c 0 0 cs] by simp

lemma Decrypt_Encrypt:
  assumes "cipher_sizes N" "cipher_pairing N R" "R tx rx" "Encrypt N tx p = Some (tx', c, OK)"
  shows "\<exists>rx'. Decrypt N rx c = Some (rx', p, OK) \<and> R tx' rx'"
proof -
  have "encrypt_chunks N (max_message_size - cipherstate_get_mac_length N tx) tx p = (tx', Some c)"
    using assms(4) by (auto simp: Encrypt_chunks [OF assms(1)] split: prod.splits option.splits)
  from decrypt_encrypt_chunks [OF assms(1,2) refl this assms(3)] show ?thesis
    by (auto simp: Decrypt_chunks [OF assms(1)])
qed

subsection \<open>An instance\<close>

text \<open>A counter-mode stand-in for noise-c, on which the predicates above hold: the MAC is the packet counter.\<close>

definition counter_noise :: "(bytes, noise_role \<times> noise_action, nat) noise_c" where
  "counter_noise = \<lparr>
     cipherstate_get_mac_length = \<lambda>cs. 16,
     cipherstate_encrypt = \<lambda>cs p. (Some (p @ replicate 16 (of_nat cs)), Suc cs),
     cipherstate_decrypt = \<lambda>cs c.
       (if 16 \<le> length c \<and> drop (length c - 16) c = replicate 16 (of_nat cs) then (Some (take (length c - 16) c), Suc cs) else (None, cs)),
     cipherstate_rekey = \<lambda>cs. cs + 1000,
     handshakestate_new_by_id = \<lambda>s r. Some (r, NOISE_ACTION_NONE),
     handshakestate_set_local_keypair = \<lambda>hs dh. if dh = None then None else Some hs,
     handshakestate_set_remote_public_key = \<lambda>hs k. Some hs,
     handshakestate_start = \<lambda>(r, a). Some (r, if r = NOISE_ROLE_INITIATOR then NOISE_ACTION_WRITE_MESSAGE else NOISE_ACTION_READ_MESSAGE),
     handshakestate_get_action = snd,
     handshakestate_read_message = \<lambda>(r, a) m. (True, (r, if r = NOISE_ROLE_INITIATOR then NOISE_ACTION_SPLIT else NOISE_ACTION_WRITE_MESSAGE)),
     handshakestate_write_message = \<lambda>(r, a) n. (Some [], (r, if r = NOISE_ROLE_INITIATOR then NOISE_ACTION_READ_MESSAGE else NOISE_ACTION_SPLIT)),
     handshakestate_split = \<lambda>(r, a). Some (0, 0),
     dhstate_new_by_id = Some [],
     dhstate_generate_keypair = \<lambda>s dh. Some (replicate 32 (of_nat s)),
     dhstate_get_public_key = \<lambda>dh. dh\<rparr>"

lemma counter_noise_laws: "cipher_sizes counter_noise" "cipher_pairing counter_noise (=)"
  by (auto simp: cipher_sizes_def cipher_pairing_def counter_noise_def max_message_size_def split: if_splits)


end
