(* ===== verification/Peers.thy ===== *)
theory Peers
  imports Msgs Noise
begin

text \<open>
  src/enclave/peers: attested, encrypted connections between enclaves.  A \<^verbatim>\<open>Peer\<close> holds the Noise state of the
  connection to one remote enclave, the \<^verbatim>\<open>PeerManager\<close> one \<^verbatim>\<open>Peer\<close> for every peer it has heard of.  A
  \<^verbatim>\<open>unique_ptr\<close> is an option; the parent pointer of a peer is the pair of arguments \<open>time\<close> (\<^verbatim>\<open>CurrentTime()\<close>) and
  \<open>mins\<close> (\<^verbatim>\<open>Minimums()\<close>, owned by the core).  Operations return the new state, the messages sent to the host, the
  error and, where the code has an out parameter, the decoded message; a failed CHECK is \<^term>\<open>None\<close>.  The locks make
  each operation one step.  The map of peers is an ordered map: the order of its \<^verbatim>\<open>unordered_map\<close> only decides the
  order in which messages to different peers are handed to the host.  A \<^verbatim>\<open>time_t\<close> is an unbounded integer.  Log lines and
  counters are left out.
\<close>

record ('hs, 'cs) peer =
  p_id :: peer_id
  p_handshake :: "'hs option"
  p_tx :: "'cs option"
  p_tx_rekey :: "8 word"
  p_rx :: "'cs option"
  p_rx_rekey :: "8 word"
  p_last_attestation :: int
  p_minimums :: minimum_values

definition Peer_new :: "peer_id \<Rightarrow> ('hs, 'cs) peer" where
  "Peer_new i = \<lparr>p_id = i, p_handshake = None, p_tx = None, p_tx_rekey = 0, p_rx = None, p_rx_rekey = 0,
     p_last_attestation = 0, p_minimums = []\<rparr>"

definition InternalCurrentState :: "('hs, 'cs) peer \<Rightarrow> peer_state" where
  "InternalCurrentState p =
     (if p_handshake p \<noteq> None then PEER_CONNECTING
      else if p_tx p \<noteq> None \<and> p_rx p \<noteq> None then PEER_CONNECTED
      else PEER_DISCONNECTED)"

definition InternalDisconnect :: "('hs, 'cs) peer \<Rightarrow> ('hs, 'cs) peer" where
  "InternalDisconnect p = p\<lparr>p_handshake := None, p_tx := None, p_rx := None, p_tx_rekey := 0, p_rx_rekey := 0,
     p_last_attestation := 0, p_minimums := []\<rparr>"

definition SendRst :: "host_env \<Rightarrow> peer_id \<Rightarrow> sent option" where
  "SendRst E i = sender_Send E (EM_peer_message \<lparr>pm_peer_id = PeerID_ToString i, pm_inner = PM_rst True\<rparr>)"

text \<open>The tail that several error paths share: drop the connection and tell the other side.\<close>

definition drop_peer :: "host_env \<Rightarrow> ('hs, 'cs) peer \<Rightarrow> error \<Rightarrow> (('hs, 'cs) peer \<times> sent \<times> error) option" where
  "drop_peer E p err = do { out \<leftarrow> SendRst E (p_id p); Some (InternalDisconnect p, out, err) }"

definition Peer_Send ::
  "('dh, 'hs, 'cs) noise_c \<Rightarrow> host_env \<Rightarrow> e2e_message \<Rightarrow> ('hs, 'cs) peer \<Rightarrow> (('hs, 'cs) peer \<times> sent \<times> error) option" where
  "Peer_Send N E msg p =
     (if InternalCurrentState p \<noteq> PEER_CONNECTED then Some (p, [], E_Peers Peers_SendBeforeConnect)
      else case ser_e2e E msg of
          None \<Rightarrow> Some (p, [], E_Peers Peers_EncryptSerialize)
        | Some serialized \<Rightarrow> do {
            tx \<leftarrow> p_tx p;
            (tx, ciphertext, err) \<leftarrow> Encrypt N tx serialized;
            if err \<noteq> OK then drop_peer E p err
            else do {
              let rekey = p_tx_rekey p + 1;
              let tx = (if rekey = 0 then cipherstate_rekey N tx else tx);
              out \<leftarrow> sender_Send E (EM_peer_message \<lparr>pm_peer_id = PeerID_ToString (p_id p), pm_inner = PM_data ciphertext\<rparr>);
              Some (p\<lparr>p_tx := Some tx, p_tx_rekey := rekey\<rparr>, out, OK)
            }
          })"

definition FinishConnection ::
  "('dh, 'hs, 'cs) noise_c \<Rightarrow> host_env \<Rightarrow> int \<Rightarrow> minimum_limits \<Rightarrow> bytes \<Rightarrow> ('hs, 'cs) peer \<Rightarrow>
     (('hs, 'cs) peer \<times> error \<times> e2e_message option) option" where
  "FinishConnection N E time mins synack p = do {
     hs \<leftarrow> p_handshake p;
     if handshakestate_get_action N hs \<noteq> NOISE_ACTION_READ_MESSAGE then Some (p, E_Peers Peers_HandshakeState, None)
     else
       let p = p\<lparr>p_handshake := None\<rparr> in
       case parse_connect E synack of
         None \<Rightarrow> Some (p, E_Peers Peers_FinishParseHandshake, None)
       | Some conn \<Rightarrow>
           let (att, att_err) = Attest E time (cr_attestation conn) in
           if att_err \<noteq> OK then Some (p, att_err, None)
           else
             let (key, key_err) = StringToByteArray 32 (ad_public_key att) in
             if key_err \<noteq> OK then Some (p, key_err, None)
             else if \<not> ConstantTimeEquals key (p_id p) then Some (p, E_Peers Peers_FinishIDMismatch, None)
             else
               let min_err = CheckValues (ad_minimum_values att) mins in
               if min_err \<noteq> OK then Some (p, min_err, None)
               else
                 let (read_ok, hs) = handshakestate_read_message N hs (cr_handshake conn) in
                 if \<not> read_ok then Some (p, E_Peers Peers_FinishReadHandshake, None)
                 else if handshakestate_get_action N hs \<noteq> NOISE_ACTION_SPLIT then Some (p, E_Peers Peers_HandshakeState, None)
                 else case handshakestate_split N hs of
                     None \<Rightarrow> Some (p, E_Peers Peers_FinishSplit, None)
                   | Some (tx, rx) \<Rightarrow>
                       Some (p\<lparr>p_minimums := ad_minimum_values att, p_tx := Some tx, p_rx := Some rx, p_tx_rekey := 0,
                               p_rx_rekey := 0, p_last_attestation := time\<rparr>, OK, Some (E2E_connected True))
   }"

definition CheckNextAttestation ::
  "host_env \<Rightarrow> int \<Rightarrow> attestation \<Rightarrow> ('hs, 'cs) peer \<Rightarrow> ('hs, 'cs) peer \<times> error" where
  "CheckNextAttestation E time a p =
     (let (att, err) = Attest E time a in
      if err \<noteq> OK then (p, err)
      else if \<not> ConstantTimeEquals (ad_public_key att) (p_id p) then (p, E_Peers Peers_AttestationKeyChanged)
      else (p\<lparr>p_last_attestation := time, p_minimums := ad_minimum_values att\<rparr>, OK))"

definition Peer_Recv ::
  "('dh, 'hs, 'cs) noise_c \<Rightarrow> host_env \<Rightarrow> int \<Rightarrow> minimum_limits \<Rightarrow> peer_inner \<Rightarrow> ('hs, 'cs) peer \<Rightarrow>
     (('hs, 'cs) peer \<times> sent \<times> error \<times> e2e_message option) option" where
  "Peer_Recv N E time mins inner p =
     (case inner of
        PM_synack synack \<Rightarrow>
          if InternalCurrentState p \<noteq> PEER_CONNECTING
          then map_option (\<lambda>(p, out, err). (p, out, err, None)) (drop_peer E p (E_Peers Peers_SynAckNotConnecting))
          else do {
            (p, err, decoded) \<leftarrow> FinishConnection N E time mins synack p;
            if err \<noteq> OK then map_option (\<lambda>(p, out, err). (p, out, err, None)) (drop_peer E p err)
            else Some (p, [], OK, decoded)
          }
      | PM_data data \<Rightarrow>
          if InternalCurrentState p \<noteq> PEER_CONNECTED then Some (p, [], E_Peers Peers_DataNotConnected, None)
          else do {
            rx \<leftarrow> p_rx p;
            (rx, plaintext, err) \<leftarrow> Decrypt N rx data;
            if err \<noteq> OK then map_option (\<lambda>(p, out, err). (p, out, err, None)) (drop_peer E p err)
            else
              let rekey = p_rx_rekey p + 1;
                  rx = (if rekey = 0 then cipherstate_rekey N rx else rx);
                  p = p\<lparr>p_rx := Some rx, p_rx_rekey := rekey\<rparr>
              in case parse_e2e E plaintext of
                   None \<Rightarrow> Some (p, [], E_Peers Peers_DecryptParse, None)
                 | Some (E2E_attestation_update a) \<Rightarrow>
                     let (p, err) = CheckNextAttestation E time a p in
                     if err \<noteq> OK then map_option (\<lambda>(p, out, err). (p, out, err, None)) (drop_peer E p err)
                     else Some (p, [], OK, None)
                 | Some e2e \<Rightarrow> Some (p, [], OK, Some e2e)
          }
      | PM_rst _ \<Rightarrow> Some (InternalDisconnect p, [], OK, None)
      | PM_syn _ \<Rightarrow> None
      | PM_NOT_SET \<Rightarrow> Some (p, [], E_Peers Peers_InvalidMsg, None))"

definition Peer_Reset ::
  "('dh, 'hs, 'cs) noise_c \<Rightarrow> seed \<Rightarrow> 'dh \<Rightarrow> noise_role \<Rightarrow> ('hs, 'cs) peer \<Rightarrow> ('hs, 'cs) peer \<times> error" where
  "Peer_Reset N seed priv role p =
     (let p = InternalDisconnect p in
      case handshakestate_new_by_id N seed role of
        None \<Rightarrow> (p, E_Peers Peers_HandshakeState)
      | Some hs \<Rightarrow>
          (case handshakestate_set_local_keypair N hs (Some priv) of
             None \<Rightarrow> (p, E_Peers Peers_CopyDHState)
           | Some hs \<Rightarrow>
               (case handshakestate_set_remote_public_key N hs (p_id p) of
                  None \<Rightarrow> (p, E_Peers Peers_SetRemotePublicKey)
                | Some hs \<Rightarrow>
                    (case handshakestate_start N hs of
                       None \<Rightarrow> (p, E_Peers Peers_HandshakeStart)
                     | Some hs \<Rightarrow> (p\<lparr>p_handshake := Some hs\<rparr>, OK)))))"

definition InternalConnect ::
  "('dh, 'hs, 'cs) noise_c \<Rightarrow> host_env \<Rightarrow> seed \<Rightarrow> 'dh \<Rightarrow> attestation \<Rightarrow> ('hs, 'cs) peer \<Rightarrow> (('hs, 'cs) peer \<times> sent \<times> error) option" where
  "InternalConnect N E seed priv att p =
     (let (p, err) = Peer_Reset N seed priv NOISE_ROLE_INITIATOR p in
      if err \<noteq> OK then Some (p, [], err)
      else do {
        hs \<leftarrow> p_handshake p;
        let p = p\<lparr>p_handshake := None\<rparr>;
        if handshakestate_get_action N hs \<noteq> NOISE_ACTION_WRITE_MESSAGE then Some (p, [], E_Peers Peers_HandshakeState)
        else
          (case handshakestate_write_message N hs HANDSHAKE_INIT_SIZE of
             (None, hs) \<Rightarrow> Some (p, [], E_Peers Peers_ConnectWriteHandshake)
           | (Some handshake, hs) \<Rightarrow>
               (case ser_connect E \<lparr>cr_attestation = att, cr_handshake = handshake\<rparr> of
                  None \<Rightarrow> Some (p, [], E_Peers Peers_ConnectSerializeHandshake)
                | Some syn \<Rightarrow> do {
                    out \<leftarrow> sender_Send E (EM_peer_message \<lparr>pm_peer_id = PeerID_ToString (p_id p), pm_inner = PM_syn syn\<rparr>);
                    Some (p\<lparr>p_handshake := Some hs\<rparr>, out, OK) }))
      })"

definition MaybeConnect ::
  "('dh, 'hs, 'cs) noise_c \<Rightarrow> host_env \<Rightarrow> seed \<Rightarrow> 'dh \<Rightarrow> attestation \<Rightarrow> ('hs, 'cs) peer \<Rightarrow> (('hs, 'cs) peer \<times> sent \<times> bool \<times> error) option" where
  "MaybeConnect N E seed priv att p =
     (if InternalCurrentState p = PEER_CONNECTING \<or> InternalCurrentState p = PEER_CONNECTED then Some (p, [], False, OK)
      else do { (p, out, err) \<leftarrow> InternalConnect N E seed priv att p; Some (p, out, True, err) })"

definition Peer_Accept ::
  "('dh, 'hs, 'cs) noise_c \<Rightarrow> host_env \<Rightarrow> seed \<Rightarrow> int \<Rightarrow> minimum_limits \<Rightarrow> 'dh \<Rightarrow> attestation \<Rightarrow> bytes \<Rightarrow> ('hs, 'cs) peer \<Rightarrow>
     (('hs, 'cs) peer \<times> sent \<times> error \<times> e2e_message option) option" where
  "Peer_Accept N E seed time mins priv my_att syn p =
     (let (p, err) = Peer_Reset N seed priv NOISE_ROLE_RESPONDER p in
      if err \<noteq> OK then Some (p, [], err, None)
      else do {
        hs \<leftarrow> p_handshake p;
        let p = p\<lparr>p_handshake := None\<rparr>;
        if handshakestate_get_action N hs \<noteq> NOISE_ACTION_READ_MESSAGE then Some (p, [], E_Peers Peers_HandshakeState, None)
        else case parse_connect E syn of
          None \<Rightarrow> Some (p, [], E_Peers Peers_AcceptParseHandshake, None)
        | Some conn \<Rightarrow>
            let (att, att_err) = Attest E time (cr_attestation conn) in
            if att_err \<noteq> OK then Some (p, [], att_err, None)
            else if \<not> ConstantTimeEquals (ad_public_key att) (p_id p) then Some (p, [], E_Peers Peers_AcceptIDMismatch, None)
            else
              let min_err = CheckValues (ad_minimum_values att) mins in
              if min_err \<noteq> OK then Some (p, [], min_err, None)
              else
                let (read_ok, hs) = handshakestate_read_message N hs (cr_handshake conn) in
                if \<not> read_ok then Some (p, [], E_Peers Peers_AcceptReadHandshake, None)
                else if handshakestate_get_action N hs \<noteq> NOISE_ACTION_WRITE_MESSAGE then Some (p, [], E_Peers Peers_HandshakeState, None)
                else (case handshakestate_write_message N hs HANDSHAKE_INIT_SIZE of
                    (None, hs) \<Rightarrow> Some (p, [], E_Peers Peers_AcceptWriteHandshake, None)
                  | (Some handshake, hs) \<Rightarrow>
                      (case ser_connect E \<lparr>cr_attestation = my_att, cr_handshake = handshake\<rparr> of
                         None \<Rightarrow> Some (p, [], E_Peers Peers_AcceptSerializeHandshake, None)
                       | Some synack \<Rightarrow>
                           if handshakestate_get_action N hs \<noteq> NOISE_ACTION_SPLIT then Some (p, [], E_Peers Peers_HandshakeState, None)
                           else (case handshakestate_split N hs of
                               None \<Rightarrow> Some (p, [], E_Peers Peers_AcceptSplit, None)
                             | Some (tx, rx) \<Rightarrow> do {
                                 out \<leftarrow> sender_Send E (EM_peer_message \<lparr>pm_peer_id = PeerID_ToString (p_id p), pm_inner = PM_synack synack\<rparr>);
                                 Some (p\<lparr>p_minimums := ad_minimum_values att, p_tx := Some tx, p_rx := Some rx, p_tx_rekey := 0,
                                         p_rx_rekey := 0, p_last_attestation := time\<rparr>, out, OK, Some (E2E_connected True)) })))
      })"

definition Peer_Disconnect :: "host_env \<Rightarrow> ('hs, 'cs) peer \<Rightarrow> (('hs, 'cs) peer \<times> sent) option" where
  "Peer_Disconnect E p = do { out \<leftarrow> SendRst E (p_id p); Some (InternalDisconnect p, out) }"

definition MaybeDisconnectIfAttestationTooOld ::
  "host_env \<Rightarrow> int \<Rightarrow> int \<Rightarrow> ('hs, 'cs) peer \<Rightarrow> (('hs, 'cs) peer \<times> sent) option" where
  "MaybeDisconnectIfAttestationTooOld E now attestation_timeout p =
     (let state = InternalCurrentState p in
      if state = PEER_DISCONNECTED \<or>
         (now \<le> p_last_attestation p + attestation_timeout \<and> now \<ge> p_last_attestation p - attestation_timeout) \<or>
         (state = PEER_CONNECTING \<and> p_last_attestation p = 0)
      then Some (p, [])
      else Peer_Disconnect E p)"

definition PopulateConnectionStatus :: "('hs, 'cs) peer \<Rightarrow> connection_status" where
  "PopulateConnectionStatus p =
     \<lparr>cn_state = InternalCurrentState p, cn_last_attestation_unix_secs = nat (p_last_attestation p mod 2 ^ 64)\<rparr>"

definition Peer_CheckMinimums :: "minimum_limits \<Rightarrow> ('hs, 'cs) peer \<Rightarrow> error" where
  "Peer_CheckMinimums mins p = (if InternalCurrentState p \<noteq> PEER_CONNECTED then OK else CheckValues (p_minimums p) mins)"

end
