(* ===== verification/PeerManager.thy ===== *)
theory PeerManager
  imports Peers
begin

text \<open>
  The \<^verbatim>\<open>PeerManager\<close> of src/enclave/peers: the map of peers, the enclave's own key pair and attestation, and the
  dispatch of messages from the host to the peer they name.
\<close>

record ('dh, 'hs, 'cs) peer_manager =
  m_peers :: "(peer_id, ('hs, 'cs) peer) omap"
  m_dhstate :: "'dh option"
  m_id :: peer_id
  m_attestation :: attestation
  m_init_success :: bool
  m_time :: int

definition PeerManager_new :: "('dh, 'hs, 'cs) peer_manager" where
  "PeerManager_new = \<lparr>m_peers = [], m_dhstate = None, m_id = zero_id, m_attestation = \<lparr>att_evidence = [], att_endorsements = []\<rparr>,
     m_init_success = False, m_time = 0\<rparr>"

definition CloneDHState :: "('dh, 'hs, 'cs) noise_c \<Rightarrow> 'dh option \<Rightarrow> 'dh option" where
  "CloneDHState N s = do { d \<leftarrow> s; fresh \<leftarrow> dhstate_new_by_id N; Some d }"

definition PeerManager_PeerState :: "peer_id \<Rightarrow> ('dh, 'hs, 'cs) peer_manager \<Rightarrow> peer_state" where
  "PeerManager_PeerState i m = (case map_of (m_peers m) i of None \<Rightarrow> PEER_DISCONNECTED | Some p \<Rightarrow> InternalCurrentState p)"

definition PeerManager_Init ::
  "('dh, 'hs, 'cs) noise_c \<Rightarrow> host_env \<Rightarrow> seed \<Rightarrow> ('dh, 'hs, 'cs) peer_manager \<Rightarrow> ('dh, 'hs, 'cs) peer_manager \<times> error" where
  "PeerManager_Init N E seed m =
     (case dhstate_new_by_id N of
        None \<Rightarrow> (m, E_Peers Peers_NewKey)
      | Some dh \<Rightarrow>
          (case dhstate_generate_keypair N seed dh of
             None \<Rightarrow> (m, E_Peers Peers_NewKeyGenerate)
           | Some dh \<Rightarrow>
               (case dhstate_get_public_key N (Some dh) of
                  None \<Rightarrow> (m, E_Peers Peers_NewKeyPublic)
                | Some public_key \<Rightarrow>
                    let (evidence, err) = Evidence E \<lparr>ad_public_key = ByteArrayToString 32 public_key, ad_group_config = None, ad_minimum_values = []\<rparr> in
                    if err \<noteq> OK then (m, err)
                    else if m_init_success m then (m, E_Peers Peers_ReInit)
                    else (m\<lparr>m_init_success := True, m_dhstate := Some dh, m_id := public_key, m_attestation := evidence\<rparr>, OK))))"

definition PeerManager_ID :: "('dh, 'hs, 'cs) peer_manager \<Rightarrow> peer_id" where
  "PeerManager_ID m = (if \<not> m_init_success m then zero_id else m_id m)"

fun send_to_connected ::
  "('dh, 'hs, 'cs) noise_c \<Rightarrow> host_env \<Rightarrow> e2e_message \<Rightarrow> (peer_id, ('hs, 'cs) peer) omap \<Rightarrow> ((peer_id, ('hs, 'cs) peer) omap \<times> sent) option" where
  "send_to_connected N E msg [] = Some ([], [])"
| "send_to_connected N E msg ((i, p) # ps) = do {
     (p, out) \<leftarrow> (if InternalCurrentState p = PEER_CONNECTED
                 then map_option (\<lambda>(p, out, err). (p, out)) (Peer_Send N E msg p) else Some (p, []));
     (ps, outs) \<leftarrow> send_to_connected N E msg ps;
     Some ((i, p) # ps, out @ outs) }"

definition PeerManager_RefreshAttestation ::
  "('dh, 'hs, 'cs) noise_c \<Rightarrow> host_env \<Rightarrow> ('dh, 'hs, 'cs) peer_manager \<Rightarrow> (('dh, 'hs, 'cs) peer_manager \<times> sent \<times> error) option" where
  "PeerManager_RefreshAttestation N E m =
     (let (evidence, err) = Evidence E \<lparr>ad_public_key = ByteArrayToString 32 (PeerManager_ID m), ad_group_config = None, ad_minimum_values = []\<rparr> in
      if err \<noteq> OK then Some (m, [], err)
      else do {
        (ps, out) \<leftarrow> send_to_connected N E (E2E_attestation_update evidence) (m_peers m);
        Some (m\<lparr>m_attestation := evidence, m_peers := ps\<rparr>, out, OK) })"

definition put_peer :: "peer_id \<Rightarrow> ('hs, 'cs) peer \<Rightarrow> ('dh, 'hs, 'cs) peer_manager \<Rightarrow> ('dh, 'hs, 'cs) peer_manager" where
  "put_peer i p m = m\<lparr>m_peers := om_put i p (m_peers m)\<rparr>"

definition CreatePeer :: "peer_id \<Rightarrow> ('dh, 'hs, 'cs) peer_manager \<Rightarrow> ('hs, 'cs) peer \<times> ('dh, 'hs, 'cs) peer_manager" where
  "CreatePeer i m =
     (case map_of (m_peers m) i of
        Some p \<Rightarrow> (p, m)
      | None \<Rightarrow> (Peer_new i, put_peer i (Peer_new i) m))"

definition GetPeer :: "peer_id \<Rightarrow> ('dh, 'hs, 'cs) peer_manager \<Rightarrow> ('hs, 'cs) peer option" where
  "GetPeer i m = map_of (m_peers m) i"

definition GetPeerOrRst :: "host_env \<Rightarrow> peer_id \<Rightarrow> ('dh, 'hs, 'cs) peer_manager \<Rightarrow> (('hs, 'cs) peer option \<times> sent) option" where
  "GetPeerOrRst E i m =
     (case map_of (m_peers m) i of
        Some p \<Rightarrow> Some (Some p, [])
      | None \<Rightarrow> do { out \<leftarrow> SendRst E i; Some (None, out) })"

definition ConnectionArgs :: "('dh, 'hs, 'cs) noise_c \<Rightarrow> ('dh, 'hs, 'cs) peer_manager \<Rightarrow> ('dh \<times> attestation) option" where
  "ConnectionArgs N m =
     (if \<not> m_init_success m then None else do { dh \<leftarrow> CloneDHState N (m_dhstate m); Some (dh, m_attestation m) })"

definition ConnectToPeer ::
  "('dh, 'hs, 'cs) noise_c \<Rightarrow> host_env \<Rightarrow> seed \<Rightarrow> peer_id \<Rightarrow> ('dh, 'hs, 'cs) peer_manager \<Rightarrow> (('dh, 'hs, 'cs) peer_manager \<times> sent \<times> error) option" where
  "ConnectToPeer N E seed to m =
     (if \<not> m_init_success m then Some (m, [], E_Peers Peers_NoInit)
      else do {
        let (peer, m) = CreatePeer to m;
        (dhstate, att) \<leftarrow> ConnectionArgs N m;
        (peer, out, err) \<leftarrow> InternalConnect N E seed dhstate att peer;
        Some (put_peer to peer m, out, err) })"

definition MaybeConnectToPeer ::
  "('dh, 'hs, 'cs) noise_c \<Rightarrow> host_env \<Rightarrow> seed \<Rightarrow> peer_id \<Rightarrow> ('dh, 'hs, 'cs) peer_manager \<Rightarrow> (('dh, 'hs, 'cs) peer_manager \<times> sent \<times> error) option" where
  "MaybeConnectToPeer N E seed to m =
     (if \<not> m_init_success m then Some (m, [], E_Peers Peers_NoInit)
      else do {
        let (peer, m) = CreatePeer to m;
        (dhstate, att) \<leftarrow> ConnectionArgs N m;
        (peer, out, started_connection, err) \<leftarrow> MaybeConnect N E seed dhstate att peer;
        Some (put_peer to peer m, out, err) })"

definition PeerManager_ResetPeer ::
  "host_env \<Rightarrow> peer_id \<Rightarrow> ('dh, 'hs, 'cs) peer_manager \<Rightarrow> (('dh, 'hs, 'cs) peer_manager \<times> sent \<times> error) option" where
  "PeerManager_ResetPeer E to m =
     (if \<not> m_init_success m then Some (m, [], E_Peers Peers_NoInit)
      else do {
        (found, out) \<leftarrow> GetPeerOrRst E to m;
        (case found of
           None \<Rightarrow> Some (m, out, E_Peers Peers_ResetMissingPeer)
         | Some peer \<Rightarrow> do {
             (peer, rst) \<leftarrow> Peer_Disconnect E peer;
             Some (put_peer to peer m, out @ rst, OK) }) })"

definition e2e_is_connected :: "e2e_message \<Rightarrow> bool" where
  "e2e_is_connected msg = (case msg of E2E_connected b \<Rightarrow> b | _ \<Rightarrow> False)"

definition SendToPeer ::
  "('dh, 'hs, 'cs) noise_c \<Rightarrow> host_env \<Rightarrow> peer_id \<Rightarrow> e2e_message \<Rightarrow> ('dh, 'hs, 'cs) peer_manager \<Rightarrow> (('dh, 'hs, 'cs) peer_manager \<times> sent \<times> error) option" where
  "SendToPeer N E to msg m =
     (if \<not> m_init_success m then Some (m, [], E_Peers Peers_NoInit)
      else if e2e_is_connected msg then Some (m, [], E_Peers Peers_SendConnect)
      else do {
        (found, out) \<leftarrow> GetPeerOrRst E to m;
        (case found of
           None \<Rightarrow> Some (m, out, E_Peers Peers_SendBeforeConnect)
         | Some peer \<Rightarrow> do {
             (peer, out2, err) \<leftarrow> Peer_Send N E msg peer;
             Some (put_peer to peer m, out @ out2, err) }) })"

definition RecvFromPeer ::
  "('dh, 'hs, 'cs) noise_c \<Rightarrow> host_env \<Rightarrow> seed \<Rightarrow> minimum_limits \<Rightarrow> peer_message \<Rightarrow> ('dh, 'hs, 'cs) peer_manager \<Rightarrow>
     (('dh, 'hs, 'cs) peer_manager \<times> sent \<times> error \<times> e2e_message option) option" where
  "RecvFromPeer N E seed mins msg m =
     (if \<not> m_init_success m then Some (m, [], E_Peers Peers_NoInit, None)
      else case PeerID_FromString (pm_peer_id msg) of
          Inl err \<Rightarrow> Some (m, [], err, None)
        | Inr from_id \<Rightarrow>
            (case pm_inner msg of
               PM_syn syn \<Rightarrow> do {
                 let (peer, m) = CreatePeer from_id m;
                 (dhstate, att) \<leftarrow> ConnectionArgs N m;
                 (peer, out, err, decoded) \<leftarrow> Peer_Accept N E seed (m_time m) mins dhstate att syn peer;
                 Some (put_peer from_id peer m, out, err, decoded) }
             | inner \<Rightarrow> do {
                 (found, out) \<leftarrow> (case inner of PM_rst _ \<Rightarrow> Some (GetPeer from_id m, []) | _ \<Rightarrow> GetPeerOrRst E from_id m);
                 (case found of
                    None \<Rightarrow> Some (m, out, E_Peers Peers_RecvBeforeConnect, None)
                  | Some peer \<Rightarrow> do {
                      (peer, out2, err, decoded) \<leftarrow> Peer_Recv N E (m_time m) mins inner peer;
                      Some (put_peer from_id peer m, out @ out2, err, decoded) }) }))"

definition ConnectedPeers :: "('dh, 'hs, 'cs) peer_manager \<Rightarrow> peer_id list" where
  "ConnectedPeers m = map fst (filter (\<lambda>(i, p). InternalCurrentState p = PEER_CONNECTED) (m_peers m))"

definition AllPeers :: "('dh, 'hs, 'cs) peer_manager \<Rightarrow> peer_id list" where
  "AllPeers m = om_keys (m_peers m)"

fun for_peers :: "(('hs, 'cs) peer \<Rightarrow> (('hs, 'cs) peer \<times> sent) option) \<Rightarrow> (peer_id, ('hs, 'cs) peer) omap \<Rightarrow>
  ((peer_id, ('hs, 'cs) peer) omap \<times> sent) option" where
  "for_peers f [] = Some ([], [])"
| "for_peers f ((i, p) # ps) = do {
     (p, out) \<leftarrow> f p;
     (ps, outs) \<leftarrow> for_peers f ps;
     Some ((i, p) # ps, out @ outs) }"

definition SetPeerAttestationTimestamp ::
  "host_env \<Rightarrow> int \<Rightarrow> int \<Rightarrow> ('dh, 'hs, 'cs) peer_manager \<Rightarrow> (('dh, 'hs, 'cs) peer_manager \<times> sent) option" where
  "SetPeerAttestationTimestamp E secs attestation_timeout m =
     (let old_secs = m_time m; m = m\<lparr>m_time := secs\<rparr> in
      if old_secs = secs then Some (m, [])
      else do {
        (ps, out) \<leftarrow> for_peers (MaybeDisconnectIfAttestationTooOld E secs attestation_timeout) (m_peers m);
        Some (m\<lparr>m_peers := ps\<rparr>, out) })"

definition MinimumsUpdated ::
  "host_env \<Rightarrow> minimum_limits \<Rightarrow> ('dh, 'hs, 'cs) peer_manager \<Rightarrow> (('dh, 'hs, 'cs) peer_manager \<times> sent) option" where
  "MinimumsUpdated E mins m = do {
     (ps, out) \<leftarrow> for_peers (\<lambda>p. if Peer_CheckMinimums mins p \<noteq> OK then Peer_Disconnect E p else Some (p, [])) (m_peers m);
     Some (m\<lparr>m_peers := ps\<rparr>, out) }"

fun CheckPeerMinimums_list :: "minimum_limits \<Rightarrow> (peer_id, ('hs, 'cs) peer) omap \<Rightarrow> error" where
  "CheckPeerMinimums_list to_check [] = OK"
| "CheckPeerMinimums_list to_check ((i, p) # ps) =
     (let err = Peer_CheckMinimums to_check p in if err \<noteq> OK then err else CheckPeerMinimums_list to_check ps)"

definition CheckPeerMinimums :: "minimum_limits \<Rightarrow> ('dh, 'hs, 'cs) peer_manager \<Rightarrow> error" where
  "CheckPeerMinimums to_check m = CheckPeerMinimums_list to_check (m_peers m)"

definition PeerManager_PeerStatus :: "peer_id \<Rightarrow> ('dh, 'hs, 'cs) peer_manager \<Rightarrow> connection_status option" where
  "PeerManager_PeerStatus i m = map_option PopulateConnectionStatus (GetPeer i m)"

end
