(* ===== verification/PeersInv.thy ===== *)
theory PeersInv
  imports PeerManager
begin

text \<open>
  What the operations on a peer can do, as case distinctions on their results, and the invariant of the peer manager:
  a connected peer has been attested, under the key that is its identity, at the time and with the minimum values that
  are recorded for it.
\<close>

definition key_matches :: "bytes \<Rightarrow> peer_id \<Rightarrow> bool" where
  "key_matches k i = (k = i \<or> StringToByteArray 32 k = (i, OK))"

definition attested :: "host_env \<Rightarrow> peer_id \<Rightarrow> int \<Rightarrow> minimum_values \<Rightarrow> bool" where
  "attested E i t v = (\<exists>a d. Attest E t a = (d, OK) \<and> key_matches (ad_public_key d) i \<and> ad_minimum_values d = v)"

definition connect_peer :: "('hs, 'cs) peer \<Rightarrow> int \<Rightarrow> minimum_values \<Rightarrow> 'cs \<Rightarrow> 'cs \<Rightarrow> ('hs, 'cs) peer" where
  "connect_peer p t v tx rx =
     p\<lparr>p_handshake := None, p_minimums := v, p_tx := Some tx, p_rx := Some rx, p_tx_rekey := 0, p_rx_rekey := 0, p_last_attestation := t\<rparr>"

lemma connected_iff:
  "InternalCurrentState p = PEER_CONNECTED \<longleftrightarrow> p_handshake p = None \<and> p_tx p \<noteq> None \<and> p_rx p \<noteq> None"
  by (simp add: InternalCurrentState_def)

lemma attestedI:
  "Attest E t a = (d, OK) \<Longrightarrow> key_matches (ad_public_key d) i \<Longrightarrow> attested E i t (ad_minimum_values d)"
  by (auto simp: attested_def)

lemma InternalDisconnect_sel [simp]:
  "p_id (InternalDisconnect p) = p_id p" "p_handshake (InternalDisconnect p) = None" "p_tx (InternalDisconnect p) = None"
  "p_rx (InternalDisconnect p) = None" "(InternalDisconnect p)\<lparr>p_handshake := None\<rparr> = InternalDisconnect p"
  "InternalDisconnect (p\<lparr>p_handshake := h\<rparr>) = InternalDisconnect p"
  "InternalDisconnect (p\<lparr>p_rx := x, p_rx_rekey := y\<rparr>) = InternalDisconnect p"
  by (simp_all add: InternalDisconnect_def)

lemma Peer_Reset_cases:
  assumes "Peer_Reset N seed priv r p = (p', err)"
  shows "err \<noteq> OK \<and> p' = InternalDisconnect p \<or> err = OK \<and> (\<exists>hs. p' = (InternalDisconnect p)\<lparr>p_handshake := Some hs\<rparr>)"
  using assms by (auto simp: Peer_Reset_def Let_def split: option.splits)

lemma drop_peer_cases:
  "drop_peer E p err = Some (p', out, err') \<Longrightarrow> p' = InternalDisconnect p \<and> err' = err"
  by (auto simp: drop_peer_def split: bind_splits)

lemma InternalConnect_cases:
  assumes "InternalConnect N E seed priv att p = Some (p', out, err)"
  shows "err \<noteq> OK \<and> p' = InternalDisconnect p \<or> err = OK \<and> (\<exists>hs. p' = (InternalDisconnect p)\<lparr>p_handshake := Some hs\<rparr>)"
proof (cases "Peer_Reset N seed priv NOISE_ROLE_INITIATOR p")
  case (Pair q e)
  from Peer_Reset_cases [OF this] show ?thesis
  proof
    assume "e \<noteq> OK \<and> q = InternalDisconnect p"
    then show ?thesis using assms Pair by (simp add: InternalConnect_def)
  next
    assume "e = OK \<and> (\<exists>hs. q = (InternalDisconnect p)\<lparr>p_handshake := Some hs\<rparr>)"
    then show ?thesis using assms unfolding InternalConnect_def Let_def Pair
      by (fastforce split: bind_splits if_splits option.splits prod.splits)
  qed
qed

lemma FinishConnection_cases:
  assumes "FinishConnection N E time mins synack p = Some (p', err, dec)"
  shows "err \<noteq> OK \<and> dec = None \<and> InternalDisconnect p' = InternalDisconnect p \<or>
    err = OK \<and> dec = Some (E2E_connected True) \<and>
    (\<exists>a d tx rx. Attest E time a = (d, OK) \<and> StringToByteArray 32 (ad_public_key d) = (p_id p, OK) \<and>
       CheckValues (ad_minimum_values d) mins = OK \<and> p' = connect_peer p time (ad_minimum_values d) tx rx)"
  using assms unfolding FinishConnection_def connect_peer_def Let_def
  by (fastforce split: bind_splits if_splits option.splits prod.splits)

lemma Peer_Accept_cases:
  assumes "Peer_Accept N E seed time mins priv att syn p = Some (p', out, err, dec)"
  shows "err \<noteq> OK \<and> dec = None \<and> p' = InternalDisconnect p \<or>
    err = OK \<and> dec = Some (E2E_connected True) \<and>
    (\<exists>a d tx rx. Attest E time a = (d, OK) \<and> ad_public_key d = p_id p \<and>
       CheckValues (ad_minimum_values d) mins = OK \<and> p' = connect_peer (InternalDisconnect p) time (ad_minimum_values d) tx rx)"
proof (cases "Peer_Reset N seed priv NOISE_ROLE_RESPONDER p")
  case (Pair q e)
  from Peer_Reset_cases [OF this] show ?thesis
  proof
    assume "e \<noteq> OK \<and> q = InternalDisconnect p"
    then show ?thesis using assms Pair by (simp add: Peer_Accept_def)
  next
    assume "e = OK \<and> (\<exists>hs. q = (InternalDisconnect p)\<lparr>p_handshake := Some hs\<rparr>)"
    then show ?thesis using assms unfolding Peer_Accept_def connect_peer_def Let_def Pair
      by (fastforce split: bind_splits if_splits option.splits prod.splits)
  qed
qed

lemma Peer_Send_cases:
  assumes "Peer_Send N E msg p = Some (p', out, err)"
  shows "err \<noteq> OK \<and> (p' = InternalDisconnect p \<or> p' = p) \<or>
    err = OK \<and> InternalCurrentState p = PEER_CONNECTED \<and> (\<exists>s tx tx1 c. ser_e2e E msg = Some s \<and> p_tx p = Some tx \<and>
      Encrypt N tx s = Some (tx1, c, OK) \<and>
      p' = p\<lparr>p_tx := Some (if p_tx_rekey p + 1 = 0 then cipherstate_rekey N tx1 else tx1), p_tx_rekey := p_tx_rekey p + 1\<rparr> \<and>
      out = [EM_peer_message \<lparr>pm_peer_id = PeerID_ToString (p_id p), pm_inner = PM_data c\<rparr>])"
  using assms
  by (auto simp: Peer_Send_def sender_Send_def Let_def dest!: drop_peer_cases split: bind_splits if_splits option.splits prod.splits)

lemma Peer_Recv_cases:
  assumes "Peer_Recv N E time mins inner p = Some (p', out, err, dec)"
  shows "dec = None \<and> (p' = InternalDisconnect p \<or> p' = p) \<or>
    (\<exists>synack. inner = PM_synack synack \<and> InternalCurrentState p = PEER_CONNECTING \<and> err = OK \<and> FinishConnection N E time mins synack p = Some (p', OK, dec)) \<or>
    (\<exists>data rx rx1 s rx'. inner = PM_data data \<and> InternalCurrentState p = PEER_CONNECTED \<and> p_rx p = Some rx \<and>
       Decrypt N rx data = Some (rx1, s, OK) \<and> rx' = (if p_rx_rekey p + 1 = 0 then cipherstate_rekey N rx1 else rx1) \<and> out = [] \<and>
       (p' = p\<lparr>p_rx := Some rx', p_rx_rekey := p_rx_rekey p + 1\<rparr> \<and>
          (err = E_Peers Peers_DecryptParse \<and> parse_e2e E s = None \<and> dec = None \<or>
           err = OK \<and> (\<exists>e. dec = Some e \<and> parse_e2e E s = Some e \<and> (\<forall>a. e \<noteq> E2E_attestation_update a))) \<or>
        err = OK \<and> dec = None \<and> (\<exists>a d. parse_e2e E s = Some (E2E_attestation_update a) \<and> Attest E time a = (d, OK) \<and> ad_public_key d = p_id p \<and>
          p' = p\<lparr>p_rx := Some rx', p_rx_rekey := p_rx_rekey p + 1, p_last_attestation := time, p_minimums := ad_minimum_values d\<rparr>)))"
proof (cases inner)
  case (PM_synack s)
  then show ?thesis using assms
    by (auto simp: Peer_Recv_def dest!: drop_peer_cases dest: FinishConnection_cases split: bind_splits if_splits)
next
  case (PM_data data)
  then show ?thesis
  proof (cases "InternalCurrentState p = PEER_CONNECTED")
    case False
    then show ?thesis using assms PM_data by (simp add: Peer_Recv_def)
  next
    case True
    obtain rx rx1 s e where d: "p_rx p = Some rx" "Decrypt N rx data = Some (rx1, s, e)"
      using assms PM_data True by (auto simp: Peer_Recv_def split: bind_splits)
    show ?thesis
    proof (cases "e = OK")
      case False
      then show ?thesis using assms PM_data True d by (auto simp: Peer_Recv_def dest!: drop_peer_cases)
    next
      case ok: True
      define q where "q = p\<lparr>p_rx := Some (if p_rx_rekey p + 1 = 0 then cipherstate_rekey N rx1 else rx1), p_rx_rekey := p_rx_rekey p + 1\<rparr>"
      have q: "InternalDisconnect q = InternalDisconnect p" by (simp add: q_def)
      have r: "(case parse_e2e E s of
                   None \<Rightarrow> Some (q, [], E_Peers Peers_DecryptParse, None)
                 | Some (E2E_attestation_update a) \<Rightarrow>
                     let (p, err) = CheckNextAttestation E time a q in
                     if err \<noteq> OK then map_option (\<lambda>(p, out, err). (p, out, err, None)) (drop_peer E p err)
                     else Some (p, [], OK, None)
                 | Some e2e \<Rightarrow> Some (q, [], OK, Some e2e)) = Some (p', out, err, dec)"
        using assms PM_data True d ok unfolding Peer_Recv_def Let_def q_def by simp
      show ?thesis
      proof (cases "\<exists>a. parse_e2e E s = Some (E2E_attestation_update a)")
        case False
        then have "out = [] \<and> p' = q \<and> (err = E_Peers Peers_DecryptParse \<and> parse_e2e E s = None \<and> dec = None \<or>
           err = OK \<and> (\<exists>e. dec = Some e \<and> parse_e2e E s = Some e \<and> (\<forall>a. e \<noteq> E2E_attestation_update a)))"
          using r by (cases "parse_e2e E s") (auto split: e2e_message.splits)
        then show ?thesis using PM_data True d ok unfolding q_def by blast
      next
        case upd: True
        then obtain a where a: "parse_e2e E s = Some (E2E_attestation_update a)" by blast
        then have "dec = None \<and> p' = InternalDisconnect p \<or> out = [] \<and> err = OK \<and> dec = None \<and>
          (\<exists>d. Attest E time a = (d, OK) \<and> ad_public_key d = p_id p \<and> p' = q\<lparr>p_last_attestation := time, p_minimums := ad_minimum_values d\<rparr>)"
          using r q by (auto simp: CheckNextAttestation_def Let_def q_def dest!: drop_peer_cases split: prod.splits if_splits)
        then show ?thesis using PM_data True d ok a unfolding q_def by blast
      qed
    qed
  qed
qed (use assms in \<open>auto simp: Peer_Recv_def\<close>)

subsection \<open>The invariant\<close>

definition peer_inv :: "host_env \<Rightarrow> int \<Rightarrow> int \<Rightarrow> ('hs, 'cs) peer \<Rightarrow> bool" where
  "peer_inv E now timeout p \<longleftrightarrow>
     (p_tx p = None \<longleftrightarrow> p_rx p = None) \<and> (p_handshake p \<noteq> None \<longrightarrow> p_tx p = None) \<and>
     (InternalCurrentState p = PEER_CONNECTED \<longrightarrow>
        attested E (p_id p) (p_last_attestation p) (p_minimums p) \<and> \<bar>now - p_last_attestation p\<bar> \<le> timeout)"

definition manager_inv :: "host_env \<Rightarrow> int \<Rightarrow> ('dh, 'hs, 'cs) peer_manager \<Rightarrow> bool" where
  "manager_inv E timeout m \<longleftrightarrow>
     om_inv (m_peers m) \<and> (\<forall>(i, p) \<in> set (m_peers m). p_id p = i \<and> peer_inv E (m_time m) timeout p)"

lemma peer_inv_states:
  "peer_inv E now timeout (Peer_new i)"
  "peer_inv E now timeout (InternalDisconnect p)"
  "peer_inv E now timeout ((InternalDisconnect p)\<lparr>p_handshake := Some hs\<rparr>)"
  "attested E (p_id p) now v \<Longrightarrow> 0 \<le> timeout \<Longrightarrow> peer_inv E now timeout (connect_peer p now v tx rx)"
  by (simp_all add: peer_inv_def Peer_new_def InternalCurrentState_def connect_peer_def)

lemma peer_ids [simp]: "p_id (Peer_new i) = i" "p_id (connect_peer p t v tx rx) = p_id p"
  by (simp_all add: Peer_new_def connect_peer_def)

lemma CreatePeer_inv:
  assumes "manager_inv E T m" "CreatePeer i m = (p, m')"
  shows "manager_inv E T m'" "p_id p = i" "peer_inv E (m_time m') T p" "m_time m' = m_time m"
proof -
  have "p_id p = i \<and> peer_inv E (m_time m) T p" if "map_of (m_peers m) i = Some p"
    using assms(1) map_of_SomeD [OF that] by (auto simp: manager_inv_def)
  then show "p_id p = i" "peer_inv E (m_time m') T p" "m_time m' = m_time m"
    using assms(2) by (auto simp: CreatePeer_def put_peer_def peer_inv_states split: option.splits)
  show "manager_inv E T m'"
    using assms om_put_snd [of _ i "Peer_new i" "m_peers m"]
    by (fastforce simp: CreatePeer_def put_peer_def manager_inv_def om_inv_put peer_inv_states split: option.splits)
qed

lemma put_peer_inv:
  assumes "manager_inv E T m" "p_id p = i" "peer_inv E (m_time m) T p"
  shows "manager_inv E T (put_peer i p m)"
  using assms om_put_snd [of _ i p "m_peers m"] by (fastforce simp: put_peer_def manager_inv_def om_inv_put)

lemma lookup_inv:
  "manager_inv E T m \<Longrightarrow> map_of (m_peers m) i = Some p \<Longrightarrow> p_id p = i \<and> peer_inv E (m_time m) T p"
  by (auto simp: manager_inv_def dest!: map_of_SomeD)

lemma InternalConnect_inv:
  "InternalConnect N E seed priv att p = Some (p', out, err) \<Longrightarrow> p_id p' = p_id p \<and> peer_inv E now T p'"
  using InternalConnect_cases [of N E seed priv att p p' out err] by (auto simp: peer_inv_states)

lemma MaybeConnect_inv:
  "MaybeConnect N E seed priv att p = Some (p', out, b, err) \<Longrightarrow> peer_inv E now T p \<Longrightarrow> p_id p' = p_id p \<and> peer_inv E now T p'"
  by (auto simp: MaybeConnect_def dest: InternalConnect_inv split: if_splits bind_splits)

lemma Peer_Accept_inv:
  "Peer_Accept N E seed now mins priv att syn p = Some (p', out, err, dec) \<Longrightarrow> 0 \<le> T \<Longrightarrow> p_id p' = p_id p \<and> peer_inv E now T p'"
  using Peer_Accept_cases [of N E seed now mins priv att syn p p' out err dec]
  by (fastforce simp: attested_def key_matches_def intro: peer_inv_states)

lemma Peer_Send_inv:
  "Peer_Send N E msg p = Some (p', out, err) \<Longrightarrow> peer_inv E now T p \<Longrightarrow> p_id p' = p_id p \<and> peer_inv E now T p'"
  using Peer_Send_cases [of N E msg p p' out err] peer_inv_states(2) [of E now T p]
  by (auto simp: peer_inv_def InternalCurrentState_def)

lemma Peer_Recv_inv:
  assumes r: "Peer_Recv N E now mins inner p = Some (p', out, err, dec)" and inv: "peer_inv E now T p" and T: "0 \<le> T"
  shows "p_id p' = p_id p \<and> peer_inv E now T p'"
  using Peer_Recv_cases [OF r]
proof (elim disjE exE conjE)
  fix synack assume f: "FinishConnection N E now mins synack p = Some (p', OK, dec)"
  then show ?thesis using FinishConnection_cases [OF f] T by (auto simp: key_matches_def intro!: peer_inv_states attestedI)
qed (use inv T in \<open>auto simp: peer_inv_states peer_inv_def InternalCurrentState_def key_matches_def intro: attestedI\<close>)

subsection \<open>Every operation of the manager\<close>

datatype pm_op = Op_Init seed | Op_Connect seed peer_id | Op_MaybeConnect seed peer_id | Op_Reset peer_id
  | Op_Send peer_id e2e_message | Op_Recv seed minimum_limits peer_message | Op_Refresh | Op_SetTime int int
  | Op_Minimums minimum_limits

definition pm_step ::
  "('dh, 'hs, 'cs) noise_c \<Rightarrow> host_env \<Rightarrow> pm_op \<Rightarrow> ('dh, 'hs, 'cs) peer_manager \<Rightarrow>
     (('dh, 'hs, 'cs) peer_manager \<times> sent \<times> e2e_message option) option" where
  "pm_step N E op m =
     (case op of
        Op_Init seed \<Rightarrow> Some (fst (PeerManager_Init N E seed m), [], None)
      | Op_Connect seed to \<Rightarrow> map_option (\<lambda>(m, out, err). (m, out, None)) (ConnectToPeer N E seed to m)
      | Op_MaybeConnect seed to \<Rightarrow> map_option (\<lambda>(m, out, err). (m, out, None)) (MaybeConnectToPeer N E seed to m)
      | Op_Reset to \<Rightarrow> map_option (\<lambda>(m, out, err). (m, out, None)) (PeerManager_ResetPeer E to m)
      | Op_Send to msg \<Rightarrow> map_option (\<lambda>(m, out, err). (m, out, None)) (SendToPeer N E to msg m)
      | Op_Recv seed mins msg \<Rightarrow> map_option (\<lambda>(m, out, err, dec). (m, out, dec)) (RecvFromPeer N E seed mins msg m)
      | Op_Refresh \<Rightarrow> map_option (\<lambda>(m, out, err). (m, out, None)) (PeerManager_RefreshAttestation N E m)
      | Op_SetTime secs timeout \<Rightarrow> map_option (\<lambda>(m, out). (m, out, None)) (SetPeerAttestationTimestamp E secs timeout m)
      | Op_Minimums mins \<Rightarrow> map_option (\<lambda>(m, out). (m, out, None)) (MinimumsUpdated E mins m))"

fun run_pm :: "('dh, 'hs, 'cs) noise_c \<Rightarrow> host_env \<Rightarrow> pm_op list \<Rightarrow> ('dh, 'hs, 'cs) peer_manager \<Rightarrow> ('dh, 'hs, 'cs) peer_manager option" where
  "run_pm N E [] m = Some m"
| "run_pm N E (op # ops) m = do { (m, out, dec) \<leftarrow> pm_step N E op m; run_pm N E ops m }"

lemma send_to_connected_inv:
  "send_to_connected N E msg ps = Some (ps', out) \<Longrightarrow> \<forall>(i, p) \<in> set ps. p_id p = i \<and> peer_inv E now T p \<Longrightarrow>
     map fst ps' = map fst ps \<and> (\<forall>(i, p) \<in> set ps'. p_id p = i \<and> peer_inv E now T p)"
proof (induction ps arbitrary: ps' out)
  case (Cons x ps)
  obtain i p where x: "x = (i, p)" by fastforce
  obtain p' o1 rest o2 where
    p': "(if InternalCurrentState p = PEER_CONNECTED then map_option (\<lambda>(p, out, err). (p, out)) (Peer_Send N E msg p) else Some (p, [])) = Some (p', o1)"
    and rest: "send_to_connected N E msg ps = Some (rest, o2)" and e: "ps' = (i, p') # rest"
    using Cons.prems(1) x by (auto split: bind_splits)
  have "p_id p' = i \<and> peer_inv E now T p'"
    using p' Cons.prems(2) x by (auto dest: Peer_Send_inv split: if_splits)
  then show ?case using Cons.IH [OF rest] Cons.prems(2) e x by simp
qed simp

lemma for_peers_inv:
  assumes "for_peers f ps = Some (ps', out)"
    and "\<And>i p p' out. (i, p) \<in> set ps \<Longrightarrow> f p = Some (p', out) \<Longrightarrow> Q i p'"
  shows "map fst ps' = map fst ps \<and> (\<forall>(i, p) \<in> set ps'. Q i p)"
  using assms
proof (induction ps arbitrary: ps' out)
  case (Cons x ps)
  obtain i p where x: "x = (i, p)" by fastforce
  obtain p' o1 rest o2 where r: "f p = Some (p', o1)" "for_peers f ps = Some (rest, o2)" "ps' = (i, p') # rest"
    using Cons.prems(1) x by (auto split: bind_splits)
  show ?case using Cons.IH [OF r(2)] Cons.prems(2) r(1,3) x by fastforce
qed simp

lemma manager_inv_peers:
  "om_inv (m_peers m) \<Longrightarrow> map fst ps = map fst (m_peers m) \<Longrightarrow> \<forall>(i, p) \<in> set ps. p_id p = i \<and> peer_inv E (m_time m) T p \<Longrightarrow>
     manager_inv E T (m\<lparr>m_peers := ps\<rparr>)"
  by (simp add: manager_inv_def om_inv_def)

lemma peer_inv_drop:
  "peer_inv E now T p \<Longrightarrow> Peer_Disconnect E p = Some (p', out) \<Longrightarrow> p_id p' = p_id p \<and> peer_inv E now' T p'"
  by (auto simp: Peer_Disconnect_def peer_inv_states split: bind_splits)

end
