(* ===== verification/PeersProps.thy ===== *)
theory PeersProps
  imports PeersInv
begin

text \<open>
  The properties of the peer manager: attestation of every connected peer over all sequences of operations, the minimum
  limits, the origin of delivered messages, and the channel between two connected peers.
\<close>

definition op_timeout :: "int \<Rightarrow> pm_op \<Rightarrow> bool" where
  "op_timeout T op = (case op of Op_SetTime secs timeout \<Rightarrow> timeout = T | _ \<Rightarrow> True)"

lemma SetTime_inv:
  assumes inv: "manager_inv E T m" and T: "0 \<le> T" and s: "SetPeerAttestationTimestamp E secs T m = Some (m', out)"
  shows "manager_inv E T m'"
proof (cases "m_time m = secs")
  case True
  then show ?thesis using s inv by (auto simp: SetPeerAttestationTimestamp_def Let_def manager_inv_def)
next
  case False
  then obtain ps where ps: "for_peers (MaybeDisconnectIfAttestationTooOld E secs T) (m_peers m) = Some (ps, out)"
    and m': "m' = m\<lparr>m_time := secs, m_peers := ps\<rparr>"
    using s by (auto simp: SetPeerAttestationTimestamp_def Let_def split: bind_splits)
  have "p_id p' = i \<and> peer_inv E secs T p'"
    if "(i, p) \<in> set (m_peers m)" "MaybeDisconnectIfAttestationTooOld E secs T p = Some (p', o1)" for i p p' o1
  proof -
    have p: "p_id p = i" "peer_inv E (m_time m) T p" using inv that(1) by (auto simp: manager_inv_def)
    show ?thesis
    proof (cases "p' = p")
      case True
      then have "InternalCurrentState p = PEER_CONNECTED \<longrightarrow> \<bar>secs - p_last_attestation p\<bar> \<le> T \<or> p = InternalDisconnect p"
        using that(2) by (auto simp: MaybeDisconnectIfAttestationTooOld_def Peer_Disconnect_def Let_def split: if_splits bind_splits)
      then show ?thesis using p True peer_inv_states(2) [of E secs T p] by (auto simp: peer_inv_def)
    next
      case False
      then have "Peer_Disconnect E p = Some (p', o1)"
        using that(2) by (auto simp: MaybeDisconnectIfAttestationTooOld_def Let_def split: if_splits)
      then show ?thesis using peer_inv_drop [OF p(2)] p(1) by blast
    qed
  qed
  from for_peers_inv [OF ps this] have "manager_inv E T ((m\<lparr>m_time := secs\<rparr>)\<lparr>m_peers := ps\<rparr>)"
    using inv by (intro manager_inv_peers) (auto simp: manager_inv_def)
  then show ?thesis unfolding m' .
qed

lemma MinimumsUpdated_shape:
  assumes "MinimumsUpdated E mins m = Some (m', out)"
  obtains ps where "for_peers (\<lambda>p. if Peer_CheckMinimums mins p \<noteq> OK then Peer_Disconnect E p else Some (p, [])) (m_peers m) = Some (ps, out)"
    "m' = m\<lparr>m_peers := ps\<rparr>"
  using assms by (auto simp: MinimumsUpdated_def split: bind_splits)

lemma MinimumsUpdated_inv:
  assumes inv: "manager_inv E T m" and s: "MinimumsUpdated E mins m = Some (m', out)"
  shows "manager_inv E T m'"
  using s
proof (rule MinimumsUpdated_shape)
  fix ps assume ps: "for_peers (\<lambda>p. if Peer_CheckMinimums mins p \<noteq> OK then Peer_Disconnect E p else Some (p, [])) (m_peers m) = Some (ps, out)"
    and m': "m' = m\<lparr>m_peers := ps\<rparr>"
  have "map fst ps = map fst (m_peers m) \<and> (\<forall>(i, p) \<in> set ps. p_id p = i \<and> peer_inv E (m_time m) T p)"
    using ps
  proof (rule for_peers_inv)
    fix i p p' o1 assume "(i, p) \<in> set (m_peers m)" "(if Peer_CheckMinimums mins p \<noteq> OK then Peer_Disconnect E p else Some (p, [])) = Some (p', o1)"
    then show "p_id p' = i \<and> peer_inv E (m_time m) T p'"
      using inv peer_inv_drop [of E "m_time m" T p p' o1] by (auto simp: manager_inv_def split: if_splits)
  qed
  then show ?thesis unfolding m' using inv by (intro manager_inv_peers) (auto simp: manager_inv_def)
qed

lemma RecvFromPeer_other:
  assumes "m_init_success m" "PeerID_FromString pid = Inr i" "\<nexists>syn. inner = PM_syn syn"
  shows "RecvFromPeer N E seed mins \<lparr>pm_peer_id = pid, pm_inner = inner\<rparr> m = do {
        (found, o1) \<leftarrow> (case inner of PM_rst _ \<Rightarrow> Some (GetPeer i m, []) | _ \<Rightarrow> GetPeerOrRst E i m);
        (case found of None \<Rightarrow> Some (m, o1, E_Peers Peers_RecvBeforeConnect, None)
         | Some peer \<Rightarrow> do { (peer, out2, err, decoded) \<leftarrow> Peer_Recv N E (m_time m) mins inner peer;
             Some (put_peer i peer m, o1 @ out2, err, decoded) }) }"
  using assms by (induction inner) (simp_all add: RecvFromPeer_def)

lemma RecvFromPeer_cases:
  assumes s: "RecvFromPeer N E seed mins msg m = Some (m', out, err, dec)"
  shows "m' = m \<and> dec = None \<or>
    (\<exists>i syn p m1 dh att p'. PeerID_FromString (pm_peer_id msg) = Inr i \<and> pm_inner msg = PM_syn syn \<and> CreatePeer i m = (p, m1) \<and>
       Peer_Accept N E seed (m_time m1) mins dh att syn p = Some (p', out, err, dec) \<and> m' = put_peer i p' m1) \<or>
    (\<exists>i p p' o2. PeerID_FromString (pm_peer_id msg) = Inr i \<and> map_of (m_peers m) i = Some p \<and>
       Peer_Recv N E (m_time m) mins (pm_inner msg) p = Some (p', o2, err, dec) \<and> m' = put_peer i p' m)"
proof (cases "m_init_success m \<and> (\<exists>i. PeerID_FromString (pm_peer_id msg) = Inr i)")
  case False
  then show ?thesis using s
    by (cases "m_init_success m"; cases "PeerID_FromString (pm_peer_id msg)") (auto simp: RecvFromPeer_def)
next
  case True
  then obtain i where i: "PeerID_FromString (pm_peer_id msg) = Inr i" and init: "m_init_success m" by blast
  show ?thesis
  proof (cases "\<exists>syn. pm_inner msg = PM_syn syn")
    case True
    then obtain syn where syn: "pm_inner msg = PM_syn syn" by blast
    obtain p m1 where c: "CreatePeer i m = (p, m1)" by fastforce
    obtain dh att p' where "Peer_Accept N E seed (m_time m1) mins dh att syn p = Some (p', out, err, dec)" "m' = put_peer i p' m1"
      using s i init syn c by (auto simp: RecvFromPeer_def split: bind_splits)
    then show ?thesis using i syn c by blast
  next
    case False
    obtain pid inner where inner: "msg = \<lparr>pm_peer_id = pid, pm_inner = inner\<rparr>" by (cases msg) simp
    note RecvFromPeer_other [OF init, of pid i inner N E seed mins]
    moreover have "map_of (m_peers m) i = found"
      if "(case inner of PM_rst _ \<Rightarrow> Some (GetPeer i m, []) | _ \<Rightarrow> GetPeerOrRst E i m) = Some (found, o1)" for found o1
      using that by (auto simp: GetPeer_def GetPeerOrRst_def split: peer_inner.splits option.splits bind_splits)
    ultimately show ?thesis using s i inner False by (auto split: bind_splits option.splits)
  qed
qed

lemma Recv_inv:
  assumes inv: "manager_inv E T m" and T: "0 \<le> T" and s: "RecvFromPeer N E seed mins msg m = Some (m', out, err, dec)"
  shows "manager_inv E T m'"
  using RecvFromPeer_cases [OF s]
proof (elim disjE exE conjE)
  fix i syn p m1 dh att p'
  assume "CreatePeer i m = (p, m1)" "Peer_Accept N E seed (m_time m1) mins dh att syn p = Some (p', out, err, dec)" "m' = put_peer i p' m1"
  then show ?thesis using put_peer_inv CreatePeer_inv [OF inv] Peer_Accept_inv T by metis
next
  fix i p p' o2
  assume "map_of (m_peers m) i = Some p" "Peer_Recv N E (m_time m) mins (pm_inner msg) p = Some (p', o2, err, dec)" "m' = put_peer i p' m"
  then show ?thesis using Peer_Recv_inv lookup_inv [OF inv] T put_peer_inv [OF inv] by metis
qed (use inv in simp)

lemma Connect_inv:
  assumes inv: "manager_inv E T m" and s: "ConnectToPeer N E seed to m = Some (m', out, err)"
  shows "manager_inv E T m'"
proof (cases "m_init_success m")
  case True
  obtain p m1 where c: "CreatePeer to m = (p, m1)" by fastforce
  obtain dh att p' where a: "InternalConnect N E seed dh att p = Some (p', out, err)" "m' = put_peer to p' m1"
    using s True c by (auto simp: ConnectToPeer_def split: bind_splits)
  show ?thesis using put_peer_inv CreatePeer_inv [OF inv c] InternalConnect_inv [OF a(1)] a(2) by metis
qed (use s inv in \<open>simp add: ConnectToPeer_def\<close>)

lemma MaybeConnectToPeer_inv:
  assumes inv: "manager_inv E T m" and s: "MaybeConnectToPeer N E seed to m = Some (m', out, err)"
  shows "manager_inv E T m'"
proof (cases "m_init_success m")
  case True
  obtain p m1 where c: "CreatePeer to m = (p, m1)" by fastforce
  obtain dh att p' b where a: "MaybeConnect N E seed dh att p = Some (p', out, b, err)" "m' = put_peer to p' m1"
    using s True c by (auto simp: MaybeConnectToPeer_def split: bind_splits)
  show ?thesis using put_peer_inv CreatePeer_inv [OF inv c] MaybeConnect_inv [OF a(1)] a(2) by metis
qed (use s inv in \<open>simp add: MaybeConnectToPeer_def\<close>)

lemma Reset_inv:
  assumes inv: "manager_inv E T m" and s: "PeerManager_ResetPeer E to m = Some (m', out, err)"
  shows "manager_inv E T m'"
proof (cases "m_init_success m \<and> map_of (m_peers m) to \<noteq> None")
  case True
  then obtain p where p: "map_of (m_peers m) to = Some p" by blast
  obtain p' o1 where d: "Peer_Disconnect E p = Some (p', o1)" "m' = put_peer to p' m"
    using s True p by (auto simp: PeerManager_ResetPeer_def GetPeerOrRst_def split: bind_splits)
  show ?thesis using lookup_inv [OF inv p] peer_inv_drop [OF _ d(1)] put_peer_inv [OF inv] d(2) by metis
qed (use s inv in \<open>auto simp: PeerManager_ResetPeer_def GetPeerOrRst_def split: if_splits bind_splits option.splits\<close>)

lemma SendTo_inv:
  assumes inv: "manager_inv E T m" and s: "SendToPeer N E to msg m = Some (m', out, err)"
  shows "manager_inv E T m'"
proof (cases "m_init_success m \<and> \<not> e2e_is_connected msg \<and> map_of (m_peers m) to \<noteq> None")
  case True
  then obtain p where p: "map_of (m_peers m) to = Some p" by blast
  obtain p' o1 where d: "Peer_Send N E msg p = Some (p', o1, err)" "m' = put_peer to p' m"
    using s True p by (auto simp: SendToPeer_def GetPeerOrRst_def split: bind_splits)
  show ?thesis using lookup_inv [OF inv p] Peer_Send_inv [OF d(1)] put_peer_inv [OF inv] d(2) by metis
qed (use s inv in \<open>auto simp: SendToPeer_def GetPeerOrRst_def split: if_splits bind_splits option.splits\<close>)

lemma Refresh_inv:
  assumes inv: "manager_inv E T m" and s: "PeerManager_RefreshAttestation N E m = Some (m', out, err)"
  shows "manager_inv E T m'"
proof (cases "m' = m")
  case False
  then obtain ev ps where ps: "send_to_connected N E (E2E_attestation_update ev) (m_peers m) = Some (ps, out)"
    and m': "m' = m\<lparr>m_attestation := ev, m_peers := ps\<rparr>"
    using s by (auto simp: PeerManager_RefreshAttestation_def split: prod.splits if_splits bind_splits)
  have "manager_inv E T ((m\<lparr>m_attestation := ev\<rparr>)\<lparr>m_peers := ps\<rparr>)"
    using inv send_to_connected_inv [OF ps, of "m_time m" T] by (intro manager_inv_peers) (auto simp: manager_inv_def)
  then show ?thesis unfolding m' .
qed (use inv in simp)

lemma pm_step_inv:
  assumes inv: "manager_inv E T m" and T: "0 \<le> T" "op_timeout T op" and s: "pm_step N E op m = Some (m', out, dec)"
  shows "manager_inv E T m'"
proof (cases op)
  case (Op_Init seed)
  then show ?thesis using s inv
    by (auto simp: pm_step_def PeerManager_Init_def manager_inv_def Let_def split: option.splits prod.splits if_splits)
next
  case (Op_SetTime secs timeout)
  then show ?thesis using s T SetTime_inv [OF inv T(1)] by (auto simp: pm_step_def op_timeout_def)
qed (use s inv T in \<open>auto simp: pm_step_def intro: Connect_inv MaybeConnectToPeer_inv Reset_inv SendTo_inv Recv_inv Refresh_inv MinimumsUpdated_inv\<close>)

lemma run_pm_inv:
  "run_pm N E ops m = Some m' \<Longrightarrow> manager_inv E T m \<Longrightarrow> 0 \<le> T \<Longrightarrow> list_all (op_timeout T) ops \<Longrightarrow> manager_inv E T m'"
  by (induction ops arbitrary: m) (auto split: bind_splits dest: pm_step_inv)

lemma manager_inv_new: "manager_inv E T PeerManager_new"
  by (simp add: manager_inv_def PeerManager_new_def)

subsection \<open>The channel between two peers\<close>

definition linked :: "('cs \<Rightarrow> 'cs \<Rightarrow> bool) \<Rightarrow> ('hs, 'cs) peer \<Rightarrow> ('hs, 'cs) peer \<Rightarrow> bool" where
  "linked R p q \<longleftrightarrow> InternalCurrentState p = PEER_CONNECTED \<and> InternalCurrentState q = PEER_CONNECTED \<and>
     p_tx_rekey p = p_rx_rekey q \<and> (\<exists>tx rx. p_tx p = Some tx \<and> p_rx q = Some rx \<and> R tx rx)"

fun send_all :: "('dh, 'hs, 'cs) noise_c \<Rightarrow> host_env \<Rightarrow> e2e_message list \<Rightarrow> ('hs, 'cs) peer \<Rightarrow> (('hs, 'cs) peer \<times> peer_inner list) option" where
  "send_all N E [] p = Some (p, [])"
| "send_all N E (msg # msgs) p = do {
     (p, out, err) \<leftarrow> Peer_Send N E msg p;
     (case out of
        [EM_peer_message pm] \<Rightarrow>
          if err \<noteq> OK then None else do { (p, rest) \<leftarrow> send_all N E msgs p; Some (p, pm_inner pm # rest) }
      | _ \<Rightarrow> None) }"

fun recv_all ::
  "('dh, 'hs, 'cs) noise_c \<Rightarrow> host_env \<Rightarrow> int \<Rightarrow> minimum_limits \<Rightarrow> peer_inner list \<Rightarrow> ('hs, 'cs) peer \<Rightarrow> (('hs, 'cs) peer \<times> e2e_message list) option" where
  "recv_all N E time mins [] q = Some (q, [])"
| "recv_all N E time mins (inner # inners) q = do {
     (q, out, err, dec) \<leftarrow> Peer_Recv N E time mins inner q;
     e \<leftarrow> dec;
     (q, rest) \<leftarrow> recv_all N E time mins inners q;
     Some (q, e # rest) }"

definition not_update :: "e2e_message \<Rightarrow> bool" where
  "not_update msg = (case msg of E2E_attestation_update _ \<Rightarrow> False | _ \<Rightarrow> True)"

lemma channel_step:
  assumes laws: "cipher_sizes N" "cipher_pairing N R" and pb: "\<forall>msg s. ser_e2e E msg = Some s \<longrightarrow> parse_e2e E s = Some msg"
    and l: "linked R p q" and s: "Peer_Send N E msg p = Some (p', out, OK)" and nu: "not_update msg"
  shows "\<exists>c q'. out = [EM_peer_message \<lparr>pm_peer_id = PeerID_ToString (p_id p), pm_inner = PM_data c\<rparr>] \<and>
    Peer_Recv N E time mins (PM_data c) q = Some (q', [], OK, Some msg) \<and> linked R p' q'"
proof -
  obtain sz tx tx1 c where e: "ser_e2e E msg = Some sz" "p_tx p = Some tx" "Encrypt N tx sz = Some (tx1, c, OK)"
    and p': "p' = p\<lparr>p_tx := Some (if p_tx_rekey p + 1 = 0 then cipherstate_rekey N tx1 else tx1), p_tx_rekey := p_tx_rekey p + 1\<rparr>"
    and out: "out = [EM_peer_message \<lparr>pm_peer_id = PeerID_ToString (p_id p), pm_inner = PM_data c\<rparr>]"
    using Peer_Send_cases [OF s] by blast
  obtain rx where q: "InternalCurrentState q = PEER_CONNECTED" "p_rx q = Some rx" "R tx rx" "p_tx_rekey p = p_rx_rekey q"
    "InternalCurrentState p = PEER_CONNECTED" using l e(2) by (auto simp: linked_def)
  obtain rx1 where d: "Decrypt N rx c = Some (rx1, sz, OK)" "R tx1 rx1" using Decrypt_Encrypt [OF laws q(3) e(3)] by blast
  have parse: "parse_e2e E sz = Some msg" using pb e(1) by blast
  define q' where "q' = q\<lparr>p_rx := Some (if p_rx_rekey q + 1 = 0 then cipherstate_rekey N rx1 else rx1), p_rx_rekey := p_rx_rekey q + 1\<rparr>"
  have "Peer_Recv N E time mins (PM_data c) q = Some (q', [], OK, Some msg)"
    using q d parse nu unfolding Peer_Recv_def Let_def q'_def by (cases msg) (simp_all add: not_update_def)
  moreover have "linked R p' q'"
    using q d(2) laws(2) e(2) by (auto simp: linked_def p' q'_def connected_iff cipher_pairing_def)
  ultimately show ?thesis using out by blast
qed

lemma channel_all:
  assumes laws: "cipher_sizes N" "cipher_pairing N R" and pb: "\<forall>msg s. ser_e2e E msg = Some s \<longrightarrow> parse_e2e E s = Some msg"
  shows "linked R p q \<Longrightarrow> list_all not_update msgs \<Longrightarrow> send_all N E msgs p = Some (p', inners) \<Longrightarrow>
    \<exists>q'. recv_all N E time mins inners q = Some (q', msgs) \<and> linked R p' q'"
proof (induction msgs arbitrary: p q inners)
  case (Cons msg msgs)
  obtain p1 out err where s: "Peer_Send N E msg p = Some (p1, out, err)"
    using Cons.prems(3) by (auto split: bind_splits)
  then have ok: "err = OK" using Cons.prems(3) by (auto split: list.splits enclave_message.splits if_splits)
  from channel_step [OF laws pb Cons.prems(1) s [unfolded ok], of time mins] Cons.prems(2)
  obtain c q1 where c: "out = [EM_peer_message \<lparr>pm_peer_id = PeerID_ToString (p_id p), pm_inner = PM_data c\<rparr>]"
    "Peer_Recv N E time mins (PM_data c) q = Some (q1, [], OK, Some msg)" "linked R p1 q1" by auto
  obtain rest where r: "send_all N E msgs p1 = Some (p', rest)" "inners = PM_data c # rest"
    using Cons.prems(3) s ok c(1) by (auto split: bind_splits)
  show ?case using Cons.IH [OF c(3) _ r(1)] Cons.prems(2) c(2) r(2) by auto
qed simp

subsection \<open>Minimums\<close>

lemma MinimumsUpdated_compliant:
  assumes "MinimumsUpdated E mins m = Some (m', out)" "(i, p) \<in> set (m_peers m')"
  shows "Peer_CheckMinimums mins p = OK"
  using assms(1)
proof (rule MinimumsUpdated_shape)
  fix ps assume ps: "for_peers (\<lambda>p. if Peer_CheckMinimums mins p \<noteq> OK then Peer_Disconnect E p else Some (p, [])) (m_peers m) = Some (ps, out)"
    and m': "m' = m\<lparr>m_peers := ps\<rparr>"
  have "map fst ps = map fst (m_peers m) \<and> (\<forall>(i, p) \<in> set ps. Peer_CheckMinimums mins p = OK)"
    by (rule for_peers_inv [OF ps])
      (auto simp: Peer_Disconnect_def Peer_CheckMinimums_def InternalCurrentState_def split: if_splits bind_splits)
  then show ?thesis using assms(2) m' by auto
qed

lemma CheckPeerMinimums_list_OK:
  "CheckPeerMinimums_list mins ps = OK \<longleftrightarrow> (\<forall>(i, p) \<in> set ps. Peer_CheckMinimums mins p = OK)"
  by (induction mins ps rule: CheckPeerMinimums_list.induct) (auto simp: Let_def)

lemma for_peers_unchanged: "(\<And>i p. (i, p) \<in> set ps \<Longrightarrow> f p = Some (p, [])) \<Longrightarrow> for_peers f ps = Some (ps, [])"
proof (induction ps)
  case (Cons x ps)
  then show ?case by (cases x) fastforce
qed simp

lemma MinimumsUpdated_noop: "CheckPeerMinimums mins m = OK \<Longrightarrow> MinimumsUpdated E mins m = Some (m, [])"
  unfolding CheckPeerMinimums_def CheckPeerMinimums_list_OK MinimumsUpdated_def
  by (subst for_peers_unchanged) auto

subsection \<open>An example\<close>

abbreviation peer_key :: "byte \<Rightarrow> bytes" where
  "peer_key b \<equiv> replicate 32 b"

definition example_peer :: "(noise_role \<times> noise_action, nat) peer" where
  "example_peer = connect_peer (Peer_new (peer_key 9)) 1000 [([1], [5])] 3 3"

subsection \<open>Properties\<close>

text \<open>C20: messages only come from attested peers.  Whatever the host does, whenever the manager delivers a message that arrived as
  data, its sender is connected, the platform has accepted an attestation of the sender's key no longer ago than the
  timeout, and the message is what the connection's receiving cipher decrypts.\<close>

theorem peers_messages_only_from_attested:
  assumes "run_pm N E ops PeerManager_new = Some m" "list_all (op_timeout T) ops" "0 \<le> T"
    and "RecvFromPeer N E seed mins \<lparr>pm_peer_id = i, pm_inner = PM_data c\<rparr> m = Some (m', out, err, Some e)"
  shows "\<exists>p rx rx' s a d. map_of (m_peers m) i = Some p \<and> InternalCurrentState p = PEER_CONNECTED \<and>
    Attest E (p_last_attestation p) a = (d, OK) \<and> key_matches (ad_public_key d) i \<and> \<bar>m_time m - p_last_attestation p\<bar> \<le> T \<and>
    p_rx p = Some rx \<and> Decrypt N rx c = Some (rx', s, OK) \<and> parse_e2e E s = Some e"
proof -
  have inv: "manager_inv E T m" using run_pm_inv [OF assms(1) manager_inv_new assms(3,2)] .
  obtain p p' o2 where p: "map_of (m_peers m) i = Some p" "Peer_Recv N E (m_time m) mins (PM_data c) p = Some (p', o2, err, Some e)"
    using RecvFromPeer_cases [OF assms(4)] by (auto simp: PeerID_FromString_Inr)
  from Peer_Recv_cases [OF p(2)] obtain rx rx1 s where
    d: "InternalCurrentState p = PEER_CONNECTED" "p_rx p = Some rx" "Decrypt N rx c = Some (rx1, s, OK)" "parse_e2e E s = Some e"
    by auto
  have "attested E i (p_last_attestation p) (p_minimums p)" "\<bar>m_time m - p_last_attestation p\<bar> \<le> T"
    using lookup_inv [OF inv p(1)] d(1) by (auto simp: peer_inv_def)
  then show ?thesis using p(1) d unfolding attested_def by blast
qed

theorem peers_messages_only_from_attested_witness:
  "\<exists>m p a d. run_pm counter_noise example_env [Op_Init 5, Op_SetTime 1000 60, Op_Recv 1 [] \<lparr>pm_peer_id = peer_key 9, pm_inner = PM_syn (peer_key 9 @ [5])\<rparr>]
       PeerManager_new = Some m \<and> map_of (m_peers m) (peer_key 9) = Some p \<and> InternalCurrentState p = PEER_CONNECTED \<and>
     Attest example_env (p_last_attestation p) a = (d, OK) \<and> key_matches (ad_public_key d) (peer_key 9) \<and> \<bar>m_time m - p_last_attestation p\<bar> \<le> 60"
proof -
  let ?ops = "[Op_Init 5, Op_SetTime 1000 60, Op_Recv 1 [] \<lparr>pm_peer_id = peer_key 9, pm_inner = PM_syn (peer_key 9 @ [5])\<rparr>]"
  let ?msg = "\<lparr>pm_peer_id = peer_key 9, pm_inner = PM_data (0 # replicate 16 0)\<rparr>"
  have "(case run_pm counter_noise example_env ?ops PeerManager_new of None \<Rightarrow> False
    | Some m \<Rightarrow> (case RecvFromPeer counter_noise example_env 1 [] ?msg m of Some (m', out, err, Some e) \<Rightarrow> True | _ \<Rightarrow> False))"
    by code_simp
  then obtain m m' out err e where r: "run_pm counter_noise example_env ?ops PeerManager_new = Some m"
    "RecvFromPeer counter_noise example_env 1 [] ?msg m = Some (m', out, err, Some e)"
    by (auto split: option.splits prod.splits)
  have "list_all (op_timeout 60) ?ops" by (simp add: op_timeout_def)
  from peers_messages_only_from_attested [OF r(1) this _ r(2)] r(1) show ?thesis by auto
qed

text \<open>C22: the minimums hold for connected peers.  A completed handshake means that the values of the peer's attestation meet the limits,
  and after \<^verbatim>\<open>MinimumsUpdated\<close> every connected peer meets them; it changes nothing when \<^verbatim>\<open>CheckPeerMinimums\<close> accepted the limits.\<close>

theorem peers_minimums_enforced:
  "(Peer_Accept N E seed now mins priv att syn p = Some (p', out, OK, dec) \<longrightarrow>
      InternalCurrentState p' = PEER_CONNECTED \<and> CheckValues (p_minimums p') mins = OK) \<and>
   (FinishConnection N E now mins synack p = Some (p', OK, dec) \<longrightarrow>
      InternalCurrentState p' = PEER_CONNECTED \<and> CheckValues (p_minimums p') mins = OK) \<and>
   (MinimumsUpdated E mins m = Some (m', out) \<longrightarrow>
      (\<forall>(i, q) \<in> set (m_peers m'). InternalCurrentState q = PEER_CONNECTED \<longrightarrow> CheckValues (p_minimums q) mins = OK)) \<and>
   (CheckPeerMinimums mins m = OK \<longrightarrow> MinimumsUpdated E mins m = Some (m, []))"
proof (intro conjI impI)
  show "InternalCurrentState p' = PEER_CONNECTED" "CheckValues (p_minimums p') mins = OK"
    if "Peer_Accept N E seed now mins priv att syn p = Some (p', out, OK, dec)"
    using Peer_Accept_cases [OF that] by (auto simp: connect_peer_def connected_iff)
  show "InternalCurrentState p' = PEER_CONNECTED" "CheckValues (p_minimums p') mins = OK"
    if "FinishConnection N E now mins synack p = Some (p', OK, dec)"
    using FinishConnection_cases [OF that] by (auto simp: connect_peer_def connected_iff)
  show "\<forall>(i, q) \<in> set (m_peers m'). InternalCurrentState q = PEER_CONNECTED \<longrightarrow> CheckValues (p_minimums q) mins = OK"
    if "MinimumsUpdated E mins m = Some (m', out)"
    using MinimumsUpdated_compliant [OF that] by (fastforce simp: Peer_CheckMinimums_def)
  show "MinimumsUpdated E mins m = Some (m, [])" if "CheckPeerMinimums mins m = OK"
    using that by (rule MinimumsUpdated_noop)
qed

theorem peers_minimums_enforced_witness:
  "\<exists>p' out dec. Peer_Accept counter_noise example_env 1 1000 [([1], [5])] (peer_key 1) \<lparr>att_evidence = [], att_endorsements = []\<rparr> (peer_key 9 @ [5])
       (Peer_new (peer_key 9)) = Some (p', out, OK, dec) \<and>
     InternalCurrentState p' = PEER_CONNECTED \<and> CheckValues (p_minimums p') [([1], [5])] = OK"
proof -
  have "(case Peer_Accept counter_noise example_env 1 1000 [([1], [5])] (peer_key 1) \<lparr>att_evidence = [], att_endorsements = []\<rparr> (peer_key 9 @ [5])
       (Peer_new (peer_key 9)) of Some (p', out, err, dec) \<Rightarrow> err = OK | None \<Rightarrow> False)" by code_simp
  then obtain p' out dec where "Peer_Accept counter_noise example_env 1 1000 [([1], [5])] (peer_key 1) \<lparr>att_evidence = [], att_endorsements = []\<rparr>
    (peer_key 9 @ [5]) (Peer_new (peer_key 9)) = Some (p', out, OK, dec)" by (auto split: option.splits)
  from this peers_minimums_enforced [THEN conjunct1, THEN mp, OF this] show ?thesis by blast
qed

text \<open>C28: a re-attestation is not checked against the minimums.  When a connected peer sends a fresh attestation of its own key whose
  values are below the limits, the connection stays up and records these values.\<close>

theorem peers_reattestation_skips_minimums:
  assumes "InternalCurrentState p = PEER_CONNECTED" "p_rx p = Some rx" "Decrypt N rx c = Some (rx', s, OK)"
    "parse_e2e E s = Some (E2E_attestation_update a)" "Attest E now a = (d, OK)" "ad_public_key d = p_id p"
  shows "\<exists>p'. Peer_Recv N E now mins (PM_data c) p = Some (p', [], OK, None) \<and>
    InternalCurrentState p' = PEER_CONNECTED \<and> p_minimums p' = ad_minimum_values d"
  using assms unfolding Peer_Recv_def CheckNextAttestation_def Let_def by (simp add: connected_iff)

theorem peers_reattestation_skips_minimums_witness:
  "\<exists>p'. Peer_Recv counter_noise example_env 2000 [([1], [5])] (PM_data (1 # 32 # peer_key 9 @ [4] @ replicate 16 3)) example_peer = Some (p', [], OK, None) \<and>
     InternalCurrentState p' = PEER_CONNECTED \<and> CheckValues (p_minimums p') [([1], [5])] = E_Minimums Minimums_ValueTooLow"
proof -
  let ?a = "\<lparr>att_evidence = peer_key 9, att_endorsements = [4]\<rparr>"
  let ?d = "\<lparr>ad_public_key = peer_key 9, ad_group_config = None, ad_minimum_values = [([1], [4])]\<rparr>"
  have "CheckValues (ad_minimum_values ?d) [([1], [5])] = E_Minimums Minimums_ValueTooLow" by code_simp
  moreover have "InternalCurrentState example_peer = PEER_CONNECTED" "p_rx example_peer = Some 3" by code_simp+
  moreover have "Decrypt counter_noise 3 (1 # 32 # peer_key 9 @ [4] @ replicate 16 3) = Some (4, 1 # 32 # peer_key 9 @ [4], OK)" by code_simp
  moreover have "parse_e2e example_env (1 # 32 # peer_key 9 @ [4]) = Some (E2E_attestation_update ?a)"
    "Attest example_env 2000 ?a = (?d, OK)" "ad_public_key ?d = p_id example_peer" by code_simp+
  ultimately show ?thesis using peers_reattestation_skips_minimums [of example_peer 3 counter_noise _ 4 _ example_env ?a 2000 ?d "[([1], [5])]"] by metis
qed

text \<open>C21: what one peer sends is what the other receives.  While both ends are connected with paired ciphers and equal re-key counters,
  any sequence of messages that is sent, of any length and number (so across packets and re-keyings), is delivered
  unchanged and in order, and the ends stay paired.\<close>

theorem peers_channel_round_trip:
  assumes "cipher_sizes N" "cipher_pairing N R" "\<forall>msg s. ser_e2e E msg = Some s \<longrightarrow> parse_e2e E s = Some msg"
    "linked R p q" "list_all not_update msgs" "send_all N E msgs p = Some (p', inners)"
  shows "\<exists>q'. recv_all N E now mins inners q = Some (q', msgs) \<and> linked R p' q'"
  using channel_all [OF assms(1-3) assms(4-6)] .

theorem peers_channel_round_trip_witness:
  "\<exists>p' q' inners. send_all counter_noise example_env [E2E_NOT_SET, E2E_NOT_SET] example_peer = Some (p', inners) \<and>
     recv_all counter_noise example_env 2000 [] inners example_peer = Some (q', [E2E_NOT_SET, E2E_NOT_SET]) \<and> linked (=) p' q'"
proof -
  have "send_all counter_noise example_env [E2E_NOT_SET, E2E_NOT_SET] example_peer \<noteq> None" by code_simp
  then obtain p' inners where s: "send_all counter_noise example_env [E2E_NOT_SET, E2E_NOT_SET] example_peer = Some (p', inners)" by auto
  have "linked (=) example_peer example_peer" by (simp add: linked_def example_peer_def connect_peer_def connected_iff)
  moreover have "\<forall>msg s. ser_e2e example_env msg = Some s \<longrightarrow> parse_e2e example_env s = Some msg"
    by (auto simp: example_env_def unsigned_of_nat take_bit_nat_eq_self split: e2e_message.splits if_splits)
  moreover have "list_all not_update [E2E_NOT_SET, E2E_NOT_SET]" by code_simp
  ultimately show ?thesis using peers_channel_round_trip [OF counter_noise_laws] s by blast
qed

end
