(* ===== verification/Clients.thy ===== *)
theory Clients
  imports PeerManager
begin

text \<open>
  src/enclave/client: the encrypted sessions of clients.  A \<^verbatim>\<open>Client\<close> is created with a Noise responder handshake and the
  enclave's attestation, finishes the handshake with the client's first message, and then decrypts requests and
  encrypts responses.  The global counter \<^verbatim>\<open>id_gen\<close> is a field of the manager's state.  The protobuf request and
  response types are parameters: their parser and serialiser are arguments.
\<close>

record ('hs, 'cs) client =
  c_hs_start :: client_handshake_start
  c_hs :: "'hs option"
  c_tx :: "'cs option"
  c_rx :: "'cs option"
  c_id :: nat
  c_authenticated_id :: bytes

definition empty_handshake_start :: client_handshake_start where
  "empty_handshake_start = \<lparr>hs_test_only_pubkey = [], hs_evidence = [], hs_endorsement = []\<rparr>"

definition Client_new :: "bytes \<Rightarrow> nat \<Rightarrow> ('hs, 'cs) client" where
  "Client_new authenticated_id gen =
     \<lparr>c_hs_start = empty_handshake_start, c_hs = None, c_tx = None, c_rx = None, c_id = gen, c_authenticated_id = authenticated_id\<rparr>"

definition Client_Init ::
  "('dh, 'hs, 'cs) noise_c \<Rightarrow> seed \<Rightarrow> 'dh \<Rightarrow> attestation \<Rightarrow> ('hs, 'cs) client \<Rightarrow> ('hs, 'cs) client \<times> error" where
  "Client_Init N seed dhstate att c =
     (case handshakestate_new_by_id N seed NOISE_ROLE_RESPONDER of
        None \<Rightarrow> (c, E_Client Client_HandshakeState)
      | Some hs \<Rightarrow>
          (case handshakestate_set_local_keypair N hs (Some dhstate) of
             None \<Rightarrow> (c, E_Client Client_CopyDHState)
           | Some hs \<Rightarrow>
               (case handshakestate_start N hs of
                  None \<Rightarrow> (c, E_Client Client_HandshakeStart)
                | Some hs \<Rightarrow>
                    (case dhstate_get_public_key N (Some dhstate) of
                       None \<Rightarrow> (c\<lparr>c_hs_start := (c_hs_start c)\<lparr>hs_test_only_pubkey := replicate 32 0\<rparr>\<rparr>, E_Client Client_ExtractPublicKey)
                     | Some key \<Rightarrow>
                         (c\<lparr>c_hs_start := \<lparr>hs_test_only_pubkey = key, hs_evidence = att_evidence att, hs_endorsement = att_endorsements att\<rparr>,
                            c_hs := Some hs\<rparr>, OK)))))"

definition MovedHandshakeStart :: "('hs, 'cs) client \<Rightarrow> client_handshake_start \<times> ('hs, 'cs) client" where
  "MovedHandshakeStart c = (c_hs_start c, c\<lparr>c_hs_start := empty_handshake_start\<rparr>)"

definition Handshaking :: "('hs, 'cs) client \<Rightarrow> bool" where
  "Handshaking c = (c_hs c \<noteq> None)"

definition FinishHandshake ::
  "('dh, 'hs, 'cs) noise_c \<Rightarrow> bytes \<Rightarrow> ('hs, 'cs) client \<Rightarrow> ('hs, 'cs) client \<times> bytes \<times> error" where
  "FinishHandshake N data c =
     (case c_hs c of
        None \<Rightarrow> (c, [], E_Client Client_HandshakeState)
      | Some hs \<Rightarrow>
          if c_tx c \<noteq> None \<or> c_rx c \<noteq> None \<or> handshakestate_get_action N hs \<noteq> NOISE_ACTION_READ_MESSAGE
          then (c, [], E_Client Client_HandshakeState)
          else
            let (read_ok, hs) = handshakestate_read_message N hs data; c = c\<lparr>c_hs := Some hs\<rparr> in
            if \<not> read_ok then (c, [], E_Client Client_FinishReadHandshake)
            else if handshakestate_get_action N hs \<noteq> NOISE_ACTION_WRITE_MESSAGE then (c, [], E_Client Client_HandshakeState)
            else
              let (written, hs) = handshakestate_write_message N hs HANDSHAKE_INIT_SIZE; c = c\<lparr>c_hs := Some hs\<rparr> in
              (case written of
                 None \<Rightarrow> (c, [], E_Client Client_FinishWriteHandshake)
               | Some buffer \<Rightarrow>
                   if handshakestate_get_action N hs \<noteq> NOISE_ACTION_SPLIT then (c, [], E_Client Client_HandshakeState)
                   else (case handshakestate_split N hs of
                       None \<Rightarrow> (c, [], E_Client Client_FinishSplit)
                     | Some (tx, rx) \<Rightarrow> (c\<lparr>c_tx := Some tx, c_rx := Some rx, c_hs := None\<rparr>, buffer, OK))))"

definition DecryptRequest ::
  "('dh, 'hs, 'cs) noise_c \<Rightarrow> (bytes \<Rightarrow> 'r option) \<Rightarrow> bytes \<Rightarrow> ('hs, 'cs) client \<Rightarrow> (('hs, 'cs) client \<times> 'r option \<times> error) option" where
  "DecryptRequest N parse data c =
     (if c_hs c \<noteq> None \<or> c_tx c = None \<or> c_rx c = None then Some (c, None, E_Client Client_DecryptState)
      else do {
        rx \<leftarrow> c_rx c;
        (rx, plaintext, err) \<leftarrow> Decrypt N rx data;
        let c = c\<lparr>c_rx := Some rx\<rparr>;
        if err \<noteq> OK then Some (c, None, err)
        else (case parse plaintext of
            None \<Rightarrow> Some (c, None, E_Client Client_DecryptParse)
          | Some request \<Rightarrow> Some (c, Some request, OK)) })"

definition EncryptResponse ::
  "('dh, 'hs, 'cs) noise_c \<Rightarrow> ('r \<Rightarrow> bytes option) \<Rightarrow> 'r \<Rightarrow> ('hs, 'cs) client \<Rightarrow> (('hs, 'cs) client \<times> bytes \<times> error) option" where
  "EncryptResponse N ser response c =
     (if c_hs c \<noteq> None \<or> c_tx c = None \<or> c_rx c = None then Some (c, [], E_Client Client_EncryptState)
      else case ser response of
          None \<Rightarrow> Some (c, [], E_Client Client_EncryptSerialize)
        | Some plaintext \<Rightarrow> do {
            tx \<leftarrow> c_tx c;
            (tx, ciphertext, err) \<leftarrow> Encrypt N tx plaintext;
            Some (c\<lparr>c_tx := Some tx\<rparr>, ciphertext, err) })"

record ('dh, 'hs, 'cs) client_manager =
  cm_dhstate :: "'dh option"
  cm_attestation :: attestation
  cm_clients :: "(nat, ('hs, 'cs) client) omap"
  cm_id_gen :: nat

definition ClientManager_new :: "'dh option \<Rightarrow> nat \<Rightarrow> ('dh, 'hs, 'cs) client_manager" where
  "ClientManager_new dhstate gen = \<lparr>cm_dhstate = dhstate, cm_attestation = \<lparr>att_evidence = [], att_endorsements = []\<rparr>, cm_clients = [], cm_id_gen = gen\<rparr>"

definition NewDHState :: "('dh, 'hs, 'cs) noise_c \<Rightarrow> seed \<Rightarrow> 'dh option" where
  "NewDHState N seed = (case dhstate_new_by_id N of None \<Rightarrow> None | Some dh \<Rightarrow> dhstate_generate_keypair N seed dh)"

definition ClientArgs :: "('dh, 'hs, 'cs) noise_c \<Rightarrow> ('dh, 'hs, 'cs) client_manager \<Rightarrow> ('dh \<times> attestation) option" where
  "ClientArgs N cm = do { dh \<leftarrow> CloneDHState N (cm_dhstate cm); Some (dh, cm_attestation cm) }"

definition put_client :: "('hs, 'cs) client \<Rightarrow> ('dh, 'hs, 'cs) client_manager \<Rightarrow> ('dh, 'hs, 'cs) client_manager" where
  "put_client c cm = cm\<lparr>cm_clients := om_put (c_id c) c (cm_clients cm)\<rparr>"

definition NewClient ::
  "('dh, 'hs, 'cs) noise_c \<Rightarrow> seed \<Rightarrow> bytes \<Rightarrow> ('dh, 'hs, 'cs) client_manager \<Rightarrow>
     (('dh, 'hs, 'cs) client_manager \<times> ('hs, 'cs) client option \<times> error) option" where
  "NewClient N seed authenticated_id cm = do {
     let c = Client_new authenticated_id (cm_id_gen cm);
     let cm = cm\<lparr>cm_id_gen := u64_add (cm_id_gen cm) 1\<rparr>;
     (dhstate, att) \<leftarrow> ClientArgs N cm;
     let (c, err) = Client_Init N seed dhstate att c;
     if err \<noteq> OK then Some (cm, None, err) else Some (put_client c cm, Some c, OK) }"

definition GetClient :: "nat \<Rightarrow> ('dh, 'hs, 'cs) client_manager \<Rightarrow> ('hs, 'cs) client option" where
  "GetClient i cm = map_of (cm_clients cm) i"

definition RemoveClient :: "nat \<Rightarrow> ('dh, 'hs, 'cs) client_manager \<Rightarrow> ('dh, 'hs, 'cs) client_manager \<times> bool" where
  "RemoveClient i cm =
     (case map_of (cm_clients cm) i of
        None \<Rightarrow> (cm, False)
      | Some c \<Rightarrow> (cm\<lparr>cm_clients := om_del i (cm_clients cm)\<rparr>, True))"

definition GetAttestation ::
  "('dh, 'hs, 'cs) noise_c \<Rightarrow> host_env \<Rightarrow> 'dh option \<Rightarrow> raft_group_config \<Rightarrow> attestation \<times> error" where
  "GetAttestation N E dhstate config =
     (case dhstate_get_public_key N dhstate of
        None \<Rightarrow> (\<lparr>att_evidence = [], att_endorsements = []\<rparr>, E_Peers Peers_NewKeyPublic)
      | Some key \<Rightarrow> Evidence E \<lparr>ad_public_key = key, ad_group_config = Some config, ad_minimum_values = []\<rparr>)"

definition RotateKeyAndRefreshAttestation ::
  "('dh, 'hs, 'cs) noise_c \<Rightarrow> host_env \<Rightarrow> seed \<Rightarrow> raft_group_config \<Rightarrow> ('dh, 'hs, 'cs) client_manager \<Rightarrow> ('dh, 'hs, 'cs) client_manager \<times> error" where
  "RotateKeyAndRefreshAttestation N E seed config cm =
     (let dhstate = NewDHState N seed;
          (att, err) = GetAttestation N E dhstate config
      in if err \<noteq> OK then (cm, err) else (cm\<lparr>cm_dhstate := dhstate, cm_attestation := att\<rparr>, OK))"

definition ClientManager_RefreshAttestation ::
  "('dh, 'hs, 'cs) noise_c \<Rightarrow> host_env \<Rightarrow> raft_group_config \<Rightarrow> ('dh, 'hs, 'cs) client_manager \<Rightarrow> (('dh, 'hs, 'cs) client_manager \<times> error) option" where
  "ClientManager_RefreshAttestation N E config cm = do {
     (dhstate, old) \<leftarrow> ClientArgs N cm;
     let (att, err) = GetAttestation N E (Some dhstate) config;
     Some (if err \<noteq> OK then (cm, err) else (cm\<lparr>cm_attestation := att, cm_dhstate := Some dhstate\<rparr>, OK)) }"

subsection \<open>Sessions\<close>

definition client_inv :: "('hs, 'cs) client \<Rightarrow> bool" where
  "client_inv c \<longleftrightarrow> (c_tx c = None \<longleftrightarrow> c_rx c = None) \<and> (c_hs c = None \<longleftrightarrow> c_tx c \<noteq> None)"

definition clients_inv :: "('dh, 'hs, 'cs) client_manager \<Rightarrow> bool" where
  "clients_inv cm \<longleftrightarrow> om_inv (cm_clients cm) \<and> (\<forall>(i, c) \<in> set (cm_clients cm). c_id c = i \<and> i < cm_id_gen cm \<and> client_inv c)"

datatype client_op = CL_New seed bytes | CL_Finish nat bytes | CL_Decrypt nat bytes | CL_Encrypt nat bytes | CL_Remove nat
  | CL_Refresh raft_group_config | CL_Rotate seed raft_group_config

definition on_client :: "nat \<Rightarrow> (('hs, 'cs) client \<Rightarrow> ('hs, 'cs) client option) \<Rightarrow> ('dh, 'hs, 'cs) client_manager \<Rightarrow> ('dh, 'hs, 'cs) client_manager option" where
  "on_client i f cm = (case GetClient i cm of None \<Rightarrow> Some cm | Some c \<Rightarrow> map_option (\<lambda>c. put_client c cm) (f c))"

fun client_step ::
  "('dh, 'hs, 'cs) noise_c \<Rightarrow> host_env \<Rightarrow> (bytes \<Rightarrow> 'r option) \<Rightarrow> client_op \<Rightarrow> ('dh, 'hs, 'cs) client_manager \<Rightarrow> ('dh, 'hs, 'cs) client_manager option" where
  "client_step N E parse (CL_New seed aid) cm = map_option fst (NewClient N seed aid cm)"
| "client_step N E parse (CL_Finish i data) cm = on_client i (\<lambda>c. Some (fst (FinishHandshake N data c))) cm"
| "client_step N E parse (CL_Decrypt i data) cm = on_client i (\<lambda>c. map_option fst (DecryptRequest N parse data c)) cm"
| "client_step N E parse (CL_Encrypt i resp) cm = on_client i (\<lambda>c. map_option fst (EncryptResponse N Some resp c)) cm"
| "client_step N E parse (CL_Remove i) cm = Some (fst (RemoveClient i cm))"
| "client_step N E parse (CL_Refresh cfg) cm = map_option fst (ClientManager_RefreshAttestation N E cfg cm)"
| "client_step N E parse (CL_Rotate seed cfg) cm = Some (fst (RotateKeyAndRefreshAttestation N E seed cfg cm))"

fun run_clients ::
  "('dh, 'hs, 'cs) noise_c \<Rightarrow> host_env \<Rightarrow> (bytes \<Rightarrow> 'r option) \<Rightarrow> client_op list \<Rightarrow> ('dh, 'hs, 'cs) client_manager \<Rightarrow> ('dh, 'hs, 'cs) client_manager option" where
  "run_clients N E parse [] cm = Some cm"
| "run_clients N E parse (op # ops) cm = do { cm \<leftarrow> client_step N E parse op cm; run_clients N E parse ops cm }"

definition is_new :: "client_op \<Rightarrow> bool" where
  "is_new op = (case op of CL_New _ _ \<Rightarrow> True | _ \<Rightarrow> False)"

lemma put_client_inv:
  assumes "clients_inv cm" "c_id c < cm_id_gen cm" "client_inv c"
  shows "clients_inv (put_client c cm)"
  using assms om_put_snd [of _ "c_id c" c "cm_clients cm"] by (fastforce simp: clients_inv_def put_client_def om_inv_put)

lemma GetClient_inv: "clients_inv cm \<Longrightarrow> GetClient i cm = Some c \<Longrightarrow> c_id c = i \<and> i < cm_id_gen cm \<and> client_inv c"
  by (auto simp: clients_inv_def GetClient_def dest!: map_of_SomeD)

lemma on_client_inv:
  assumes "clients_inv cm" "on_client i f cm = Some cm'" "\<And>c c'. client_inv c \<Longrightarrow> f c = Some c' \<Longrightarrow> c_id c' = c_id c \<and> client_inv c'"
  shows "clients_inv cm' \<and> cm_id_gen cm' = cm_id_gen cm"
proof (cases "GetClient i cm")
  case (Some c)
  then obtain c' where c': "f c = Some c'" "cm' = put_client c' cm" using assms(2) by (auto simp: on_client_def)
  have "c_id c' < cm_id_gen cm \<and> client_inv c'" using GetClient_inv [OF assms(1) Some] assms(3) [OF _ c'(1)] by auto
  then show ?thesis using put_client_inv [OF assms(1)] c'(2) by (simp add: put_client_def)
qed (use assms in \<open>simp add: on_client_def\<close>)

lemma FinishHandshake_inv:
  "client_inv c \<Longrightarrow> c_id (fst (FinishHandshake N data c)) = c_id c \<and> client_inv (fst (FinishHandshake N data c))"
  by (auto simp: FinishHandshake_def client_inv_def Let_def split: option.splits if_splits prod.splits)

lemma DecryptRequest_inv: "client_inv c \<Longrightarrow> DecryptRequest N parse data c = Some (c', r, err) \<Longrightarrow> c_id c' = c_id c \<and> client_inv c'"
  by (auto simp: DecryptRequest_def client_inv_def Let_def split: option.splits if_splits bind_splits)

lemma EncryptResponse_inv: "client_inv c \<Longrightarrow> EncryptResponse N ser resp c = Some (c', b, err) \<Longrightarrow> c_id c' = c_id c \<and> client_inv c'"
  by (auto simp: EncryptResponse_def client_inv_def split: option.splits if_splits bind_splits)

lemma Client_Init_OK:
  "Client_Init N seed dh att c = (c', OK) \<Longrightarrow> \<exists>hs. c_hs c' = Some hs \<and> c_tx c' = c_tx c \<and> c_rx c' = c_rx c \<and> c_id c' = c_id c \<and>
     c_authenticated_id c' = c_authenticated_id c"
  by (auto simp: Client_Init_def split: option.splits)

lemma NewClient_cases:
  assumes "NewClient N seed aid cm = Some (cm', r, err)"
  shows "err \<noteq> OK \<and> r = None \<and> cm' = cm\<lparr>cm_id_gen := u64_add (cm_id_gen cm) 1\<rparr> \<or>
    err = OK \<and> (\<exists>c hs. r = Some c \<and> cm' = put_client c (cm\<lparr>cm_id_gen := u64_add (cm_id_gen cm) 1\<rparr>) \<and>
      c_hs c = Some hs \<and> c_tx c = None \<and> c_rx c = None \<and> c_id c = cm_id_gen cm \<and> c_authenticated_id c = aid)"
proof -
  obtain dh att c e where i: "Client_Init N seed dh att (Client_new aid (cm_id_gen cm)) = (c, e)"
    and r: "(if e \<noteq> OK then Some (cm\<lparr>cm_id_gen := u64_add (cm_id_gen cm) 1\<rparr>, None, e)
      else Some (put_client c (cm\<lparr>cm_id_gen := u64_add (cm_id_gen cm) 1\<rparr>), Some c, OK)) = Some (cm', r, err)"
    using assms by (auto simp: NewClient_def Let_def simp del: One_nat_def split: bind_splits prod.splits)
  show ?thesis
  proof (cases "e = OK")
    case True
    then show ?thesis using Client_Init_OK [OF i [unfolded True]] r by (auto simp: Client_new_def)
  qed (use r in auto)
qed

lemma clients_inv_gen: "clients_inv cm \<Longrightarrow> cm_id_gen cm \<le> g \<Longrightarrow> clients_inv (cm\<lparr>cm_id_gen := g\<rparr>)"
  by (auto simp: clients_inv_def)

lemma client_step_inv:
  assumes inv: "clients_inv cm" and s: "client_step N E parse op cm = Some cm'" and g: "cm_id_gen cm + 1 < 2 ^ 64"
  shows "clients_inv cm' \<and> cm_id_gen cm' = cm_id_gen cm + (if is_new op then 1 else 0)"
proof (cases op)
  case (CL_New seed aid)
  then obtain r err where n: "NewClient N seed aid cm = Some (cm', r, err)" using s by auto
  have "clients_inv (cm\<lparr>cm_id_gen := cm_id_gen cm + 1\<rparr>)" using clients_inv_gen [OF inv] by simp
  then show ?thesis using NewClient_cases [OF n] g CL_New
    by (auto simp: u64_add_exact is_new_def client_inv_def intro!: put_client_inv) (simp_all add: put_client_def)
next
  case (CL_Remove i)
  then have "set (cm_clients cm') \<subseteq> set (cm_clients cm)" "om_inv (cm_clients cm')" "cm_id_gen cm' = cm_id_gen cm"
    using s inv set_om_del [of i "cm_clients cm"] by (auto simp: RemoveClient_def clients_inv_def om_inv_del split: option.splits)
  then show ?thesis using inv CL_Remove by (auto simp: clients_inv_def is_new_def)
next
  case (CL_Refresh cfg)
  then show ?thesis using s inv
    by (auto simp: ClientManager_RefreshAttestation_def Let_def clients_inv_def is_new_def split: bind_splits prod.splits if_splits)
next
  case (CL_Rotate seed cfg)
  then show ?thesis using s inv
    by (auto simp: RotateKeyAndRefreshAttestation_def Let_def clients_inv_def is_new_def split: prod.splits if_splits)
next
  case (CL_Finish i data)
  then have "on_client i (\<lambda>c. Some (fst (FinishHandshake N data c))) cm = Some cm'" using s by simp
  then have "clients_inv cm' \<and> cm_id_gen cm' = cm_id_gen cm" by (rule on_client_inv [OF inv]) (auto simp: FinishHandshake_inv)
  then show ?thesis using CL_Finish by (simp add: is_new_def)
next
  case (CL_Decrypt i data)
  then have "on_client i (\<lambda>c. map_option fst (DecryptRequest N parse data c)) cm = Some cm'" using s by simp
  then have "clients_inv cm' \<and> cm_id_gen cm' = cm_id_gen cm" by (rule on_client_inv [OF inv]) (auto dest: DecryptRequest_inv)
  then show ?thesis using CL_Decrypt by (simp add: is_new_def)
next
  case (CL_Encrypt i data)
  then have "on_client i (\<lambda>c. map_option fst (EncryptResponse N Some data c)) cm = Some cm'" using s by simp
  then have "clients_inv cm' \<and> cm_id_gen cm' = cm_id_gen cm" by (rule on_client_inv [OF inv]) (auto dest: EncryptResponse_inv)
  then show ?thesis using CL_Encrypt by (simp add: is_new_def)
qed

lemma run_clients_inv:
  "run_clients N E parse ops cm = Some cm' \<Longrightarrow> clients_inv cm \<Longrightarrow> cm_id_gen cm + length (filter is_new ops) + 1 < 2 ^ 64 \<Longrightarrow>
     clients_inv cm' \<and> cm_id_gen cm' = cm_id_gen cm + length (filter is_new ops)"
proof (induction ops arbitrary: cm)
  case (Cons op ops)
  from Cons.prems(1) obtain cm1 where s: "client_step N E parse op cm = Some cm1" "run_clients N E parse ops cm1 = Some cm'"
    by (auto split: bind_splits)
  have "cm_id_gen cm + 1 < 2 ^ 64" using Cons.prems(3) by simp
  from client_step_inv [OF Cons.prems(2) s(1) this]
  have "clients_inv cm1" "cm_id_gen cm1 = cm_id_gen cm + (if is_new op then 1 else 0)" by auto
  then show ?case using Cons.IH [OF s(2)] Cons.prems(3) by auto
qed simp



end
