(* ===== verification/Timeouts.thy ===== *)
theory Timeouts
  imports OrdMap
begin

text \<open>
  src/enclave/timeout: functions that run once, a number of timer ticks from now, unless they are cancelled.  The
  scheduled functions are values of a type parameter; \<^verbatim>\<open>TimerTick\<close> returns the set of functions that it runs, and the
  timeouts that these functions set in turn are later operations.  The two \<^verbatim>\<open>unordered_map\<close>s are ordered maps: their
  order only decides the order in which the functions of one tick run.  Ticks and identifiers are \<^verbatim>\<open>int64_t\<close>; a failed
  CHECK and signed overflow are \<^term>\<open>None\<close>.
\<close>

definition int64_ok :: "int \<Rightarrow> bool" where
  "int64_ok x = (- (2 ^ 63) \<le> x \<and> x < 2 ^ 63)"

record cancel =
  at_tick :: int
  cancel_id :: int

record 'f timeout =
  to_ticks :: int
  to_cancel_gen :: int
  to_timeouts :: "(int, (int, 'f) omap) omap"

definition Timeout_new :: "'f timeout" where
  "Timeout_new = \<lparr>to_ticks = 0, to_cancel_gen = 0, to_timeouts = []\<rparr>"

definition Timeout_TimerTick :: "'f timeout \<Rightarrow> ('f timeout \<times> (int, 'f) omap) option" where
  "Timeout_TimerTick t =
     (let now = to_ticks t + 1; t = t\<lparr>to_ticks := now\<rparr> in
      if \<not> int64_ok now then None
      else case map_of (to_timeouts t) now of
          None \<Rightarrow> Some (t, [])
        | Some ts \<Rightarrow> Some (t\<lparr>to_timeouts := om_del now (to_timeouts t)\<rparr>, ts))"

definition SetTimeout :: "'f timeout \<Rightarrow> int \<Rightarrow> 'f \<Rightarrow> ('f timeout \<times> cancel) option" where
  "SetTimeout t ticks_from_now fn =
     (let at_t = ticks_from_now + to_ticks t; gen = to_cancel_gen t + 1 in
      if \<not> int64_ok at_t \<or> \<not> at_t > to_ticks t \<or> \<not> int64_ok gen then None
      else
        let ts = (case map_of (to_timeouts t) at_t of None \<Rightarrow> [] | Some ts \<Rightarrow> ts) in
        Some (t\<lparr>to_cancel_gen := gen, to_timeouts := om_put at_t (om_put gen fn ts) (to_timeouts t)\<rparr>,
              \<lparr>at_tick = at_t, cancel_id = gen\<rparr>))"

definition CancelTimeout :: "'f timeout \<Rightarrow> cancel \<Rightarrow> 'f timeout" where
  "CancelTimeout t tc =
     (case map_of (to_timeouts t) (at_tick tc) of
        None \<Rightarrow> t
      | Some ts \<Rightarrow>
          (case map_of ts (cancel_id tc) of
             None \<Rightarrow> t
           | Some fn \<Rightarrow> t\<lparr>to_timeouts := om_put (at_tick tc) (om_del (cancel_id tc) ts) (to_timeouts t)\<rparr>))"

subsection \<open>Sequences of operations\<close>

datatype 'f timeout_op = is_Tick: Tick | Set_timeout int 'f | Cancel_timeout cancel

fun run_timeouts :: "'f timeout \<Rightarrow> 'f timeout_op list \<Rightarrow> ('f timeout \<times> (int \<times> int \<times> 'f) list) option" where
  "run_timeouts t [] = Some (t, [])"
| "run_timeouts t (Tick # ops) =
     do { (t1, ts) \<leftarrow> Timeout_TimerTick t;
          (t2, fired) \<leftarrow> run_timeouts t1 ops;
          Some (t2, map (Pair (to_ticks t1)) ts @ fired) }"
| "run_timeouts t (Set_timeout n f # ops) = do { (t1, c) \<leftarrow> SetTimeout t n f; run_timeouts t1 ops }"
| "run_timeouts t (Cancel_timeout c # ops) = run_timeouts (CancelTimeout t c) ops"

definition timeout_inv :: "'f timeout \<Rightarrow> bool" where
  "timeout_inv t = (om_inv (to_timeouts t) \<and> (\<forall>(n, ts) \<in> set (to_timeouts t). to_ticks t < n \<and> om_inv ts))"

definition scheduled :: "'f timeout \<Rightarrow> cancel \<Rightarrow> 'f option" where
  "scheduled t c = Option.bind (map_of (to_timeouts t) (at_tick c)) (\<lambda>ts. map_of ts (cancel_id c))"

lemma timeout_inv_new: "timeout_inv Timeout_new"
  by (simp add: timeout_inv_def Timeout_new_def)

lemma timeout_inv_lookup:
  "timeout_inv t \<Longrightarrow> map_of (to_timeouts t) n = Some ts \<Longrightarrow> to_ticks t < n \<and> om_inv ts"
  by (auto simp: timeout_inv_def dest!: map_of_SomeD)

lemma timeout_inv_put:
  assumes "timeout_inv t" "to_ticks t < n" "om_inv ts"
  shows "timeout_inv (t\<lparr>to_timeouts := om_put n ts (to_timeouts t)\<rparr>)"
  using assms om_put_snd [of _ n ts "to_timeouts t"] by (fastforce simp: timeout_inv_def om_inv_put)

lemma SetTimeout_step:
  assumes inv: "timeout_inv t" and s: "SetTimeout t n f = Some (t1, c)"
  shows "timeout_inv t1" "to_ticks t1 = to_ticks t" "at_tick c = to_ticks t + n" "0 < n"
    "to_cancel_gen t1 = to_cancel_gen t + 1" "cancel_id c = to_cancel_gen t1"
    "scheduled t1 d = (if d = c then Some f else scheduled t d)"
proof -
  define ts where "ts = (case map_of (to_timeouts t) (n + to_ticks t) of None \<Rightarrow> [] | Some ts \<Rightarrow> ts)"
  have n: "0 < n"
    and t1: "t1 = t\<lparr>to_timeouts := om_put (n + to_ticks t) (om_put (to_cancel_gen t + 1) f ts) (to_timeouts t)\<rparr>\<lparr>to_cancel_gen := to_cancel_gen t + 1\<rparr>"
    and c: "c = \<lparr>at_tick = n + to_ticks t, cancel_id = to_cancel_gen t + 1\<rparr>"
    using s by (auto simp: SetTimeout_def Let_def ts_def split: if_splits)
  have ts: "om_inv ts" using inv timeout_inv_lookup by (auto simp: ts_def split: option.splits)
  have "timeout_inv (t\<lparr>to_timeouts := om_put (n + to_ticks t) (om_put (to_cancel_gen t + 1) f ts) (to_timeouts t)\<rparr>)"
    using inv n ts by (intro timeout_inv_put) (auto simp: om_inv_put)
  then show "timeout_inv t1" by (simp add: t1 timeout_inv_def)
  show "to_ticks t1 = to_ticks t" "at_tick c = to_ticks t + n" "0 < n"
    "to_cancel_gen t1 = to_cancel_gen t + 1" "cancel_id c = to_cancel_gen t1"
    using n by (simp_all add: t1 c)
  show "scheduled t1 d = (if d = c then Some f else scheduled t d)"
    using inv ts by (cases d) (auto simp: scheduled_def t1 c map_of_om_put timeout_inv_def ts_def split: option.splits)
qed

lemma CancelTimeout_step:
  assumes inv: "timeout_inv t"
  shows "timeout_inv (CancelTimeout t c)" "to_ticks (CancelTimeout t c) = to_ticks t"
    "to_cancel_gen (CancelTimeout t c) = to_cancel_gen t"
    "scheduled (CancelTimeout t c) d = (if d = c then None else scheduled t d)"
proof -
  show "timeout_inv (CancelTimeout t c)"
    using inv timeout_inv_lookup [OF inv, of "at_tick c"]
    by (auto simp: CancelTimeout_def timeout_inv_put om_inv_del split: option.splits)
  show "to_ticks (CancelTimeout t c) = to_ticks t" "to_cancel_gen (CancelTimeout t c) = to_cancel_gen t"
    by (simp_all add: CancelTimeout_def split: option.splits)
  show "scheduled (CancelTimeout t c) d = (if d = c then None else scheduled t d)"
    using inv timeout_inv_lookup [OF inv, of "at_tick c"]
    by (cases c, cases d) (auto simp: CancelTimeout_def scheduled_def map_of_om_put map_of_om_del timeout_inv_def split: option.splits)
qed

lemma TimerTick_step:
  assumes inv: "timeout_inv t" and s: "Timeout_TimerTick t = Some (t1, ts)"
  shows "timeout_inv t1" "to_ticks t1 = to_ticks t + 1" "to_cancel_gen t1 = to_cancel_gen t" "om_inv ts"
    "scheduled t1 d = (if at_tick d = to_ticks t1 then None else scheduled t d)"
    "at_tick d = to_ticks t1 \<Longrightarrow> map_of ts (cancel_id d) = scheduled t d"
proof -
  have om: "om_inv (to_timeouts t)" using inv by (simp add: timeout_inv_def)
  have t1: "to_ticks t1 = to_ticks t + 1" "to_cancel_gen t1 = to_cancel_gen t"
    "map_of (to_timeouts t1) = (map_of (to_timeouts t))(to_ticks t + 1 := None)"
    "om_inv (to_timeouts t1)" "set (to_timeouts t1) \<subseteq> set (to_timeouts t)"
    and ts: "map_of (to_timeouts t) (to_ticks t + 1) = Some ts \<or> map_of (to_timeouts t) (to_ticks t + 1) = None \<and> ts = []"
    using s om subsetD [OF set_om_del [of "to_ticks t + 1" "to_timeouts t"]]
    by (auto simp: Timeout_TimerTick_def Let_def map_of_om_del om_inv_del fun_eq_iff split: if_splits option.splits)
  show "to_ticks t1 = to_ticks t + 1" "to_cancel_gen t1 = to_cancel_gen t" by (fact t1)+
  show "om_inv ts" using ts timeout_inv_lookup [OF inv] by auto
  have "to_ticks t1 < n \<and> om_inv us" if x: "(n, us) \<in> set (to_timeouts t1)" for n us
  proof -
    have "map_of (to_timeouts t1) n = Some us" using x t1(4) by (simp add: om_inv_distinct)
    then have "n \<noteq> to_ticks t + 1" "map_of (to_timeouts t) n = Some us" using t1(3) by (auto split: if_splits)
    then show ?thesis using timeout_inv_lookup [OF inv] t1(1) by fastforce
  qed
  then show "timeout_inv t1" using t1(4) by (auto simp: timeout_inv_def)
  show "scheduled t1 d = (if at_tick d = to_ticks t1 then None else scheduled t d)"
    using t1 by (simp add: scheduled_def)
  show "map_of ts (cancel_id d) = scheduled t d" if "at_tick d = to_ticks t1"
    using that t1(1) ts by (auto simp: scheduled_def)
qed

definition ticks_in :: "'f timeout_op list \<Rightarrow> int" where
  "ticks_in ops = int (length (filter is_Tick ops))"

lemma run_timeouts_bounds:
  assumes "run_timeouts t ops = Some (t', fired)" "timeout_inv t"
  shows "timeout_inv t' \<and> to_cancel_gen t \<le> to_cancel_gen t' \<and> to_ticks t' = to_ticks t + ticks_in ops \<and>
    (\<forall>x \<in> set fired. fst x \<le> to_ticks t')"
  using assms
proof (induction t ops arbitrary: t' fired rule: run_timeouts.induct)
  case (2 t ops)
  from 2(2) obtain t1 ts rest where s: "Timeout_TimerTick t = Some (t1, ts)" "run_timeouts t1 ops = Some (t', rest)"
    and f: "fired = map (Pair (to_ticks t1)) ts @ rest" by (auto split: bind_splits)
  note step = TimerTick_step [OF 2(3) s(1)]
  note ih = 2(1) [OF s(1) refl s(2) step(1)]
  have "to_ticks t' = to_ticks t + ticks_in (Tick # ops)" using ih step(2) by (simp add: ticks_in_def)
  moreover have "to_ticks t1 \<le> to_ticks t'" using ih by (simp add: ticks_in_def)
  then have "\<forall>x \<in> set fired. fst x \<le> to_ticks t'" using ih unfolding f by fastforce
  ultimately show ?case using ih step(3) by metis
next
  case (3 t n f ops)
  from 3(2) obtain t1 c where s: "SetTimeout t n f = Some (t1, c)" "run_timeouts t1 ops = Some (t', fired)" by (auto split: bind_splits)
  note step = SetTimeout_step [OF 3(3) s(1)]
  note ih = 3(1) [OF s(1) refl s(2) step(1)]
  have "to_ticks t' = to_ticks t + ticks_in (Set_timeout n f # ops)" using ih step(2) by (simp add: ticks_in_def)
  moreover have "to_cancel_gen t \<le> to_cancel_gen t'" using ih step(5) by linarith
  ultimately show ?case using ih by blast
next
  case (4 t c ops)
  note step = CancelTimeout_step [OF 4(3), of c]
  note ih = 4(1) [OF 4(2) [unfolded run_timeouts.simps] step(1)]
  have "to_ticks t' = to_ticks t + ticks_in (Cancel_timeout c # ops)" using ih step(2) by (simp add: ticks_in_def)
  then show ?case using ih step(3) by metis
qed (simp add: ticks_in_def)

lemma gone_never_fires:
  assumes "run_timeouts t ops = Some (t', fired)" "timeout_inv t" "scheduled t c = None" "cancel_id c \<le> to_cancel_gen t"
  shows "(at_tick c, cancel_id c, g) \<notin> set fired"
  using assms
proof (induction t ops arbitrary: t' fired rule: run_timeouts.induct)
  case (2 t ops)
  from 2(2) obtain t1 ts rest where s: "Timeout_TimerTick t = Some (t1, ts)" "run_timeouts t1 ops = Some (t', rest)"
    and f: "fired = map (Pair (to_ticks t1)) ts @ rest" by (auto split: bind_splits)
  note step = TimerTick_step [OF 2(3) s(1)]
  have "(cancel_id c, g) \<notin> set ts" if "at_tick c = to_ticks t1"
    using step(6) [OF that] 2(4) om_inv_distinct [OF step(4)] by (metis map_of_eq_Some_iff option.distinct(1))
  then show ?case using 2(1) [OF s(1) refl s(2)] step(1,3) step(5) [of c] 2(4,5) f by auto
next
  case (3 t n f ops)
  from 3(2) obtain t1 d where s: "SetTimeout t n f = Some (t1, d)" "run_timeouts t1 ops = Some (t', fired)" by (auto split: bind_splits)
  note step = SetTimeout_step [OF 3(3) s(1)]
  have "c \<noteq> d" using step(5,6) 3(5) by auto
  then show ?case using 3(1) [OF s(1) refl s(2) step(1)] step(7) [of c] step(5) 3(4,5) by simp
next
  case (4 t d ops)
  then show ?case using CancelTimeout_step [OF 4(3), of d] by simp
qed simp

lemma count_list_distinct: "distinct xs \<Longrightarrow> count_list xs x = (if x \<in> set xs then 1 else 0)"
  by (induction xs) auto

lemma pending_fires_once:
  assumes "run_timeouts t ops = Some (t', fired)" "timeout_inv t" "scheduled t c = Some f" "cancel_id c \<le> to_cancel_gen t"
    "Cancel_timeout c \<notin> set ops"
  shows "count_list fired (at_tick c, cancel_id c, f) = (if at_tick c \<le> to_ticks t' then 1 else 0)"
  using assms
proof (induction t ops arbitrary: t' fired rule: run_timeouts.induct)
  case (1 t)
  then obtain ts where "map_of (to_timeouts t) (at_tick c) = Some ts" by (auto simp: scheduled_def split: bind_splits)
  then show ?case using 1 timeout_inv_lookup [OF 1(2)] by fastforce
next
  case (2 t ops)
  from 2(2) obtain t1 ts rest where s: "Timeout_TimerTick t = Some (t1, ts)" "run_timeouts t1 ops = Some (t', rest)"
    and fd: "fired = map (Pair (to_ticks t1)) ts @ rest" by (auto split: bind_splits)
  note step = TimerTick_step [OF 2(3) s(1)]
  have inj: "count_list (map (Pair n) ts) (m, i, f) = (if n = m then count_list ts (i, f) else 0)" for n m :: int and i
    by (induction ts) auto
  show ?case
  proof (cases "at_tick c = to_ticks t1")
    case True
    then have "(cancel_id c, f) \<in> set ts" using step(6) [OF True] 2(4) map_of_SomeD by fastforce
    moreover have "distinct ts" using om_inv_distinct [OF step(4)] by (simp add: distinct_map)
    ultimately have "count_list ts (cancel_id c, f) = 1" by (simp add: count_list_distinct)
    moreover have "(at_tick c, cancel_id c, f) \<notin> set rest"
      by (rule gone_never_fires [OF s(2) step(1)]) (use step(3) step(5) [of c] True 2(5) in simp_all)
    moreover have "at_tick c \<le> to_ticks t'" using run_timeouts_bounds [OF s(2) step(1)] True by (simp add: ticks_in_def)
    ultimately show ?thesis by (simp add: fd inj True count_list_0_iff)
  next
    case False
    then show ?thesis using 2(1) [OF s(1) refl s(2) step(1)] step(3) step(5) [of c] 2(4-6) by (simp add: fd inj)
  qed
next
  case (3 t n g ops)
  from 3(2) obtain t1 d where s: "SetTimeout t n g = Some (t1, d)" "run_timeouts t1 ops = Some (t', fired)" by (auto split: bind_splits)
  note step = SetTimeout_step [OF 3(3) s(1)]
  have "c \<noteq> d" using step(5,6) 3(5) by auto
  then show ?case using 3(1) [OF s(1) refl s(2) step(1)] step(7) [of c] step(5) 3(4-6) by simp
next
  case (4 t d ops)
  then show ?case using CancelTimeout_step [OF 4(3), of d] by simp
qed

lemma run_timeouts_append:
  "run_timeouts t (as @ bs) =
     do { (t1, x) \<leftarrow> run_timeouts t as; (t2, y) \<leftarrow> run_timeouts t1 bs; Some (t2, x @ y) }"
  by (induction t as rule: run_timeouts.induct) (auto split: bind_splits)



end
