(* ===== verification/GroupClock.thy ===== *)
theory GroupClock
  imports OrdMap PeerID
begin

text \<open>
  src/enclave/groupclock: the clock of a replica group, the median of the local time and of the times that the peers
  report.  \<^verbatim>\<open>GetTime\<close> walks the requested set and the map of reports in step, since both are ordered by peer.
\<close>

record clock =
  clk_local :: int
  clk_remotes :: "(peer_id, int) omap"

definition Clock_new :: clock where
  "Clock_new = \<lparr>clk_local = 0, clk_remotes = []\<rparr>"

definition SetLocalTime :: "clock \<Rightarrow> int \<Rightarrow> clock" where
  "SetLocalTime c secs = c\<lparr>clk_local := secs\<rparr>"

definition SetRemoteTime :: "clock \<Rightarrow> peer_id \<Rightarrow> int \<Rightarrow> clock" where
  "SetRemoteTime c peer secs = c\<lparr>clk_remotes := om_put peer secs (clk_remotes c)\<rparr>"

fun merge_secs :: "peer_id list \<Rightarrow> (peer_id, int) omap \<Rightarrow> int list" where
  "merge_secs [] m = []"
| "merge_secs (p # ps) [] = []"
| "merge_secs (set_peer # ps) ((map_peer, secs) # m) =
     (if set_peer < map_peer then merge_secs ps ((map_peer, secs) # m)
      else if map_peer < set_peer then merge_secs (set_peer # ps) m
      else secs # merge_secs ps m)"

definition GetTime :: "clock \<Rightarrow> peer_id list \<Rightarrow> int" where
  "GetTime c remotes =
     (let secs = sort (clk_local c # merge_secs remotes (clk_remotes c)) in secs ! (length secs div 2))"

definition GetLocalTime :: "clock \<Rightarrow> int" where
  "GetLocalTime c = clk_local c"

subsection \<open>The readings and their median\<close>

definition clock_inv :: "clock \<Rightarrow> bool" where
  "clock_inv c = om_inv (clk_remotes c)"

definition readings :: "clock \<Rightarrow> peer_id list \<Rightarrow> int list" where
  "readings c remotes = clk_local c # List.map_filter (map_of (clk_remotes c)) remotes"

lemma clock_inv_ops [inv_intros]:
  "clock_inv Clock_new"
  "clock_inv c \<Longrightarrow> clock_inv (SetLocalTime c secs)"
  "clock_inv c \<Longrightarrow> clock_inv (SetRemoteTime c peer secs)"
  by (simp_all add: clock_inv_def Clock_new_def SetLocalTime_def SetRemoteTime_def om_inv_put)

lemma map_filter_cong: "(\<And>x. x \<in> set xs \<Longrightarrow> f x = g x) \<Longrightarrow> List.map_filter f xs = List.map_filter g xs"
  by (induction xs) (auto simp: List.map_filter_simps split: option.splits)

lemma merge_secs_eq:
  "os_inv ps \<Longrightarrow> om_inv m \<Longrightarrow> merge_secs ps m = List.map_filter (map_of m) ps"
proof (induction ps m rule: merge_secs.induct)
  case (2 p ps)
  show ?case by (induction ps) (simp_all add: List.map_filter_simps)
next
  case (3 sp ps mp s m)
  have ps: "\<forall>k \<in> set ps. sp < k" "os_inv ps" using 3(4) by (simp_all add: os_inv_def)
  have m: "\<forall>k \<in> fst ` set m. mp < k" "om_inv m" using 3(5) by (simp_all add: om_inv_Cons)
  consider "sp < mp" | "mp < sp" | "sp = mp" by fastforce
  then show ?case
  proof cases
    case 1
    then have "sp \<notin> fst ` set m" using m(1) by fastforce
    then have "map_of ((mp, s) # m) sp = None" using 1 by (simp add: map_of_eq_None_iff)
    then show ?thesis using 1 3(1) [OF 1 ps(2) 3(5)] by (simp add: List.map_filter_simps del: map_of.simps)
  next
    case 2
    then have "List.map_filter (map_of ((mp, s) # m)) (sp # ps) = List.map_filter (map_of m) (sp # ps)"
      using ps(1) by (intro map_filter_cong) fastforce
    moreover have "\<not> sp < mp" using 2 by simp
    ultimately show ?thesis using 2 3(2) [OF _ 2 3(4) m(2)] by (simp only: merge_secs.simps if_False if_True not_False_eq_True simp_thms)
  next
    case eq: 3
    then have "List.map_filter (map_of ((mp, s) # m)) ps = List.map_filter (map_of m) ps"
      using ps(1) by (intro map_filter_cong) fastforce
    moreover have "merge_secs ps m = List.map_filter (map_of m) ps" using eq by (intro 3(3) ps(2) m(2)) simp_all
    ultimately show ?thesis using eq by (simp add: List.map_filter_simps fun_upd_def)
  qed
qed (simp add: List.map_filter_simps)

lemma length_filter_indices:
  assumes "\<And>i. i \<in> I \<Longrightarrow> i < length xs \<and> P (xs ! i)"
  shows "card I \<le> length (filter P xs)"
  unfolding length_filter_conv_card by (rule card_mono) (use assms in auto)

lemma sorted_median_bounds:
  fixes xs :: "int list"
  assumes s: "sorted xs" and maj: "length xs < 2 * length (filter (\<lambda>x. lo \<le> x \<and> x \<le> hi) xs)"
  shows "lo \<le> xs ! (length xs div 2) \<and> xs ! (length xs div 2) \<le> hi"
proof -
  let ?n = "length xs" and ?m = "length xs div 2" and ?in = "\<lambda>x. lo \<le> x \<and> x \<le> hi"
  have n: "?m < ?n" using maj by (cases xs) auto
  have sum: "length (filter P xs) + length (filter ?in xs) \<le> ?n" if "\<And>x. P x \<Longrightarrow> \<not> ?in x" for P
  proof -
    have "length (filter P xs) \<le> length (filter (\<lambda>x. \<not> ?in x) xs)"
      using that by (induction xs) auto
    then show ?thesis using sum_length_filter_compl [of ?in xs] by simp
  qed
  have "lo \<le> xs ! ?m"
  proof (rule ccontr)
    assume "\<not> lo \<le> xs ! ?m"
    then have "card {..?m} \<le> length (filter (\<lambda>x. x < lo) xs)"
      using sorted_nth_mono [OF s, of _ ?m] n by (intro length_filter_indices) fastforce
    then show False using sum [of "\<lambda>x. x < lo"] maj by simp
  qed
  moreover have "xs ! ?m \<le> hi"
  proof (rule ccontr)
    assume "\<not> xs ! ?m \<le> hi"
    then have "card {?m..<?n} \<le> length (filter (\<lambda>x. hi < x) xs)"
      using sorted_nth_mono [OF s, of ?m] by (intro length_filter_indices) fastforce
    then show False using sum [of "\<lambda>x. hi < x"] maj by simp
  qed
  ultimately show ?thesis ..
qed

text \<open>C25: the group clock resists a minority.  When more than half of the readings (the local time and the reports of the requested
  peers) lie in an interval, so does the time that \<^verbatim>\<open>GetTime\<close> returns, whatever the other peers report.\<close>

theorem group_clock_follows_majority:
  assumes "clock_inv c" "os_inv remotes"
    and "length (readings c remotes) < 2 * length (filter (\<lambda>x. lo \<le> x \<and> x \<le> hi) (readings c remotes))"
  shows "lo \<le> GetTime c remotes \<and> GetTime c remotes \<le> hi"
proof -
  have r: "clk_local c # merge_secs remotes (clk_remotes c) = readings c remotes"
    using assms(1,2) by (simp add: readings_def merge_secs_eq clock_inv_def)
  have "length (sort (readings c remotes)) < 2 * length (filter (\<lambda>x. lo \<le> x \<and> x \<le> hi) (sort (readings c remotes)))"
    using assms(3) by (simp add: filter_sort)
  from sorted_median_bounds [OF _ this] show ?thesis unfolding GetTime_def Let_def r by simp
qed

theorem group_clock_follows_majority_witness:
  "100 \<le> GetTime (SetRemoteTime (SetRemoteTime (SetLocalTime Clock_new 100) [1] 105) [2] 9999) [[1], [2]] \<and>
   GetTime (SetRemoteTime (SetRemoteTime (SetLocalTime Clock_new 100) [1] 105) [2] 9999) [[1], [2]] \<le> 105"
  by (rule group_clock_follows_majority) code_simp+

end
