(* ===== verification/CoreState.thy ===== *)
theory CoreState
  imports RaftRecv Database Clients Timeouts GroupClock
begin

text \<open>
  src/enclave/core: the state of a \<^verbatim>\<open>Core\<close>, the configuration it checks, and the elementary steps on its parts.
  All operations of the core take and return the whole state and are \<^term>\<open>None\<close> where a CHECK fails or a null pointer is
  followed; operations with a result return it first.  The locks make every message from the host one step.

  The messages that are handed to the host are collected in \<open>k_sent\<close>.  The Merkle tree that Raft and the database share is \<open>k_tree\<close>.  A
  \<^verbatim>\<open>std::function\<close> is a constructor of the datatype of the callbacks that the source creates, with the values it captures.  Draws of
  randomness are numbered by \<open>k_draws\<close>.  Counters, gauges and log lines are left out.
\<close>

subsection \<open>Configuration\<close>

definition RaftGroupConfigsEqualExceptForGroupID :: "raft_group_config \<Rightarrow> raft_group_config \<Rightarrow> bool" where
  "RaftGroupConfigsEqualExceptForGroupID a b =
     (gc_min_voting_replicas a = gc_min_voting_replicas b \<and>
      gc_max_voting_replicas a = gc_max_voting_replicas b \<and>
      gc_super_majority a = gc_super_majority b \<and>
      gc_db_version a = gc_db_version b \<and>
      gc_attestation_timeout a = gc_attestation_timeout b \<and>
      gc_simulated a = gc_simulated b)"

definition ValidateRaftGroupConfig :: "raft_group_config \<Rightarrow> error" where
  "ValidateRaftGroupConfig c =
     (if gc_min_voting_replicas c > gc_max_voting_replicas c then E_Core Core_RaftGroupConfigMinReplicasGreaterThanMaxReplicas
      else if gc_min_voting_replicas c < 1 then E_Core Core_RaftGroupConfigMinReplicasTooSmall
      else if gc_attestation_timeout c < 1 then E_Core Core_RaftGroupConfigAttestationTimeoutTooSmall
      else if DB_P (gc_db_version c) = None then E_Core Core_DBVersionInvalid
      else OK)"

definition DefaultEnclaveConfig :: enclave_config where
  "DefaultEnclaveConfig =
     \<lparr>ec_raft = \<lparr>cfg_election_ticks = 32, cfg_heartbeat_ticks = 15, cfg_replication_chunk_bytes = 1048576,
                 cfg_replica_voting_timeout_ticks = 60, cfg_replica_membership_timeout_ticks = 300,
                 cfg_log_max_bytes = 1073741824, cfg_replication_pipeline = 4\<rparr>,
      ec_e2e_txn_timeout_ticks = 60, ec_send_timestamp_ticks = 0\<rparr>"

text \<open>\<^verbatim>\<open>MergeFrom\<close> of proto3 scalars: a field that is not zero overrides.\<close>

definition merge_scalar :: "nat \<Rightarrow> nat \<Rightarrow> nat" where
  "merge_scalar old new = (if new = 0 then old else new)"

definition EnclaveConfig_MergeFrom :: "enclave_config \<Rightarrow> enclave_config \<Rightarrow> enclave_config" where
  "EnclaveConfig_MergeFrom a b =
     (let r = ec_raft a; s = ec_raft b in
      \<lparr>ec_raft =
         \<lparr>cfg_election_ticks = merge_scalar (cfg_election_ticks r) (cfg_election_ticks s),
          cfg_heartbeat_ticks = merge_scalar (cfg_heartbeat_ticks r) (cfg_heartbeat_ticks s),
          cfg_replication_chunk_bytes = merge_scalar (cfg_replication_chunk_bytes r) (cfg_replication_chunk_bytes s),
          cfg_replica_voting_timeout_ticks = merge_scalar (cfg_replica_voting_timeout_ticks r) (cfg_replica_voting_timeout_ticks s),
          cfg_replica_membership_timeout_ticks =
            merge_scalar (cfg_replica_membership_timeout_ticks r) (cfg_replica_membership_timeout_ticks s),
          cfg_log_max_bytes = merge_scalar (cfg_log_max_bytes r) (cfg_log_max_bytes s),
          cfg_replication_pipeline = merge_scalar (cfg_replication_pipeline r) (cfg_replication_pipeline s)\<rparr>,
       ec_e2e_txn_timeout_ticks = merge_scalar (ec_e2e_txn_timeout_ticks a) (ec_e2e_txn_timeout_ticks b),
       ec_send_timestamp_ticks = merge_scalar (ec_send_timestamp_ticks a) (ec_send_timestamp_ticks b)\<rparr>)"

definition ValidateConfig :: "enclave_config \<Rightarrow> error" where
  "ValidateConfig config =
     (let raft = ec_raft config in
      if cfg_election_ticks raft = 0 then E_Config Config_ElectionTicks
      else if cfg_heartbeat_ticks raft \<ge> cfg_election_ticks raft then E_Config Config_HeartbeatVsElectionTicks
      else if cfg_replication_chunk_bytes raft < 1024 then E_Config Config_ReplicationChunk
      else if cfg_replica_voting_timeout_ticks raft \<le> cfg_election_ticks raft then E_Config Config_ReplicaTimeout
      else if cfg_replica_membership_timeout_ticks raft \<le> cfg_replica_voting_timeout_ticks raft then E_Config Config_ReplicaTimeout
      else if cfg_log_max_bytes raft < 1024 then E_Config Config_LogMaxBytes
      else if cfg_replication_pipeline raft \<le> 0 \<or> cfg_replication_pipeline raft \<ge> 4294967295 then E_Config Config_ReplicationPipeline
      else if ec_e2e_txn_timeout_ticks config < 1 then E_Config Config_E2ETransactionTimeout
      else OK)"

definition ValidateConfigChange :: "enclave_config \<Rightarrow> enclave_config \<Rightarrow> error" where
  "ValidateConfigChange old_config new_config = ValidateConfig new_config"

definition ContainsMe :: "peer_id \<Rightarrow> replica_group \<Rightarrow> bool" where
  "ContainsMe me g = list_ex (\<lambda>r. replica_peer_id r = PeerID_ToString me) g"

subsection \<open>State (internal.h, core.h)\<close>

record waiting_for_first_connection =
  wf_peer :: peer_id
  wf_join_tx :: nat

record loading =
  ld_group_config :: raft_group_config
  ld_replica_group :: replica_group
  ld_log :: "raft_log option"
  ld_db :: "database option"
  ld_mem :: "membership option"
  ld_load_from :: peer_id
  ld_join_tx :: nat
  ld_started :: bool
  ld_replication_id :: nat
  ld_replication_sequence :: nat
  ld_largest_row :: bytes

record loaded =
  lo_group_config :: raft_group_config
  lo_raft :: "raft option"
  lo_db :: "database option"
  lo_last_applied :: nat
  lo_leaf :: "leaf_id option"

definition no_group_config :: raft_group_config where
  "no_group_config = \<lparr>gc_group_id = 0, gc_min_voting_replicas = 0, gc_max_voting_replicas = 0, gc_super_majority = 0,
     gc_db_version = DATABASE_VERSION_UNKNOWN, gc_attestation_timeout = 0, gc_simulated = False\<rparr>"

definition no_waiting :: waiting_for_first_connection where
  "no_waiting = \<lparr>wf_peer = zero_id, wf_join_tx = 0\<rparr>"

definition no_loading :: loading where
  "no_loading = \<lparr>ld_group_config = no_group_config, ld_replica_group = [], ld_log = None, ld_db = None, ld_mem = None,
     ld_load_from = zero_id, ld_join_tx = 0, ld_started = False, ld_replication_id = 0, ld_replication_sequence = 0,
     ld_largest_row = []\<rparr>"

definition no_loaded :: loaded where
  "no_loaded = \<lparr>lo_group_config = no_group_config, lo_raft = None, lo_db = None, lo_last_applied = 0, lo_leaf = None\<rparr>"

record replication_push_state =
  pu_logs_from_idx_inclusive :: nat
  pu_db_from_key_exclusive :: bytes
  pu_finished_sending :: bool
  pu_target :: peer_id
  pu_tx :: nat
  pu_replication_id :: nat
  pu_replication_sequence :: nat
  pu_sent_response :: bool

text \<open>The callbacks of log transactions: \<^verbatim>\<open>ClientLogTransaction\<close>, the reply to a host request, the reply to a request to
  join, and the reply to a peer that asked to be removed.\<close>

datatype log_callback =
    LC_Client nat nat
  | LC_Reply nat
  | LC_Membership nat cancel
  | LC_Removal peer_id nat

record log_transaction =
  lt_term :: nat
  lt_cb :: log_callback
  lt_expected_hash_chain :: bytes

text \<open>The callbacks of enclave-to-enclave transactions, in the order of the source.  A push state is shared between callbacks, and named by its
  position in \<open>k_pushes\<close>.\<close>

datatype e2e_callback =
    CB_Reply nat
  | CB_JoinRaft nat peer_id
  | CB_Replicated peer_id nat
  | CB_Membership nat cancel
  | CB_Push nat bool
  | CB_RaftWrite log_callback
  | CB_Ignore

record e2e_call =
  ca_callback :: e2e_callback
  ca_timeout_cancel :: cancel
  ca_to :: peer_id

datatype timeout_fn = TF_RequestMembership nat | TF_SendTimestampToAll | TF_E2ETimeout nat peer_id

record ('dh, 'hs, 'cs) core =
  k_config :: enclave_config
  k_template :: raft_group_config
  k_minimums :: minimum_limits
  k_peers :: "('dh, 'hs, 'cs) peer_manager"
  k_clients :: "('dh, 'hs, 'cs) client_manager"
  k_tree :: tree
  k_state :: raft_state_enum
  k_waiting :: waiting_for_first_connection
  k_loading :: loading
  k_loaded :: loaded
  k_db_version :: database_version
  k_protocol :: protocol
  k_clock :: clock
  k_timeout :: "timeout_fn timeout"
  k_log_txns :: "(nat \<times> log_transaction) list"
  k_e2e_txn_id :: nat
  k_e2e_txns :: "(nat, e2e_call) omap"
  k_pushes :: "replication_push_state list"
  k_log_level :: nat
  k_draws :: nat
  k_sent :: sent

record ('dh, 'hs, 'cs) core_env =
  ce_noise :: "('dh, 'hs, 'cs) noise_c"
  ce_host :: host_env
  ce_raft :: raft_env
  ce_db :: db_env
  ce_new_key :: "nat \<Rightarrow> bytes"
  ce_ser_entry :: "log_entry \<Rightarrow> bytes option"
  ce_parse_entry :: "bytes \<Rightarrow> log_entry option"
  ce_push_size :: "replicate_state_push \<Rightarrow> nat"

abbreviation ce_H :: "('dh, 'hs, 'cs) core_env \<Rightarrow> bytes \<Rightarrow> hash" where
  "ce_H C \<equiv> env_H (ce_raft C)"

subsection \<open>Elementary steps\<close>

definition core_send ::
  "('dh, 'hs, 'cs) core_env \<Rightarrow> enclave_message \<Rightarrow> ('dh, 'hs, 'cs) core \<Rightarrow> ('dh, 'hs, 'cs) core option" where
  "core_send C msg k = do { out \<leftarrow> sender_Send (ce_host C) msg; Some (k\<lparr>k_sent := k_sent k @ out\<rparr>) }"

definition respond ::
  "('dh, 'hs, 'cs) core_env \<Rightarrow> nat \<Rightarrow> h2e_response_inner \<Rightarrow> ('dh, 'hs, 'cs) core \<Rightarrow> ('dh, 'hs, 'cs) core option" where
  "respond C tx inner k = core_send C (EM_h2e_response \<lparr>hr_request_id = tx, hr_inner = inner\<rparr>) k"

definition ReplyWithError ::
  "('dh, 'hs, 'cs) core_env \<Rightarrow> nat \<Rightarrow> error \<Rightarrow> ('dh, 'hs, 'cs) core \<Rightarrow> ('dh, 'hs, 'cs) core option" where
  "ReplyWithError C tx err k = respond C tx (HR_status err) k"

definition draw :: "('dh, 'hs, 'cs) core \<Rightarrow> nat \<times> ('dh, 'hs, 'cs) core" where
  "draw k = (k_draws k, k\<lparr>k_draws := k_draws k + 1\<rparr>)"

text \<open>A call of the peer manager.\<close>

definition with_peers ::
  "(('dh, 'hs, 'cs) peer_manager \<Rightarrow> (('dh, 'hs, 'cs) peer_manager \<times> sent \<times> 'a) option) \<Rightarrow> ('dh, 'hs, 'cs) core \<Rightarrow>
     ('a \<times> ('dh, 'hs, 'cs) core) option" where
  "with_peers f k = do { (m, out, x) \<leftarrow> f (k_peers k); Some (x, k\<lparr>k_peers := m, k_sent := k_sent k @ out\<rparr>) }"

definition core_SendToPeer ::
  "('dh, 'hs, 'cs) core_env \<Rightarrow> peer_id \<Rightarrow> e2e_message \<Rightarrow> ('dh, 'hs, 'cs) core \<Rightarrow> (error \<times> ('dh, 'hs, 'cs) core) option" where
  "core_SendToPeer C to msg = with_peers (SendToPeer (ce_noise C) (ce_host C) to msg)"

definition core_MaybeConnectToPeer ::
  "('dh, 'hs, 'cs) core_env \<Rightarrow> peer_id \<Rightarrow> ('dh, 'hs, 'cs) core \<Rightarrow> (error \<times> ('dh, 'hs, 'cs) core) option" where
  "core_MaybeConnectToPeer C peer k =
     (let (seed, k) = draw k in with_peers (MaybeConnectToPeer (ce_noise C) (ce_host C) seed peer) k)"

definition core_ID :: "('dh, 'hs, 'cs) core \<Rightarrow> peer_id" where
  "core_ID k = PeerManager_ID (k_peers k)"

text \<open>Calls through \<^verbatim>\<open>raft_.loaded.raft\<close>, which works on the core's Merkle tree.\<close>

definition the_raft :: "('dh, 'hs, 'cs) core \<Rightarrow> raft option" where
  "the_raft k = map_option (\<lambda>r. r\<lparr>r_merkle := k_tree k\<rparr>) (lo_raft (k_loaded k))"

definition set_raft :: "raft \<Rightarrow> ('dh, 'hs, 'cs) core \<Rightarrow> ('dh, 'hs, 'cs) core" where
  "set_raft r k = k\<lparr>k_tree := r_merkle r, k_loaded := (k_loaded k)\<lparr>lo_raft := Some r\<rparr>\<rparr>"

definition on_raft ::
  "(raft \<Rightarrow> ('a \<times> raft) option) \<Rightarrow> ('dh, 'hs, 'cs) core \<Rightarrow> ('a \<times> ('dh, 'hs, 'cs) core) option" where
  "on_raft f k = do { r \<leftarrow> the_raft k; (x, r) \<leftarrow> f r; Some (x, set_raft r k) }"

definition step_raft :: "(raft \<Rightarrow> raft option) \<Rightarrow> ('dh, 'hs, 'cs) core \<Rightarrow> ('dh, 'hs, 'cs) core option" where
  "step_raft f k = do { r \<leftarrow> the_raft k; r \<leftarrow> f r; Some (set_raft r k) }"

text \<open>Assignment of a struct with owning pointers destroys what they pointed to, and with it the leaves of the Merkle tree.\<close>

fun destroy_leaves :: "(bytes \<Rightarrow> hash) \<Rightarrow> leaf_id list \<Rightarrow> tree \<Rightarrow> tree option" where
  "destroy_leaves H [] t = Some t"
| "destroy_leaves H (l # ls) t = do { t \<leftarrow> Leaf_destroy H l t; destroy_leaves H ls t }"

definition loading_leaves :: "loading \<Rightarrow> leaf_id list" where
  "loading_leaves ld = (case ld_db ld of None \<Rightarrow> [] | Some d \<Rightarrow> DB_leaves d)"

definition loaded_leaves :: "loaded \<Rightarrow> leaf_id list" where
  "loaded_leaves lo =
     (case lo_raft lo of None \<Rightarrow> [] | Some r \<Rightarrow> [r_promise_leaf r, r_commit_leaf r]) @
     (case lo_db lo of None \<Rightarrow> [] | Some d \<Rightarrow> DB_leaves d) @
     (case lo_leaf lo of None \<Rightarrow> [] | Some l \<Rightarrow> [l])"

definition assign_loading ::
  "('dh, 'hs, 'cs) core_env \<Rightarrow> loading \<Rightarrow> ('dh, 'hs, 'cs) core \<Rightarrow> ('dh, 'hs, 'cs) core option" where
  "assign_loading C ld k = do { t \<leftarrow> destroy_leaves (ce_H C) (loading_leaves (k_loading k)) (k_tree k); Some (k\<lparr>k_tree := t, k_loading := ld\<rparr>) }"

definition assign_loaded ::
  "('dh, 'hs, 'cs) core_env \<Rightarrow> loaded \<Rightarrow> ('dh, 'hs, 'cs) core \<Rightarrow> ('dh, 'hs, 'cs) core option" where
  "assign_loaded C lo k = do { t \<leftarrow> destroy_leaves (ce_H C) (loaded_leaves (k_loaded k)) (k_tree k); Some (k\<lparr>k_tree := t, k_loaded := lo\<rparr>) }"

definition ClearState :: "('dh, 'hs, 'cs) core_env \<Rightarrow> ('dh, 'hs, 'cs) core \<Rightarrow> ('dh, 'hs, 'cs) core option" where
  "ClearState C k = do {
     k \<leftarrow> assign_loading C no_loading (k\<lparr>k_state := RAFTSTATE_NO_STATE, k_waiting := no_waiting\<rparr>);
     assign_loaded C no_loaded k }"

definition VerifyLastAppliedLog :: "('dh, 'hs, 'cs) core_env \<Rightarrow> ('dh, 'hs, 'cs) core \<Rightarrow> error option" where
  "VerifyLastAppliedLog C k = do {
     l \<leftarrow> lo_leaf (k_loaded k);
     Leaf_Verify (ce_H C) l (BigEndian64Bytes (of_nat (lo_last_applied (k_loaded k)))) (k_tree k) }"

definition UpdateLastAppliedLog ::
  "('dh, 'hs, 'cs) core_env \<Rightarrow> nat \<Rightarrow> ('dh, 'hs, 'cs) core \<Rightarrow> ('dh, 'hs, 'cs) core option" where
  "UpdateLastAppliedLog C idx k = do {
     l \<leftarrow> lo_leaf (k_loaded k);
     t \<leftarrow> Leaf_Update (ce_H C) l (BigEndian64Bytes (of_nat idx)) (k_tree k);
     Some (k\<lparr>k_tree := t, k_loaded := (k_loaded k)\<lparr>lo_last_applied := idx\<rparr>\<rparr>) }"

end
