(* ===== verification/CoreTxn.thy ===== *)
theory CoreTxn
  imports CoreState
begin

text \<open>
  src/enclave/core/core.cc: transactions.  Log transactions wait for an index of the Raft log to be committed,
  enclave-to-enclave transactions for the response of a peer; both call back when they end.  \<open>RaftStep\<close> sends what Raft
  wants to send and applies what Raft has committed.
\<close>

subsection \<open>Log transactions\<close>

definition SendE2EError ::
  "('dh, 'hs, 'cs) core_env \<Rightarrow> peer_id \<Rightarrow> nat \<Rightarrow> error \<Rightarrow> ('dh, 'hs, 'cs) core \<Rightarrow> (error \<times> ('dh, 'hs, 'cs) core) option" where
  "SendE2EError C from txid err k =
     core_SendToPeer C from (E2E_transaction_response \<lparr>tp_request_id = txid, tp_inner = TR_status err\<rparr>) k"

definition AddLogTransaction :: "log_location \<Rightarrow> log_callback \<Rightarrow> ('dh, 'hs, 'cs) core \<Rightarrow> ('dh, 'hs, 'cs) core" where
  "AddLogTransaction loc cb k =
     k\<lparr>k_log_txns := k_log_txns k @ [(loc_idx loc, \<lparr>lt_term = loc_term loc, lt_cb = cb, lt_expected_hash_chain = loc_hash_chain loc\<rparr>)]\<rparr>"

definition remove_client :: "nat \<Rightarrow> ('dh, 'hs, 'cs) core \<Rightarrow> ('dh, 'hs, 'cs) core" where
  "remove_client client_id k = k\<lparr>k_clients := fst (RemoveClient client_id (k_clients k))\<rparr>"

text \<open>The tail that the failures of a client transaction share.\<close>

definition fail_client ::
  "('dh, 'hs, 'cs) core_env \<Rightarrow> nat \<Rightarrow> nat \<Rightarrow> error \<Rightarrow> ('dh, 'hs, 'cs) core \<Rightarrow> ('dh, 'hs, 'cs) core option" where
  "fail_client C client_id tx err k = do { k \<leftarrow> ReplyWithError C tx err k; Some (remove_client client_id k) }"

definition ClientLogTransaction ::
  "('dh, 'hs, 'cs) core_env \<Rightarrow> nat \<Rightarrow> nat \<Rightarrow> error \<Rightarrow> pb_response option \<Rightarrow> ('dh, 'hs, 'cs) core \<Rightarrow> ('dh, 'hs, 'cs) core option" where
  "ClientLogTransaction C client_id tx err resp k =
     (if err = E_Core Core_LogTransactionCancelled then fail_client C client_id tx (E_Client Client_TransactionCancelled) k
      else if err \<noteq> OK then fail_client C client_id tx err k
      else case resp of
          None \<Rightarrow> fail_client C client_id tx (E_Client Client_TransactionInvalid) k
        | Some response \<Rightarrow>
            (case GetClient client_id (k_clients k) of
               None \<Rightarrow> fail_client C client_id tx (E_Client Client_AlreadyClosed) k
             | Some client \<Rightarrow> do {
                 (client, ciphertext, encrypt_err) \<leftarrow> EncryptResponse (ce_noise C) (ser_response (ce_db C)) response client;
                 let k = k\<lparr>k_clients := put_client client (k_clients k)\<rparr>;
                 if encrypt_err \<noteq> OK then fail_client C client_id tx encrypt_err k
                 else respond C tx (HR_existing_client_reply ciphertext False) k }))"

definition log_callback_run ::
  "('dh, 'hs, 'cs) core_env \<Rightarrow> log_callback \<Rightarrow> error \<Rightarrow> pb_response option \<Rightarrow> ('dh, 'hs, 'cs) core \<Rightarrow> ('dh, 'hs, 'cs) core option" where
  "log_callback_run C cb err response k =
     (case cb of
        LC_Client client_id tx \<Rightarrow> ClientLogTransaction C client_id tx err response k
      | LC_Reply tx \<Rightarrow> ReplyWithError C tx err k
      | LC_Membership tx c \<Rightarrow>
          ReplyWithError C tx err (if err = OK then k\<lparr>k_timeout := CancelTimeout (k_timeout k) c\<rparr> else k)
      | LC_Removal peer tx \<Rightarrow> map_option snd (SendE2EError C peer tx err k))"

fun run_log_callbacks ::
  "('dh, 'hs, 'cs) core_env \<Rightarrow> (log_callback \<times> error \<times> pb_response option) list \<Rightarrow> ('dh, 'hs, 'cs) core \<Rightarrow> ('dh, 'hs, 'cs) core option" where
  "run_log_callbacks C [] k = Some k"
| "run_log_callbacks C ((cb, err, response) # cbs) k = do { k \<leftarrow> log_callback_run C cb err response k; run_log_callbacks C cbs k }"

text \<open>What the transaction is told when the entry is committed at its index.\<close>

definition log_txn_outcome :: "log_entry \<Rightarrow> pb_response option \<Rightarrow> log_transaction \<Rightarrow> log_callback \<times> error \<times> pb_response option" where
  "log_txn_outcome entry response log_tx =
     (if lt_term log_tx \<noteq> le_term entry then (lt_cb log_tx, E_Core Core_LogTransactionCancelled, None)
      else if length (lt_expected_hash_chain log_tx) > 0 \<and>
              \<not> ConstantTimeEquals (lt_expected_hash_chain log_tx) (le_hash_chain entry)
      then (lt_cb log_tx, E_Core Core_InvalidLogTransactionHashChain, None)
      else (lt_cb log_tx, OK, response))"

definition HandleLogTransactionsForRaftLog ::
  "('dh, 'hs, 'cs) core_env \<Rightarrow> nat \<Rightarrow> log_entry \<Rightarrow> pb_response option \<Rightarrow> ('dh, 'hs, 'cs) core \<Rightarrow> ('dh, 'hs, 'cs) core option" where
  "HandleLogTransactionsForRaftLog C idx entry response k =
     run_log_callbacks C (map (log_txn_outcome entry response \<circ> snd) (filter (\<lambda>(i, _). i = idx) (k_log_txns k)))
       (k\<lparr>k_log_txns := filter (\<lambda>(i, _). i \<noteq> idx) (k_log_txns k)\<rparr>)"

subsection \<open>Enclave-to-enclave transactions\<close>

text \<open>The callbacks when the transaction failed; on these paths none of them starts another transaction.\<close>

definition push_respond ::
  "('dh, 'hs, 'cs) core_env \<Rightarrow> nat \<Rightarrow> error \<Rightarrow> ('dh, 'hs, 'cs) core \<Rightarrow> ('dh, 'hs, 'cs) core option" where
  "push_respond C i err k =
     (if i \<ge> length (k_pushes k) then None
      else
        let ps = k_pushes k ! i; k = k\<lparr>k_pushes := (k_pushes k)[i := ps\<lparr>pu_sent_response := True\<rparr>]\<rparr> in
        if pu_sent_response ps then Some k else map_option snd (SendE2EError C (pu_target ps) (pu_tx ps) err k))"

definition e2e_failed ::
  "('dh, 'hs, 'cs) core_env \<Rightarrow> e2e_callback \<Rightarrow> error \<Rightarrow> ('dh, 'hs, 'cs) core \<Rightarrow> ('dh, 'hs, 'cs) core option" where
  "e2e_failed C cb err k =
     (case cb of
        CB_Reply tx \<Rightarrow> ReplyWithError C tx err k
      | CB_JoinRaft tx peer \<Rightarrow> ReplyWithError C tx err k
      | CB_Replicated from tx \<Rightarrow> ReplyWithError C tx err k
      | CB_Membership tx c \<Rightarrow> Some k
      | CB_Push i is_last \<Rightarrow> push_respond C i err k
      | CB_RaftWrite lcb \<Rightarrow> log_callback_run C lcb err None k
      | CB_Ignore \<Rightarrow> Some k)"

definition no_cancel :: cancel where
  "no_cancel = \<lparr>at_tick = 0, cancel_id = 0\<rparr>"

definition SendE2ETransaction ::
  "('dh, 'hs, 'cs) core_env \<Rightarrow> peer_id \<Rightarrow> txn_request_inner \<Rightarrow> bool \<Rightarrow> e2e_callback \<Rightarrow> ('dh, 'hs, 'cs) core \<Rightarrow> ('dh, 'hs, 'cs) core option" where
  "SendE2ETransaction C to req with_timeout callback k = do {
     let tx = u64_add (k_e2e_txn_id k) 1;
     let k = k\<lparr>k_e2e_txn_id := tx\<rparr>;
     (err, k) \<leftarrow> core_SendToPeer C to (E2E_transaction_request \<lparr>tq_request_id = tx, tq_inner = req\<rparr>) k;
     if err \<noteq> OK then e2e_failed C callback err k
     else do {
       (timer, tc) \<leftarrow> (if with_timeout
                       then SetTimeout (k_timeout k) (int (ec_e2e_txn_timeout_ticks (k_config k))) (TF_E2ETimeout tx to)
                       else Some (k_timeout k, no_cancel));
       Some (k\<lparr>k_timeout := timer, k_e2e_txns := om_put tx \<lparr>ca_callback = callback, ca_timeout_cancel = tc, ca_to = to\<rparr> (k_e2e_txns k)\<rparr>) } }"

fun SendE2E_all ::
  "('dh, 'hs, 'cs) core_env \<Rightarrow> peer_id list \<Rightarrow> txn_request_inner \<Rightarrow> e2e_callback \<Rightarrow> ('dh, 'hs, 'cs) core \<Rightarrow> ('dh, 'hs, 'cs) core option" where
  "SendE2E_all C [] req cb k = Some k"
| "SendE2E_all C (p # ps) req cb k = do { k \<leftarrow> SendE2ETransaction C p req True cb k; SendE2E_all C ps req cb k }"

definition SendTimestamp ::
  "('dh, 'hs, 'cs) core_env \<Rightarrow> peer_id \<Rightarrow> int \<Rightarrow> ('dh, 'hs, 'cs) core \<Rightarrow> ('dh, 'hs, 'cs) core option" where
  "SendTimestamp C to unix_secs k = SendE2ETransaction C to (TX_new_timestamp_unix_secs (nat unix_secs)) True CB_Ignore k"

definition SendTimestampToAll ::
  "('dh, 'hs, 'cs) core_env \<Rightarrow> ('dh, 'hs, 'cs) core \<Rightarrow> ('dh, 'hs, 'cs) core option" where
  "SendTimestampToAll C k = do {
     k \<leftarrow> SendE2E_all C (ConnectedPeers (k_peers k)) (TX_new_timestamp_unix_secs (nat (GetLocalTime (k_clock k)))) CB_Ignore k;
     (timer, tc) \<leftarrow> SetTimeout (k_timeout k) (int (max 1 (ec_send_timestamp_ticks (k_config k)))) TF_SendTimestampToAll;
     Some (k\<lparr>k_timeout := timer\<rparr>) }"

subsection \<open>Raft steps\<close>

fun send_raft_to ::
  "('dh, 'hs, 'cs) core_env \<Rightarrow> raft_message \<Rightarrow> peer_id list \<Rightarrow> ('dh, 'hs, 'cs) core \<Rightarrow> ('dh, 'hs, 'cs) core option" where
  "send_raft_to C msg [] k = Some k"
| "send_raft_to C msg (p # ps) k = do { (err, k) \<leftarrow> core_SendToPeer C p (E2E_raft_message msg) k; send_raft_to C msg ps k }"

fun send_raft_messages ::
  "('dh, 'hs, 'cs) core_env \<Rightarrow> sendable_message list \<Rightarrow> ('dh, 'hs, 'cs) core \<Rightarrow> ('dh, 'hs, 'cs) core option" where
  "send_raft_messages C [] k = Some k"
| "send_raft_messages C (m # ms) k = do {
     r \<leftarrow> the_raft k;
     k \<leftarrow> send_raft_to C (sm_message m) (case sm_to m of Some to \<Rightarrow> [to] | None \<Rightarrow> peers r) k;
     send_raft_messages C ms k }"

definition RaftSendMessages ::
  "('dh, 'hs, 'cs) core_env \<Rightarrow> ('dh, 'hs, 'cs) core \<Rightarrow> ('dh, 'hs, 'cs) core option" where
  "RaftSendMessages C k = do {
     (messages, k) \<leftarrow> on_raft (\<lambda>r. Some (SendableMessages r)) k;
     send_raft_messages C messages k }"

definition HandleRaftMembershipChange ::
  "('dh, 'hs, 'cs) core_env \<Rightarrow> replica_group \<Rightarrow> ('dh, 'hs, 'cs) core \<Rightarrow> ('dh, 'hs, 'cs) core option" where
  "HandleRaftMembershipChange C membership_change k = do {
     r \<leftarrow> the_raft k;
     (case k_state k of
        RAFTSTATE_LOADED_PART_OF_GROUP \<Rightarrow>
          if \<not> ContainsMe (r_me r) membership_change then
            run_log_callbacks C (map (\<lambda>(i, lt). (lt_cb lt, E_Core Core_RemovedFromRaft, None)) (k_log_txns k))
              (k\<lparr>k_state := RAFTSTATE_LOADED_REQUESTING_MEMBERSHIP, k_log_txns := []\<rparr>)
          else Some k
      | RAFTSTATE_LOADED_REQUESTING_MEMBERSHIP \<Rightarrow>
          if ContainsMe (r_me r) membership_change then Some (k\<lparr>k_state := RAFTSTATE_LOADED_PART_OF_GROUP\<rparr>) else Some k
      | _ \<Rightarrow> None) }"

definition HandleRaftMinimumsChange ::
  "('dh, 'hs, 'cs) core_env \<Rightarrow> minimum_limits \<Rightarrow> ('dh, 'hs, 'cs) core \<Rightarrow> ('dh, 'hs, 'cs) core option" where
  "HandleRaftMinimumsChange C mins k =
     (let (err, limits) = UpdateLimits mins (k_minimums k) in
      if err \<noteq> OK then None
      else do {
        let k = k\<lparr>k_minimums := limits\<rparr>;
        (x, k) \<leftarrow> with_peers (\<lambda>m. map_option (\<lambda>(m, out). (m, out, ())) (MinimumsUpdated (ce_host C) limits m)) k;
        Some k })"

definition RaftApplyLogToDatabase ::
  "('dh, 'hs, 'cs) core_env \<Rightarrow> log_entry \<Rightarrow> ('dh, 'hs, 'cs) core \<Rightarrow> (pb_response option \<times> ('dh, 'hs, 'cs) core) option" where
  "RaftApplyLogToDatabase C committed_entry k =
     (case LogPB (ce_db C) (k_protocol k) (le_data committed_entry) of
        None \<Rightarrow> Some (None, k)
      | Some client_log \<Rightarrow>
          if ValidateClientLog (k_protocol k) client_log \<noteq> OK then Some (None, k)
          else do {
            db \<leftarrow> lo_db (k_loaded k);
            (resp, db, t) \<leftarrow> DB_Run (ce_H C) (ce_db C) client_log (db, k_tree k);
            Some (Some resp, k\<lparr>k_tree := t, k_loaded := (k_loaded k)\<lparr>lo_db := Some db\<rparr>\<rparr>) })"

text \<open>One iteration of the loop of \<^verbatim>\<open>RaftHandleCommittedLogs\<close>; the result is whether there may be more.\<close>

definition handle_committed_log ::
  "('dh, 'hs, 'cs) core_env \<Rightarrow> ('dh, 'hs, 'cs) core \<Rightarrow> (bool \<times> ('dh, 'hs, 'cs) core) option" where
  "handle_committed_log C k = do {
     ((idx, entry), k) \<leftarrow> on_raft TakeCommittedLog k;
     if idx = 0 then Some (False, k)
     else do {
       err \<leftarrow> VerifyLastAppliedLog C k;
       if err \<noteq> OK then None
       else do {
         k \<leftarrow> UpdateLastAppliedLog C idx k;
         (response, k) \<leftarrow>
           (case le_inner entry of
              MembershipChange g \<Rightarrow> map_option (Pair None) (HandleRaftMembershipChange C g k)
            | Data d \<Rightarrow> RaftApplyLogToDatabase C entry k
            | log_inner.Minimums m \<Rightarrow> map_option (Pair None) (HandleRaftMinimumsChange C m k)
            | INNER_NOT_SET \<Rightarrow> Some (None, k));
         k \<leftarrow> HandleLogTransactionsForRaftLog C idx entry response k;
         Some (True, k) } } }"

partial_function (option) RaftHandleCommittedLogs ::
  "('dh, 'hs, 'cs) core_env \<Rightarrow> ('dh, 'hs, 'cs) core \<Rightarrow> ('dh, 'hs, 'cs) core option" where
  "RaftHandleCommittedLogs C k =
     Option.bind (handle_committed_log C k) (\<lambda>p. if fst p then RaftHandleCommittedLogs C (snd p) else Some (snd p))"

declare RaftHandleCommittedLogs.simps [code]

definition RaftStep ::
  "('dh, 'hs, 'cs) core_env \<Rightarrow> ('dh, 'hs, 'cs) core \<Rightarrow> ('dh, 'hs, 'cs) core option" where
  "RaftStep C k =
     (if k_state k = RAFTSTATE_LOADED_PART_OF_GROUP \<or> k_state k = RAFTSTATE_LOADED_REQUESTING_MEMBERSHIP
      then do { k \<leftarrow> RaftSendMessages C k; RaftHandleCommittedLogs C k } else None)"

definition enough_voters :: "('dh, 'hs, 'cs) core \<Rightarrow> raft \<Rightarrow> bool" where
  "enough_voters k r = (length (voting_replicas (active_membership r)) \<ge> gc_min_voting_replicas (lo_group_config (k_loaded k)))"

definition RaftWriteLogTransaction ::
  "('dh, 'hs, 'cs) core_env \<Rightarrow> log_entry \<Rightarrow> log_callback \<Rightarrow> ('dh, 'hs, 'cs) core \<Rightarrow> (error \<times> ('dh, 'hs, 'cs) core) option" where
  "RaftWriteLogTransaction C entry cb k =
     (if k_state k \<noteq> RAFTSTATE_LOADED_PART_OF_GROUP then Some (E_Core Core_RaftState, k)
      else do {
        r \<leftarrow> the_raft k;
        if r_role r = LEADER then
          if \<not> enough_voters k r then Some (E_Core Core_NotEnoughVotingReplicas, k)
          else do {
            ((loc, raft_err), k) \<leftarrow> on_raft (LogRequest (ce_raft C) entry) k;
            if raft_err \<noteq> OK then Some (raft_err, k)
            else do { k \<leftarrow> RaftStep C (AddLogTransaction loc cb k); Some (OK, k) } }
        else case raft_leader r of
            None \<Rightarrow> Some (E_Core Core_LeaderUnknown, k)
          | Some leader \<Rightarrow>
              (case ce_ser_entry C entry of
                 None \<Rightarrow> Some (E_Core Core_SerializeRaftWrite, k)
               | Some data \<Rightarrow> do {
                   k \<leftarrow> SendE2ETransaction C leader (TX_raft_write data) True (CB_RaftWrite cb) k;
                   Some (OK, k) }) })"

end
