(* ===== verification/CoreRepl.thy ===== *)
theory CoreRepl
  imports CoreTxn
begin

text \<open>
  src/enclave/core/core.cc: joining a group.  The joining enclave asks a first peer for the group
  (\<open>JoinRaftFromFirstPeer\<close>), then for its log and database (\<open>RequestRaftReplication\<close>), receives them in pieces
  (\<open>HandleReplicateStatePush\<close>), becomes a replica (\<open>PromoteRaftToLoaded\<close>) and asks to be a member
  (\<open>RaftRequestMembership\<close>).  The enclave it loads from pushes the pieces (\<open>HandleReplicateStateRequest\<close>).
\<close>

subsection \<open>The joining enclave\<close>

definition RaftRequestMembership ::
  "('dh, 'hs, 'cs) core_env \<Rightarrow> nat \<Rightarrow> ('dh, 'hs, 'cs) core \<Rightarrow> ('dh, 'hs, 'cs) core option" where
  "RaftRequestMembership C tx k =
     (if k_state k \<noteq> RAFTSTATE_LOADED_REQUESTING_MEMBERSHIP then None
      else do {
        (timer, c) \<leftarrow> SetTimeout (k_timeout k) (int (ec_e2e_txn_timeout_ticks (k_config k))) (TF_RequestMembership tx);
        r \<leftarrow> the_raft k;
        SendE2E_all C (peers r) (TX_raft_membership_request True) (CB_Membership tx c) (k\<lparr>k_timeout := timer\<rparr>) })"

definition PromoteRaftToLoaded ::
  "('dh, 'hs, 'cs) core_env \<Rightarrow> ('dh, 'hs, 'cs) core \<Rightarrow> ('dh, 'hs, 'cs) core option" where
  "PromoteRaftToLoaded C k = do {
     let ld = k_loading k;
     k \<leftarrow> ClearState C (k\<lparr>k_loading := ld\<lparr>ld_log := None, ld_db := None, ld_mem := None\<rparr>\<rparr>);
     let k = k\<lparr>k_state := RAFTSTATE_LOADED_REQUESTING_MEMBERSHIP\<rparr>;
     log \<leftarrow> ld_log ld;
     mem \<leftarrow> ld_mem ld;
     let (rnd, k) = draw k;
     r \<leftarrow> Raft_new (ce_raft C) (gc_group_id (ld_group_config ld)) (core_ID k) (k_tree k) mem log
            (ec_raft (k_config k)) True (gc_super_majority (ld_group_config ld)) rnd;
     (l, t) \<leftarrow> Leaf_new (r_merkle r);
     k \<leftarrow> assign_loaded C \<lparr>lo_group_config = ld_group_config ld, lo_raft = Some r, lo_db = ld_db ld, lo_last_applied = 0,
                           lo_leaf = Some l\<rparr> (k\<lparr>k_tree := t\<rparr>);
     k \<leftarrow> UpdateLastAppliedLog C (last_idx log) k;
     RaftRequestMembership C (ld_join_tx ld) k }"

definition connected_voters :: "('dh, 'hs, 'cs) core \<Rightarrow> membership \<Rightarrow> nat" where
  "connected_voters k mem = length (filter (\<lambda>p. p \<in> set (voting_replicas mem)) (ConnectedPeers (k_peers k)))"

definition RequestRaftReplication ::
  "('dh, 'hs, 'cs) core_env \<Rightarrow> ('dh, 'hs, 'cs) core \<Rightarrow> ('dh, 'hs, 'cs) core option" where
  "RequestRaftReplication C k =
     (if k_state k \<noteq> RAFTSTATE_LOADING then Some k
      else do {
        ready \<leftarrow> (if ld_started (k_loading k) then Some True
                  else do {
                    mem \<leftarrow> ld_mem (k_loading k);
                    Some (connected_voters k mem \<ge>
                          quorum_size (length (voting_replicas mem)) (gc_super_majority (ld_group_config (k_loading k)))) });
        if \<not> ready then Some k
        else do {
          let (d, k) = draw k;
          let repl_id = unat (BigEndian64FromBytes (out_array 8 (fst (RandomBytes (ce_host C) d 8))));
          let ld = (k_loading k)\<lparr>ld_started := True, ld_replication_id := repl_id\<rparr>;
          SendE2ETransaction C (ld_load_from ld) (TX_replicate_state (gc_group_id (ld_group_config ld)) repl_id) False
            (CB_Replicated (ld_load_from ld) (ld_join_tx ld)) (k\<lparr>k_loading := ld\<rparr>) } })"

fun connect_replicas ::
  "('dh, 'hs, 'cs) core_env \<Rightarrow> replica_group \<Rightarrow> ('dh, 'hs, 'cs) core \<Rightarrow> (error \<times> ('dh, 'hs, 'cs) core) option" where
  "connect_replicas C [] k = Some (OK, k)"
| "connect_replicas C (rep # g) k =
     (case PeerID_FromString (replica_peer_id rep) of
        Inl err \<Rightarrow> Some (err, k)
      | Inr p \<Rightarrow> do {
          (err, k) \<leftarrow> core_MaybeConnectToPeer C p k;
          if err \<noteq> OK then Some (err, k) else connect_replicas C g k })"

definition resp_get_raft :: "transaction_response \<Rightarrow> raft_group_config \<times> replica_group" where
  "resp_get_raft resp = (case tp_inner resp of TR_get_raft c g \<Rightarrow> (c, g) | _ \<Rightarrow> (no_group_config, []))"

text \<open>The callback of \<^verbatim>\<open>JoinRaftFromFirstPeer\<close> on a response without an error.\<close>

definition joined_first_peer ::
  "('dh, 'hs, 'cs) core_env \<Rightarrow> nat \<Rightarrow> peer_id \<Rightarrow> transaction_response \<Rightarrow> ('dh, 'hs, 'cs) core \<Rightarrow> ('dh, 'hs, 'cs) core option" where
  "joined_first_peer C tx peer resp k =
     (if k_state k \<noteq> RAFTSTATE_WAITING_FOR_FIRST_CONNECTION then ReplyWithError C tx (E_Core Core_RaftState) k
      else
        let (group_config, replica_group) = resp_get_raft resp in
        if \<not> RaftGroupConfigsEqualExceptForGroupID (k_template k) (group_config\<lparr>gc_group_id := 0\<rparr>)
        then ReplyWithError C tx (E_Core Core_GroupConfigMismath) k
        else if replica_group = [] then ReplyWithError C tx (E_Core Core_ReceivedEmptyReplicaGroup) k
        else case Membership_FromProto replica_group of
            Inl mem_err \<Rightarrow> ReplyWithError C tx mem_err k
          | Inr mem \<Rightarrow> do {
              (err, k) \<leftarrow> connect_replicas C replica_group k;
              if err \<noteq> OK then ReplyWithError C tx err k
              else do {
                k \<leftarrow> ClearState C k;
                k \<leftarrow> assign_loading C
                  (no_loading\<lparr>ld_group_config := group_config, ld_replica_group := replica_group,
                              ld_log := Some (Log_init (cfg_log_max_bytes (ec_raft (k_config k)))),
                              ld_db := Some (NewDB (k_protocol k)), ld_mem := Some mem, ld_load_from := peer, ld_join_tx := tx\<rparr>)
                  (k\<lparr>k_state := RAFTSTATE_LOADING\<rparr>);
                (cm, err) \<leftarrow> ClientManager_RefreshAttestation (ce_noise C) (ce_host C) group_config (k_clients k);
                let k = k\<lparr>k_clients := cm\<rparr>;
                if err \<noteq> OK then ReplyWithError C tx err k else RequestRaftReplication C k } })"

definition JoinRaftFromFirstPeer ::
  "('dh, 'hs, 'cs) core_env \<Rightarrow> ('dh, 'hs, 'cs) core \<Rightarrow> ('dh, 'hs, 'cs) core option" where
  "JoinRaftFromFirstPeer C k =
     (if k_state k \<noteq> RAFTSTATE_WAITING_FOR_FIRST_CONNECTION then None
      else SendE2ETransaction C (wf_peer (k_waiting k)) (TX_get_raft True) True
             (CB_JoinRaft (wf_join_tx (k_waiting k)) (wf_peer (k_waiting k))) k)"

subsection \<open>Receiving state\<close>

definition MaybeApplyLogToReplicatingDatabase ::
  "('dh, 'hs, 'cs) core_env \<Rightarrow> log_entry \<Rightarrow> ('dh, 'hs, 'cs) core \<Rightarrow> (error \<times> ('dh, 'hs, 'cs) core) option" where
  "MaybeApplyLogToReplicatingDatabase C entry k =
     (if k_state k \<noteq> RAFTSTATE_LOADING then Some (E_Core Core_RaftState, k)
      else case ld_db (k_loading k) of
          None \<Rightarrow> Some (E_Core Core_RaftState, k)
        | Some db \<Rightarrow>
            if ld_largest_row (k_loading k) = [] \<or> length (le_data entry) = 0 then Some (OK, k)
            else (case LogPB (ce_db C) (k_protocol k) (le_data entry) of
                None \<Rightarrow> Some (E_Core Core_ReplicatedLogSerialization, k)
              | Some clog \<Rightarrow> do {
                  key \<leftarrow> LogKey (k_protocol k) clog;
                  if ld_largest_row (k_loading k) < key then Some (OK, k)
                  else if ValidateClientLog (k_protocol k) clog \<noteq> OK then Some (ValidateClientLog (k_protocol k) clog, k)
                  else do {
                    (resp, db, t) \<leftarrow> DB_Run (ce_H C) (ce_db C) clog (db, k_tree k);
                    Some (OK, k\<lparr>k_tree := t, k_loading := (k_loading k)\<lparr>ld_db := Some db\<rparr>\<rparr>) } }))"

fun load_entries ::
  "('dh, 'hs, 'cs) core_env \<Rightarrow> log_entry list \<Rightarrow> ('dh, 'hs, 'cs) core \<Rightarrow> (error \<times> ('dh, 'hs, 'cs) core) option" where
  "load_entries C [] k = Some (OK, k)"
| "load_entries C (entry # es) k = do {
     log \<leftarrow> ld_log (k_loading k);
     (err, log) \<leftarrow> Append (env_sizes (ce_raft C)) entry (last_idx log) log;
     let k = k\<lparr>k_loading := (k_loading k)\<lparr>ld_log := Some log\<rparr>\<rparr>;
     if err \<noteq> OK then Some (err, k)
     else do {
       (err, k) \<leftarrow> MaybeApplyLogToReplicatingDatabase C entry k;
       if err \<noteq> OK then Some (err, k) else load_entries C es k } }"

definition load_rows ::
  "('dh, 'hs, 'cs) core_env \<Rightarrow> bytes list \<Rightarrow> ('dh, 'hs, 'cs) core \<Rightarrow> (error \<times> ('dh, 'hs, 'cs) core) option" where
  "load_rows C rows k =
     (if rows = [] then Some (OK, k)
      else do {
        db \<leftarrow> ld_db (k_loading k);
        (largest, err, db, t) \<leftarrow> DB_LoadRowsFromProtos (ce_H C) (ce_db C) rows (db, k_tree k);
        let k = k\<lparr>k_tree := t, k_loading := (k_loading k)\<lparr>ld_db := Some db\<rparr>\<rparr>;
        if largest \<le> ld_largest_row (k_loading k) then Some (E_Core Core_ReplicationOutOfOrder, k)
        else Some (OK, k\<lparr>k_loading := (k_loading k)\<lparr>ld_largest_row := largest\<rparr>\<rparr>) })"

definition HandleReplicateStatePush ::
  "('dh, 'hs, 'cs) core_env \<Rightarrow> replicate_state_push \<Rightarrow> ('dh, 'hs, 'cs) core \<Rightarrow> (error \<times> ('dh, 'hs, 'cs) core) option" where
  "HandleReplicateStatePush C repl k =
     (if k_state k \<noteq> RAFTSTATE_LOADING then Some (E_Core Core_RaftState, k)
      else do {
        log \<leftarrow> ld_log (k_loading k);
        let ld = k_loading k;
        if next_idx log > 1 \<and> rp_first_log_idx repl \<noteq> next_idx log then Some (E_Replicate Replicate_LogIndexMismatch, k)
        else case rp_committed_membership repl of
            None \<Rightarrow> Some (E_Replicate Replicate_MissingCommittedMembership, k)
          | Some g \<Rightarrow>
              if rp_replication_id repl \<noteq> ld_replication_id ld then Some (E_Replicate Replicate_ReplicationID, k)
              else
                let ld1 = ld\<lparr>ld_replication_sequence := u64_add (ld_replication_sequence ld) 1\<rparr> in
                if rp_replication_sequence repl \<noteq> ld_replication_sequence ld
                then Some (E_Replicate Replicate_ReplicationSequence, k\<lparr>k_loading := ld1\<rparr>)
                else (case Membership_FromProto g of
                    Inl err \<Rightarrow> Some (err, k\<lparr>k_loading := ld1\<lparr>ld_mem := None\<rparr>\<rparr>)
                  | Inr mem \<Rightarrow> do {
                      let log = (if log_empty log then snd (SetNextIdx (rp_first_log_idx repl) log) else log);
                      (err, k) \<leftarrow> load_entries C (rp_entries repl) (k\<lparr>k_loading := ld1\<lparr>ld_mem := Some mem, ld_log := Some log\<rparr>\<rparr>);
                      if err \<noteq> OK then Some (err, k) else load_rows C (rp_rows repl) k }) })"

subsection \<open>Pushing state\<close>

text \<open>The loop over the log in \<^verbatim>\<open>SendNextReplicationState\<close>: the entries to send, and whether it ended at the last applied index.\<close>

function committed_entries ::
  "sizes \<Rightarrow> raft_log \<Rightarrow> nat \<Rightarrow> nat \<Rightarrow> nat \<Rightarrow> nat \<Rightarrow> log_entry list \<times> bool" where
  "committed_entries sz lg last_applied chunk_bytes sent_bytes di =
     (if \<not> Iter_Valid lg di \<or> Iter_Index lg di > last_applied then ([], True)
      else
        let sent_bytes = u64_add sent_bytes (Iter_SerializedSize sz lg di + 1); entry = log_entries lg ! di in
        if sent_bytes \<ge> chunk_bytes then ([entry], False)
        else let (es, at_commit_idx) = committed_entries sz lg last_applied chunk_bytes sent_bytes (di + 1) in (entry # es, at_commit_idx))"
  by pat_completeness auto
termination
  by (relation "measure (\<lambda>(sz, lg, la, c, s, di). length (log_entries lg) - di)") (auto simp: Iter_Valid_def)

declare committed_entries.simps [simp del]

text \<open>The push message without its rows.\<close>

definition push_entries ::
  "('dh, 'hs, 'cs) core_env \<Rightarrow> replication_push_state \<Rightarrow> raft \<Rightarrow> nat \<Rightarrow> nat \<Rightarrow> replicate_state_push \<times> bool" where
  "push_entries C ps r last_applied chunk_bytes =
     (let (es, at_commit_idx) =
            committed_entries (env_sizes (ce_raft C)) (r_log r) last_applied chunk_bytes 0 (At (r_log r) (pu_logs_from_idx_inclusive ps))
      in (\<lparr>rp_replication_id = pu_replication_id ps, rp_replication_sequence = pu_replication_sequence ps,
           rp_first_log_idx = pu_logs_from_idx_inclusive ps, rp_entries = es, rp_db_to_end = False, rp_rows = [],
           rp_committed_membership = None\<rparr>, at_commit_idx))"

definition SendNextReplicationState ::
  "('dh, 'hs, 'cs) core_env \<Rightarrow> nat \<Rightarrow> ('dh, 'hs, 'cs) core \<Rightarrow> ('dh, 'hs, 'cs) core option" where
  "SendNextReplicationState C i k =
     (if i \<ge> length (k_pushes k) \<or> pu_finished_sending (k_pushes k ! i) then None
      else do {
        r \<leftarrow> the_raft k;
        db \<leftarrow> lo_db (k_loaded k);
        let ps = k_pushes k ! i;
        let chunk_bytes = cfg_replication_chunk_bytes (ec_raft (k_config k));
        let (out, at_commit_idx) = push_entries C ps r (lo_last_applied (k_loaded k)) chunk_bytes;
        let ps = ps\<lparr>pu_replication_sequence := u64_add (pu_replication_sequence ps) 1\<rparr>;
        let current_size = ce_push_size C out;
        let rows_to_send = (if at_commit_idx \<and> current_size < chunk_bytes
                            then (chunk_bytes - current_size) div MaxRowSerializedSize (k_protocol k) else 0);
        let (row_id, err, rows) = (if rows_to_send \<noteq> 0
                                   then DB_RowsAsProtos (ce_db C) (pu_db_from_key_exclusive ps) rows_to_send (db, k_tree k)
                                   else (pu_db_from_key_exclusive ps, OK, []));
        if err \<noteq> OK then push_respond C i err (k\<lparr>k_pushes := (k_pushes k)[i := ps]\<rparr>)
        else do {
          let finished = (rows_to_send \<noteq> 0 \<and> length rows < rows_to_send);
          let ps = ps\<lparr>pu_db_from_key_exclusive := row_id, pu_finished_sending := finished,
                      pu_logs_from_idx_inclusive := u64_add (pu_logs_from_idx_inclusive ps) (length (rp_entries out))\<rparr>;
          let out = out\<lparr>rp_rows := rows, rp_db_to_end := finished, rp_committed_membership := Some (Membership_AsProto (r_membership r))\<rparr>;
          SendE2ETransaction C (pu_target ps) (TX_replicate_state_push out) True (CB_Push i finished) (k\<lparr>k_pushes := (k_pushes k)[i := ps]\<rparr>) } })"

fun start_pushes ::
  "('dh, 'hs, 'cs) core_env \<Rightarrow> nat \<Rightarrow> nat \<Rightarrow> ('dh, 'hs, 'cs) core \<Rightarrow> ('dh, 'hs, 'cs) core option" where
  "start_pushes C 0 i k = Some k"
| "start_pushes C (Suc n) i k =
     (if i \<ge> length (k_pushes k) then None
      else if pu_finished_sending (k_pushes k ! i) then Some k
      else do { k \<leftarrow> SendNextReplicationState C i k; start_pushes C n i k })"

definition new_push_state :: "nat \<Rightarrow> peer_id \<Rightarrow> nat \<Rightarrow> nat \<Rightarrow> replication_push_state" where
  "new_push_state idx to tx replication_id =
     \<lparr>pu_logs_from_idx_inclusive = idx, pu_db_from_key_exclusive = [], pu_finished_sending = False, pu_target = to, pu_tx = tx,
      pu_replication_id = replication_id, pu_replication_sequence = 0, pu_sent_response = False\<rparr>"

definition HandleReplicateStateRequest ::
  "('dh, 'hs, 'cs) core_env \<Rightarrow> peer_id \<Rightarrow> nat \<Rightarrow> nat \<Rightarrow> nat \<Rightarrow> ('dh, 'hs, 'cs) core \<Rightarrow> (error \<times> ('dh, 'hs, 'cs) core) option" where
  "HandleReplicateStateRequest C target request_id group_id replication_id k =
     (if k_state k \<noteq> RAFTSTATE_LOADED_PART_OF_GROUP then SendE2EError C target request_id (E_Replicate Replicate_RaftState) k
      else do {
        r \<leftarrow> the_raft k;
        if group_id \<noteq> r_group r then SendE2EError C target request_id (E_Replicate Replicate_GroupMismatch) k
        else do {
          let i = length (k_pushes k);
          let ps = new_push_state (oldest_stored_idx (r_log r)) target request_id replication_id;
          k \<leftarrow> start_pushes C (cfg_replication_pipeline (ec_raft (k_config k))) i (k\<lparr>k_pushes := k_pushes k @ [ps]\<rparr>);
          Some (OK, k) } })"

text \<open>The callback of a push on a response without an error.\<close>

definition push_acknowledged ::
  "('dh, 'hs, 'cs) core_env \<Rightarrow> nat \<Rightarrow> bool \<Rightarrow> ('dh, 'hs, 'cs) core \<Rightarrow> ('dh, 'hs, 'cs) core option" where
  "push_acknowledged C i last_sent_transaction k =
     (if i \<ge> length (k_pushes k) then None
      else if pu_sent_response (k_pushes k ! i) then Some k
      else if last_sent_transaction then push_respond C i OK k
      else if \<not> pu_finished_sending (k_pushes k ! i) then SendNextReplicationState C i k
      else Some k)"

subsection \<open>The end of a transaction\<close>

definition resp_status :: "transaction_response \<Rightarrow> error" where
  "resp_status resp = (case tp_inner resp of TR_status err \<Rightarrow> err | _ \<Rightarrow> OK)"

definition resp_membership :: "transaction_response \<Rightarrow> log_location" where
  "resp_membership resp = (case tp_inner resp of TR_raft_membership_response loc \<Rightarrow> loc | _ \<Rightarrow> default_location)"

definition e2e_responded ::
  "('dh, 'hs, 'cs) core_env \<Rightarrow> e2e_callback \<Rightarrow> transaction_response \<Rightarrow> ('dh, 'hs, 'cs) core \<Rightarrow> ('dh, 'hs, 'cs) core option" where
  "e2e_responded C cb resp k =
     (if resp_status resp \<noteq> OK then e2e_failed C cb (resp_status resp) k
      else case cb of
          CB_Reply tx \<Rightarrow> ReplyWithError C tx OK k
        | CB_JoinRaft tx peer \<Rightarrow> joined_first_peer C tx peer resp k
        | CB_Replicated from tx \<Rightarrow> PromoteRaftToLoaded C k
        | CB_Membership tx c \<Rightarrow> Some (AddLogTransaction (resp_membership resp) (LC_Membership tx c) k)
        | CB_Push i is_last \<Rightarrow> push_acknowledged C i is_last k
        | CB_RaftWrite lcb \<Rightarrow>
            (case tp_inner resp of
               TR_raft_write loc \<Rightarrow> Some (AddLogTransaction loc lcb k)
             | _ \<Rightarrow> log_callback_run C lcb (E_Core Core_IncorrectE2EResponseType) None k)
        | CB_Ignore \<Rightarrow> Some k)"

end
