(* ===== verification/Core.thy ===== *)
theory Core
  imports CoreRepl
begin

text \<open>
  src/enclave/core/core.cc: the handlers of the core, for messages from peers, for the timer, and for requests of the
  host; \<open>Core_Receive\<close> is the entry point, \<open>Core_Create\<close> the construction.
\<close>

subsection \<open>Requests of peers\<close>

definition HandleRequestRaftMembership ::
  "('dh, 'hs, 'cs) core_env \<Rightarrow> peer_id \<Rightarrow> ('dh, 'hs, 'cs) core \<Rightarrow> (error \<times> txn_response_inner \<times> ('dh, 'hs, 'cs) core) option" where
  "HandleRequestRaftMembership C from k =
     (if k_state k \<noteq> RAFTSTATE_LOADED_PART_OF_GROUP then Some (E_Core Core_RaftState, TR_NOT_SET, k)
      else do {
        r \<leftarrow> the_raft k;
        let g = Membership_AsProto (active_membership r);
        if list_ex (\<lambda>rep. replica_peer_id rep = PeerID_ToString from) g then Some (E_Core Core_DuplicateMembershipPeer, TR_NOT_SET, k)
        else do {
          let entry = default_entry\<lparr>le_inner := MembershipChange (g @ [\<lparr>replica_peer_id = PeerID_ToString from, replica_voting = False\<rparr>])\<rparr>;
          ((loc, err), k) \<leftarrow> on_raft (LogRequest (ce_raft C) entry) k;
          if err \<noteq> OK then Some (err, TR_NOT_SET, k)
          else do { k \<leftarrow> RaftStep C k; Some (OK, TR_raft_membership_response loc, k) } } })"

text \<open>Setting the flag of the first replica with a given identifier.\<close>

fun set_voting :: "bytes \<Rightarrow> bool \<Rightarrow> replica_group \<Rightarrow> replica_group option" where
  "set_voting pid b [] = None"
| "set_voting pid b (rep # g) =
     (if replica_peer_id rep = pid then Some (rep\<lparr>replica_voting := b\<rparr> # g) else map_option (Cons rep) (set_voting pid b g))"

definition HandleRequestRaftVoting ::
  "('dh, 'hs, 'cs) core_env \<Rightarrow> peer_id \<Rightarrow> ('dh, 'hs, 'cs) core \<Rightarrow> (error \<times> txn_response_inner \<times> ('dh, 'hs, 'cs) core) option" where
  "HandleRequestRaftVoting C from k =
     (if k_state k \<noteq> RAFTSTATE_LOADED_PART_OF_GROUP then Some (E_Core Core_RaftState, TR_NOT_SET, k)
      else do {
        r \<leftarrow> the_raft k;
        let m = active_membership r;
        if from \<notin> set (all_replicas m) then Some (E_Core Core_VotingRequestedForNonMember, TR_NOT_SET, k)
        else if from \<in> set (voting_replicas m) then Some (E_Core Core_VotingRequestedForVotingMember, TR_NOT_SET, k)
        else do {
          let g = Membership_AsProto m;
          let g = (case set_voting (PeerID_ToString from) True g of None \<Rightarrow> g | Some g' \<Rightarrow> g');
          ((loc, err), k) \<leftarrow> on_raft (LogRequest (ce_raft C) (default_entry\<lparr>le_inner := MembershipChange g\<rparr>)) k;
          if err \<noteq> OK then Some (err, TR_NOT_SET, k)
          else do { k \<leftarrow> RaftStep C k; Some (OK, TR_raft_voting_response loc, k) } } })"

definition HandleRaftWrite ::
  "('dh, 'hs, 'cs) core_env \<Rightarrow> bytes \<Rightarrow> ('dh, 'hs, 'cs) core \<Rightarrow> (error \<times> txn_response_inner \<times> ('dh, 'hs, 'cs) core) option" where
  "HandleRaftWrite C data k =
     (if k_state k \<noteq> RAFTSTATE_LOADED_PART_OF_GROUP then Some (E_Core Core_RaftState, TR_NOT_SET, k)
      else do {
        r \<leftarrow> the_raft k;
        if \<not> enough_voters k r then Some (E_Core Core_NotEnoughVotingReplicas, TR_NOT_SET, k)
        else (case ce_parse_entry C data of
            None \<Rightarrow> Some (E_Core Core_DeserializeRaftWrite, TR_NOT_SET, k)
          | Some entry \<Rightarrow> do {
              ((loc, err), k) \<leftarrow> on_raft (LogRequest (ce_raft C) entry) k;
              if err \<noteq> OK then Some (err, TR_NOT_SET, k)
              else do { k \<leftarrow> RaftStep C k; Some (OK, TR_raft_write loc, k) } }) })"

definition HandlePeerRequestedRaftRemoval ::
  "('dh, 'hs, 'cs) core_env \<Rightarrow> peer_id \<Rightarrow> nat \<Rightarrow> ('dh, 'hs, 'cs) core \<Rightarrow> (error \<times> ('dh, 'hs, 'cs) core) option" where
  "HandlePeerRequestedRaftRemoval C from tx k =
     (let fail = (\<lambda>err k. do { (e, k) \<leftarrow> SendE2EError C from tx err k; Some (OK, k) }) in
      if k_state k \<noteq> RAFTSTATE_LOADED_PART_OF_GROUP then fail (E_Core Core_RaftState) k
      else do {
        r \<leftarrow> the_raft k;
        let g = Membership_AsProto (active_membership r);
        let remaining = filter (\<lambda>rep. replica_peer_id rep \<noteq> PeerID_ToString from) g;
        if remaining = g then fail (E_Core Core_RemoveNonexistentMember) k
        else do {
          ((loc, err), k) \<leftarrow> on_raft (LogRequest (ce_raft C) (default_entry\<lparr>le_inner := MembershipChange remaining\<rparr>)) k;
          if err \<noteq> OK then fail err k
          else do { k \<leftarrow> RaftStep C (AddLogTransaction loc (LC_Removal from tx) k); Some (OK, k) } } })"

text \<open>The set of peers whose clocks count: the voters of the group, or all connected peers outside of one.\<close>

definition clock_peers :: "('dh, 'hs, 'cs) core \<Rightarrow> peer_id list option" where
  "clock_peers k =
     (case k_state k of
        RAFTSTATE_LOADED_PART_OF_GROUP \<Rightarrow> map_option (voting_replicas \<circ> active_membership) (the_raft k)
      | RAFTSTATE_LOADED_REQUESTING_MEMBERSHIP \<Rightarrow> map_option (voting_replicas \<circ> active_membership) (the_raft k)
      | RAFTSTATE_LOADING \<Rightarrow> map_option voting_replicas (ld_mem (k_loading k))
      | _ \<Rightarrow> Some (ConnectedPeers (k_peers k)))"

definition set_attestation_time ::
  "('dh, 'hs, 'cs) core_env \<Rightarrow> int \<Rightarrow> ('dh, 'hs, 'cs) core \<Rightarrow> ('dh, 'hs, 'cs) core option" where
  "set_attestation_time C ts k = do {
     (x, k) \<leftarrow> with_peers (\<lambda>m. map_option (\<lambda>(m, out). (m, out, ()))
       (SetPeerAttestationTimestamp (ce_host C) ts (int (gc_attestation_timeout (k_template k))) m)) k;
     Some k }"

definition MaybeUpdateGroupTime ::
  "('dh, 'hs, 'cs) core_env \<Rightarrow> ('dh, 'hs, 'cs) core \<Rightarrow> ('dh, 'hs, 'cs) core option" where
  "MaybeUpdateGroupTime C k = do { ps \<leftarrow> clock_peers k; set_attestation_time C (GetTime (k_clock k) ps) k }"

definition HandleNewTimestamp ::
  "('dh, 'hs, 'cs) core_env \<Rightarrow> peer_id \<Rightarrow> nat \<Rightarrow> ('dh, 'hs, 'cs) core \<Rightarrow> ('dh, 'hs, 'cs) core option" where
  "HandleNewTimestamp C from unix_secs k =
     MaybeUpdateGroupTime C (k\<lparr>k_clock := SetRemoteTime (k_clock k) from (int unix_secs)\<rparr>)"

definition get_raft_response :: "('dh, 'hs, 'cs) core \<Rightarrow> (error \<times> txn_response_inner \<times> ('dh, 'hs, 'cs) core) option" where
  "get_raft_response k =
     (if k_state k \<noteq> RAFTSTATE_LOADED_PART_OF_GROUP then Some (E_Core Core_RaftState, TR_NOT_SET, k)
      else do {
        r \<leftarrow> the_raft k;
        Some (OK, TR_get_raft (lo_group_config (k_loaded k)) (Membership_AsProto (active_membership r)), k) })"

text \<open>The end of \<^verbatim>\<open>HandleE2ETransaction\<close>: an error or an empty response is sent as a status.\<close>

definition reply_to_peer ::
  "('dh, 'hs, 'cs) core_env \<Rightarrow> peer_id \<Rightarrow> nat \<Rightarrow> error \<times> txn_response_inner \<times> ('dh, 'hs, 'cs) core \<Rightarrow>
     (error \<times> ('dh, 'hs, 'cs) core) option" where
  "reply_to_peer C from request_id res =
     (let (err, inner, k) = res in
      if err \<noteq> OK \<or> inner = TR_NOT_SET then SendE2EError C from request_id err k
      else core_SendToPeer C from (E2E_transaction_response \<lparr>tp_request_id = request_id, tp_inner = inner\<rparr>) k)"

definition HandleE2ETransaction ::
  "('dh, 'hs, 'cs) core_env \<Rightarrow> peer_id \<Rightarrow> transaction_request \<Rightarrow> ('dh, 'hs, 'cs) core \<Rightarrow> (error \<times> ('dh, 'hs, 'cs) core) option" where
  "HandleE2ETransaction C from msg k =
     (let reply = reply_to_peer C from (tq_request_id msg) in
      case tq_inner msg of
        TX_ping b \<Rightarrow> reply (OK, TR_status OK, k)
      | TX_get_raft b \<Rightarrow> do { res \<leftarrow> get_raft_response k; reply res }
      | TX_replicate_state grp repl \<Rightarrow> HandleReplicateStateRequest C from (tq_request_id msg) grp repl k
      | TX_replicate_state_push push \<Rightarrow> do { (err, k) \<leftarrow> HandleReplicateStatePush C push k; reply (err, TR_NOT_SET, k) }
      | TX_raft_membership_request b \<Rightarrow> do { res \<leftarrow> HandleRequestRaftMembership C from k; reply res }
      | TX_raft_voting_request b \<Rightarrow> do { res \<leftarrow> HandleRequestRaftVoting C from k; reply res }
      | TX_raft_write data \<Rightarrow> do { res \<leftarrow> HandleRaftWrite C data k; reply res }
      | TX_new_timestamp_unix_secs secs \<Rightarrow> do { k \<leftarrow> HandleNewTimestamp C from secs k; reply (OK, TR_NOT_SET, k) }
      | TX_raft_removal_request b \<Rightarrow> HandlePeerRequestedRaftRemoval C from (tq_request_id msg) k
      | TX_NOT_SET \<Rightarrow> reply (General_Unimplemented, TR_NOT_SET, k))"

definition HandlePeerConnect ::
  "('dh, 'hs, 'cs) core_env \<Rightarrow> peer_id \<Rightarrow> ('dh, 'hs, 'cs) core \<Rightarrow> ('dh, 'hs, 'cs) core option" where
  "HandlePeerConnect C from k = do {
     k \<leftarrow> SendTimestamp C from (GetLocalTime (k_clock k)) k;
     (case k_state k of
        RAFTSTATE_LOADING \<Rightarrow> if \<not> ld_started (k_loading k) then RequestRaftReplication C k else Some k
      | RAFTSTATE_WAITING_FOR_FIRST_CONNECTION \<Rightarrow> if from = wf_peer (k_waiting k) then JoinRaftFromFirstPeer C k else Some k
      | RAFTSTATE_LOADED_REQUESTING_MEMBERSHIP \<Rightarrow> step_raft (ResetPeer from) k
      | RAFTSTATE_LOADED_PART_OF_GROUP \<Rightarrow> step_raft (ResetPeer from) k
      | RAFTSTATE_NO_STATE \<Rightarrow> Some k) }"

definition in_group :: "('dh, 'hs, 'cs) core \<Rightarrow> bool" where
  "in_group k = (k_state k = RAFTSTATE_LOADED_PART_OF_GROUP \<or> k_state k = RAFTSTATE_LOADED_REQUESTING_MEMBERSHIP)"

definition HandleE2EResponse ::
  "('dh, 'hs, 'cs) core_env \<Rightarrow> transaction_response \<Rightarrow> ('dh, 'hs, 'cs) core \<Rightarrow> ('dh, 'hs, 'cs) core option" where
  "HandleE2EResponse C resp k =
     (case map_of (k_e2e_txns k) (tp_request_id resp) of
        None \<Rightarrow> Some k
      | Some call \<Rightarrow>
          e2e_responded C (ca_callback call) resp
            (k\<lparr>k_e2e_txns := om_del (tp_request_id resp) (k_e2e_txns k), k_timeout := CancelTimeout (k_timeout k) (ca_timeout_cancel call)\<rparr>))"

definition HandleE2E ::
  "('dh, 'hs, 'cs) core_env \<Rightarrow> peer_id \<Rightarrow> e2e_message \<Rightarrow> ('dh, 'hs, 'cs) core \<Rightarrow> (error \<times> ('dh, 'hs, 'cs) core) option" where
  "HandleE2E C from msg k =
     (case msg of
        E2E_connected b \<Rightarrow> map_option (Pair OK) (HandlePeerConnect C from k)
      | E2E_raft_message m \<Rightarrow>
          if \<not> in_group k then Some (E_Core Core_RaftState, k)
          else do { k \<leftarrow> step_raft (Receive (ce_raft C) m from) k; k \<leftarrow> RaftStep C k; Some (OK, k) }
      | E2E_transaction_request req \<Rightarrow> HandleE2ETransaction C from req k
      | E2E_transaction_response resp \<Rightarrow> map_option (Pair OK) (HandleE2EResponse C resp k)
      | _ \<Rightarrow> Some (General_Unimplemented, k))"

definition HandlePeerMessage ::
  "('dh, 'hs, 'cs) core_env \<Rightarrow> peer_message \<Rightarrow> ('dh, 'hs, 'cs) core \<Rightarrow> (error \<times> ('dh, 'hs, 'cs) core) option" where
  "HandlePeerMessage C msg k =
     (case PeerID_FromString (pm_peer_id msg) of
        Inl _ \<Rightarrow> None
      | Inr from \<Rightarrow> do {
          let (seed, k) = draw k;
          ((err, decoded), k) \<leftarrow> with_peers (RecvFromPeer (ce_noise C) (ce_host C) seed (k_minimums k) msg) k;
          if err \<noteq> OK then Some (err, k)
          else (case decoded of None \<Rightarrow> Some (OK, k) | Some e2e \<Rightarrow> HandleE2E C from e2e k) })"

subsection \<open>Resets and time\<close>

fun run_failed ::
  "('dh, 'hs, 'cs) core_env \<Rightarrow> error \<Rightarrow> e2e_callback list \<Rightarrow> ('dh, 'hs, 'cs) core \<Rightarrow> ('dh, 'hs, 'cs) core option" where
  "run_failed C err [] k = Some k"
| "run_failed C err (cb # cbs) k = do { k \<leftarrow> e2e_failed C cb err k; run_failed C err cbs k }"

definition Core_ResetPeer ::
  "('dh, 'hs, 'cs) core_env \<Rightarrow> peer_id \<Rightarrow> ('dh, 'hs, 'cs) core \<Rightarrow> (error \<times> ('dh, 'hs, 'cs) core) option" where
  "Core_ResetPeer C i k = do {
     let cancelled = map snd (filter (\<lambda>(tx, call). ca_to call = i) (k_e2e_txns k));
     let k = k\<lparr>k_e2e_txns := filter (\<lambda>(tx, call). ca_to call \<noteq> i) (k_e2e_txns k),
               k_timeout := fold (\<lambda>call t. CancelTimeout t (ca_timeout_cancel call)) cancelled (k_timeout k)\<rparr>;
     (err, k) \<leftarrow> with_peers (PeerManager_ResetPeer (ce_host C) i) k;
     k \<leftarrow> run_failed C (E_Core Core_E2ETransactionReset) (map ca_callback cancelled) k;
     Some (err, k) }"

definition run_timeout_fn ::
  "('dh, 'hs, 'cs) core_env \<Rightarrow> timeout_fn \<Rightarrow> ('dh, 'hs, 'cs) core \<Rightarrow> ('dh, 'hs, 'cs) core option" where
  "run_timeout_fn C f k =
     (case f of
        TF_RequestMembership tx \<Rightarrow>
          if k_state k = RAFTSTATE_LOADED_REQUESTING_MEMBERSHIP then RaftRequestMembership C tx k else Some k
      | TF_SendTimestampToAll \<Rightarrow> SendTimestampToAll C k
      | TF_E2ETimeout tx to \<Rightarrow>
          (case map_of (k_e2e_txns k) tx of
             None \<Rightarrow> Some k
           | Some call \<Rightarrow>
               e2e_failed C (ca_callback call) (E_Core Core_E2ETransactionTimeout) (k\<lparr>k_e2e_txns := om_del tx (k_e2e_txns k)\<rparr>)))"

fun run_timeout_fns ::
  "('dh, 'hs, 'cs) core_env \<Rightarrow> timeout_fn list \<Rightarrow> ('dh, 'hs, 'cs) core \<Rightarrow> ('dh, 'hs, 'cs) core option" where
  "run_timeout_fns C [] k = Some k"
| "run_timeout_fns C (f # fs) k = do { k \<leftarrow> run_timeout_fn C f k; run_timeout_fns C fs k }"

fun connect_members ::
  "('dh, 'hs, 'cs) core_env \<Rightarrow> peer_id list \<Rightarrow> ('dh, 'hs, 'cs) core \<Rightarrow> ('dh, 'hs, 'cs) core option" where
  "connect_members C [] k = Some k"
| "connect_members C (p # ps) k =
     (if p = core_ID k \<or> p < core_ID k then connect_members C ps k
      else do { (err, k) \<leftarrow> core_MaybeConnectToPeer C p k; connect_members C ps k })"

definition ConnectToRaftMembers ::
  "('dh, 'hs, 'cs) core_env \<Rightarrow> ('dh, 'hs, 'cs) core \<Rightarrow> ('dh, 'hs, 'cs) core option" where
  "ConnectToRaftMembers C k = do { r \<leftarrow> the_raft k; connect_members C (all_replicas (active_membership r)) k }"

text \<open>The non-voting replica that was heard of most recently.\<close>

definition most_recent_nonvoting :: "raft \<Rightarrow> membership \<Rightarrow> bytes \<times> int" where
  "most_recent_nonvoting r m =
     fold (\<lambda>peer (pid, mn). if last_seen_ticks r peer < mn \<and> peer \<notin> set (voting_replicas m)
                            then (PeerID_ToString peer, last_seen_ticks r peer) else (pid, mn))
       (all_replicas m) ([], InvalidTicks)"

definition seen_longer_ago :: "raft \<Rightarrow> nat \<Rightarrow> peer_id \<Rightarrow> bool" where
  "seen_longer_ago r ticks peer = (last_seen_ticks r peer \<noteq> InvalidTicks \<and> last_seen_ticks r peer > int ticks)"

fun first_some :: "('a \<Rightarrow> 'b option) \<Rightarrow> 'a list \<Rightarrow> 'b option" where
  "first_some f [] = None"
| "first_some f (x # xs) = (case f x of None \<Rightarrow> first_some f xs | Some y \<Rightarrow> Some y)"

fun erase_replica :: "bytes \<Rightarrow> replica_group \<Rightarrow> replica_group option" where
  "erase_replica pid [] = None"
| "erase_replica pid (rep # g) = (if replica_peer_id rep = pid then Some g else map_option (Cons rep) (erase_replica pid g))"

definition promotion :: "raft_group_config \<Rightarrow> raft \<Rightarrow> membership \<Rightarrow> replica_group option" where
  "promotion cfg r m =
     (if length (voting_replicas m) < gc_max_voting_replicas cfg \<and> length (all_replicas m) > length (voting_replicas m) then
        let (pid, mn) = most_recent_nonvoting r m in
        if pid \<noteq> [] \<and> mn < int (cfg_election_ticks (r_config r)) then set_voting pid True (Membership_AsProto m) else None
      else None)"

definition demotion :: "raft_group_config \<Rightarrow> raft \<Rightarrow> membership \<Rightarrow> replica_group option" where
  "demotion cfg r m =
     (if length (voting_replicas m) > gc_min_voting_replicas cfg then
        first_some (\<lambda>peer. if seen_longer_ago r (cfg_replica_voting_timeout_ticks (r_config r)) peer
                           then set_voting (PeerID_ToString peer) False (Membership_AsProto m) else None) (voting_replicas m)
      else None)"

definition removal :: "raft \<Rightarrow> membership \<Rightarrow> replica_group option" where
  "removal r m =
     (if length (all_replicas m) > length (voting_replicas m) then
        first_some (\<lambda>peer. if peer \<notin> set (voting_replicas m) \<and>
                              seen_longer_ago r (cfg_replica_membership_timeout_ticks (r_config r)) peer
                           then erase_replica (PeerID_ToString peer) (Membership_AsProto m) else None) (all_replicas m)
      else None)"

definition NextReplicaGroup :: "('dh, 'hs, 'cs) core \<Rightarrow> replica_group option option" where
  "NextReplicaGroup k =
     (if k_state k \<noteq> RAFTSTATE_LOADED_PART_OF_GROUP then Some None
      else do {
        r \<leftarrow> the_raft k;
        let m = active_membership r;
        let cfg = lo_group_config (k_loaded k);
        Some (if raft_leader r = None then None
              else case promotion cfg r m of
                  Some g \<Rightarrow> Some g
                | None \<Rightarrow> (case demotion cfg r m of Some g \<Rightarrow> Some g | None \<Rightarrow> removal r m)) })"

definition HandleTimerTick ::
  "('dh, 'hs, 'cs) core_env \<Rightarrow> nat \<Rightarrow> ('dh, 'hs, 'cs) core \<Rightarrow> ('dh, 'hs, 'cs) core option" where
  "HandleTimerTick C new_timestamp k = do {
     k \<leftarrow> MaybeUpdateGroupTime C (k\<lparr>k_clock := SetLocalTime (k_clock k) (int new_timestamp)\<rparr>);
     (timer, fns) \<leftarrow> Timeout_TimerTick (k_timeout k);
     k \<leftarrow> run_timeout_fns C (map snd fns) (k\<lparr>k_timeout := timer\<rparr>);
     if k_state k \<noteq> RAFTSTATE_LOADED_PART_OF_GROUP then Some k
     else do {
       k \<leftarrow> ConnectToRaftMembers C k;
       k \<leftarrow> step_raft (TimerTick (ce_raft C)) k;
       r \<leftarrow> the_raft k;
       k \<leftarrow> (if r_role r \<noteq> LEADER then Some k
             else do {
               next_group \<leftarrow> NextReplicaGroup k;
               (case next_group of
                  None \<Rightarrow> Some k
                | Some g \<Rightarrow> map_option snd (on_raft (LogRequest (ce_raft C) (default_entry\<lparr>le_inner := MembershipChange g\<rparr>)) k)) });
       RaftStep C k } }"

end
