(* ===== verification/CoreHost.thy ===== *)
theory CoreHost
  imports Core
begin

text \<open>
  src/enclave/core/core.cc: the requests of the host, the entry point \<open>Core_Receive\<close>, and the construction of a core.
\<close>

subsection \<open>Clients\<close>

definition HandleNewClient ::
  "('dh, 'hs, 'cs) core_env \<Rightarrow> bytes \<Rightarrow> nat \<Rightarrow> ('dh, 'hs, 'cs) core \<Rightarrow> ('dh, 'hs, 'cs) core option" where
  "HandleNewClient C authenticated_id tx k = do {
     let (seed, k) = draw k;
     (cm, client, err) \<leftarrow> NewClient (ce_noise C) seed authenticated_id (k_clients k);
     let k = k\<lparr>k_clients := cm\<rparr>;
     if err \<noteq> OK then ReplyWithError C tx err k
     else do {
       c \<leftarrow> client;
       let (start, c) = MovedHandshakeStart c;
       respond C tx (HR_new_client_reply (c_id c) start) (k\<lparr>k_clients := put_client c (k_clients k)\<rparr>) } }"

definition HandleExistingClient ::
  "('dh, 'hs, 'cs) core_env \<Rightarrow> nat \<Rightarrow> bytes \<Rightarrow> nat \<Rightarrow> ('dh, 'hs, 'cs) core \<Rightarrow> (error \<times> ('dh, 'hs, 'cs) core) option" where
  "HandleExistingClient C client_id data tx k =
     (case GetClient client_id (k_clients k) of
        None \<Rightarrow> Some (E_Core Core_ClientNotFound, k)
      | Some c \<Rightarrow>
          if Handshaking c then do {
            let (c, handshake, err) = FinishHandshake (ce_noise C) data c;
            let k = k\<lparr>k_clients := put_client c (k_clients k)\<rparr>;
            if err \<noteq> OK then Some (err, k)
            else do { k \<leftarrow> respond C tx (HR_existing_client_reply handshake False) k; Some (OK, k) } }
          else do {
            (c, request, err) \<leftarrow> DecryptRequest (ce_noise C) (RequestPB (ce_db C) (k_protocol k)) data c;
            let k = k\<lparr>k_clients := put_client c (k_clients k)\<rparr>;
            (case request of
               None \<Rightarrow> Some (err, k)
             | Some req \<Rightarrow> do {
                 let (d, k) = draw k;
                 (case LogPBFromRequest (k_protocol k) (ce_new_key C d) req (c_authenticated_id c) of
                    (None, err) \<Rightarrow> Some (err, k)
                  | (Some log, _) \<Rightarrow>
                      if ValidateClientLog (k_protocol k) log \<noteq> OK then Some (ValidateClientLog (k_protocol k) log, k)
                      else (case ser_log (ce_db C) log of
                          None \<Rightarrow> Some (E_Core Core_SerializeClientLog, k)
                        | Some serialized \<Rightarrow>
                            RaftWriteLogTransaction C (default_entry\<lparr>le_inner := Data serialized\<rparr>) (LC_Client client_id tx) k)) }) })"

definition HandleHostDatabaseRequest ::
  "('dh, 'hs, 'cs) core_env \<Rightarrow> nat \<Rightarrow> bytes \<Rightarrow> bytes \<Rightarrow> ('dh, 'hs, 'cs) core \<Rightarrow> (error \<times> ('dh, 'hs, 'cs) core) option" where
  "HandleHostDatabaseRequest C tx authenticated_id request k =
     (case RequestPB (ce_db C) (k_protocol k) request of
        None \<Rightarrow> Some (E_Core Core_DeserializeHostDatabaseRequest, k)
      | Some req \<Rightarrow> do {
          let (d, k) = draw k;
          (case LogPBFromRequest (k_protocol k) (ce_new_key C d) req authenticated_id of
             (None, err) \<Rightarrow> Some (err, k)
           | (Some log, _) \<Rightarrow>
               (case ser_log (ce_db C) log of
                  None \<Rightarrow> Some (E_Core Core_SerializeClientLog, k)
                | Some serialized \<Rightarrow> RaftWriteLogTransaction C (default_entry\<lparr>le_inner := Data serialized\<rparr>) (LC_Reply tx) k)) })"

subsection \<open>The group\<close>

definition HandleCreateNewRaftGroupRequest ::
  "('dh, 'hs, 'cs) core_env \<Rightarrow> nat \<Rightarrow> ('dh, 'hs, 'cs) core \<Rightarrow> ('dh, 'hs, 'cs) core option" where
  "HandleCreateNewRaftGroupRequest C tx k = do {
     k \<leftarrow> (if k_state k \<noteq> RAFTSTATE_NO_STATE then ReplyWithError C tx (E_Core Core_RaftState) k else Some k);
     let (d, k) = draw k;
     let (group_id_bytes, gid_err) = RandomBytes (ce_host C) d 8;
     k \<leftarrow> (if gid_err \<noteq> OK then ReplyWithError C tx gid_err k else Some k);
     let group_id = unat (BigEndian64FromBytes (out_array 8 group_id_bytes));
     let cfg = (k_template k)\<lparr>gc_group_id := group_id, gc_db_version := k_db_version k\<rparr>;
     let raft_config = ec_raft (k_config k);
     let (rnd, k) = draw (k\<lparr>k_state := RAFTSTATE_LOADED_PART_OF_GROUP\<rparr>);
     r \<leftarrow> Raft_new (ce_raft C) group_id (core_ID k) (k_tree k) (Membership_First (core_ID k))
            (Log_init (cfg_log_max_bytes raft_config)) raft_config False (gc_super_majority cfg) rnd;
     (l, t) \<leftarrow> Leaf_new (r_merkle r);
     k \<leftarrow> assign_loaded C \<lparr>lo_group_config = cfg, lo_raft = Some r, lo_db = Some (NewDB (k_protocol k)), lo_last_applied = 0,
                           lo_leaf = Some l\<rparr> (k\<lparr>k_tree := t\<rparr>);
     k \<leftarrow> UpdateLastAppliedLog C 0 k;
     k \<leftarrow> RaftStep C k;
     ReplyWithError C tx OK k }"

definition HandleJoinRaft ::
  "('dh, 'hs, 'cs) core_env \<Rightarrow> bytes \<Rightarrow> nat \<Rightarrow> ('dh, 'hs, 'cs) core \<Rightarrow> ('dh, 'hs, 'cs) core option" where
  "HandleJoinRaft C peer_id_bytes tx k =
     (if k_state k = RAFTSTATE_LOADED_PART_OF_GROUP then ReplyWithError C tx (E_Core Core_RaftState) k
      else case PeerID_FromString peer_id_bytes of
          Inl _ \<Rightarrow> ReplyWithError C tx (E_Core Core_RaftState) k
        | Inr peer \<Rightarrow> do {
            k \<leftarrow> ClearState C k;
            let k = k\<lparr>k_state := RAFTSTATE_WAITING_FOR_FIRST_CONNECTION, k_waiting := \<lparr>wf_peer = peer, wf_join_tx = tx\<rparr>\<rparr>;
            (case PeerManager_PeerState peer (k_peers k) of
               PEER_CONNECTED \<Rightarrow> JoinRaftFromFirstPeer C k
             | PEER_CONNECTING \<Rightarrow> Some k
             | PEER_DISCONNECTED \<Rightarrow>
                 (let (seed, k) = draw k in map_option snd (with_peers (ConnectToPeer (ce_noise C) (ce_host C) seed peer) k))) })"

definition HandleRequestVoting ::
  "('dh, 'hs, 'cs) core_env \<Rightarrow> nat \<Rightarrow> ('dh, 'hs, 'cs) core \<Rightarrow> ('dh, 'hs, 'cs) core option" where
  "HandleRequestVoting C tx k =
     (if k_state k \<noteq> RAFTSTATE_LOADED_PART_OF_GROUP then ReplyWithError C tx (E_Core Core_RaftState) k
      else do {
        r \<leftarrow> the_raft k;
        if voting r then ReplyWithError C tx (E_Core Core_VotingRequestedForVotingMember) k
        else (case raft_leader r of
            None \<Rightarrow> ReplyWithError C tx (E_Core Core_LeaderUnknown) k
          | Some leader \<Rightarrow> SendE2ETransaction C leader (TX_raft_voting_request True) True (CB_Reply tx) k) })"

definition HandleRelinquishLeadership ::
  "('dh, 'hs, 'cs) core_env \<Rightarrow> nat \<Rightarrow> ('dh, 'hs, 'cs) core \<Rightarrow> ('dh, 'hs, 'cs) core option" where
  "HandleRelinquishLeadership C tx k =
     (if k_state k \<noteq> RAFTSTATE_LOADED_PART_OF_GROUP then ReplyWithError C tx OK k
      else do {
        r \<leftarrow> the_raft k;
        if r_role r \<noteq> LEADER then ReplyWithError C tx OK k
        else do {
          k \<leftarrow> step_raft (RelinquishLeadership (ce_raft C)) k;
          r \<leftarrow> the_raft k;
          let loc = \<lparr>loc_term = u64_add (last_term (r_log r)) 1, loc_idx = next_idx (r_log r), loc_hash_chain = []\<rparr>;
          RaftStep C (AddLogTransaction loc (LC_Reply tx) k) } })"

definition HandleHostRequestedRaftRemoval ::
  "('dh, 'hs, 'cs) core_env \<Rightarrow> nat \<Rightarrow> ('dh, 'hs, 'cs) core \<Rightarrow> ('dh, 'hs, 'cs) core option" where
  "HandleHostRequestedRaftRemoval C tx k =
     (if k_state k \<noteq> RAFTSTATE_LOADED_PART_OF_GROUP then ReplyWithError C tx (E_Core Core_RaftState) k
      else do {
        r \<leftarrow> the_raft k;
        if r_role r = LEADER then ReplyWithError C tx (E_Core Core_LeaderRemovingSelf) k
        else (case raft_leader r of
            None \<Rightarrow> ReplyWithError C tx (E_Core Core_LeaderUnknown) k
          | Some leader \<Rightarrow> SendE2ETransaction C leader (TX_raft_removal_request True) True (CB_Reply tx) k) })"

subsection \<open>Configuration, attestation and status\<close>

definition HandleReconfigure ::
  "('dh, 'hs, 'cs) core_env \<Rightarrow> enclave_config \<Rightarrow> ('dh, 'hs, 'cs) core \<Rightarrow> (error \<times> ('dh, 'hs, 'cs) core) option" where
  "HandleReconfigure C req k =
     (let new_config = EnclaveConfig_MergeFrom DefaultEnclaveConfig req; err = ValidateConfigChange (k_config k) new_config in
      if err \<noteq> OK then Some (err, k)
      else
        let k = k\<lparr>k_config := new_config\<rparr> in
        if in_group k then do { k \<leftarrow> step_raft (\<lambda>r. Some (Reconfigure (ec_raft new_config) r)) k; Some (OK, k) }
        else Some (OK, k))"

definition HandleRefreshAttestation ::
  "('dh, 'hs, 'cs) core_env \<Rightarrow> bool \<Rightarrow> ('dh, 'hs, 'cs) core \<Rightarrow> (error \<times> ('dh, 'hs, 'cs) core) option" where
  "HandleRefreshAttestation C rotate_key k =
     (let refresh = (\<lambda>config.
            if rotate_key then
              let (seed, k) = draw k; (cm, err) = RotateKeyAndRefreshAttestation (ce_noise C) (ce_host C) seed config (k_clients k)
              in Some (err, k\<lparr>k_clients := cm\<rparr>)
            else do {
              (cm, err) \<leftarrow> ClientManager_RefreshAttestation (ce_noise C) (ce_host C) config (k_clients k);
              Some (err, k\<lparr>k_clients := cm\<rparr>) })
      in case k_state k of
           RAFTSTATE_LOADING \<Rightarrow> refresh (ld_group_config (k_loading k))
         | RAFTSTATE_LOADED_REQUESTING_MEMBERSHIP \<Rightarrow> refresh (lo_group_config (k_loaded k))
         | RAFTSTATE_LOADED_PART_OF_GROUP \<Rightarrow> refresh (lo_group_config (k_loaded k))
         | _ \<Rightarrow> Some (E_Core Core_RefreshClientAttestationWithoutRaftConfig, k))"

definition HandleUpdateMinimums ::
  "('dh, 'hs, 'cs) core_env \<Rightarrow> nat \<Rightarrow> minimum_limits \<Rightarrow> ('dh, 'hs, 'cs) core \<Rightarrow> ('dh, 'hs, 'cs) core option" where
  "HandleUpdateMinimums C tx update k =
     (let (err, to_check) = UpdateLimits update (k_minimums k) in
      if err \<noteq> OK then ReplyWithError C tx err k
      else
        let err = CheckPeerMinimums to_check (k_peers k) in
        if err \<noteq> OK then ReplyWithError C tx err k
        else do {
          (err, k) \<leftarrow> RaftWriteLogTransaction C (default_entry\<lparr>le_inner := log_inner.Minimums update\<rparr>) (LC_Reply tx) k;
          if err \<noteq> OK then ReplyWithError C tx err k else Some k })"

definition no_connection :: connection_status where
  "no_connection = \<lparr>cn_state = PEER_DISCONNECTED, cn_last_attestation_unix_secs = 0\<rparr>"

definition no_status :: replication_status where
  "no_status = \<lparr>st_next_index = 0, st_match_index = 0, st_inflight_index = 0, st_probing = False\<rparr>"

definition peer_status :: "('dh, 'hs, 'cs) core \<Rightarrow> peer_id \<Rightarrow> membership \<Rightarrow> peer_id \<Rightarrow> enclave_peer_status" where
  "peer_status k leader m p =
     \<lparr>ps_peer_id = PeerID_ToString p, ps_replication_status = None, ps_in_raft = (p \<in> set (all_replicas m)),
      ps_is_leader = (p = leader), ps_is_voting = (p \<in> set (voting_replicas m)), ps_me = (p = core_ID k),
      ps_connection_status = (case PeerManager_PeerStatus p (k_peers k) of None \<Rightarrow> no_connection | Some c \<Rightarrow> c)\<rparr>"

fun peer_statuses ::
  "('dh, 'hs, 'cs) core \<Rightarrow> peer_id \<Rightarrow> membership \<Rightarrow> peer_id list \<Rightarrow> (enclave_peer_status list \<times> error) option" where
  "peer_statuses k leader m [] = Some ([], OK)"
| "peer_statuses k leader m (p # ps) =
     (if leader = core_ID k \<and> p \<noteq> core_ID k then do {
        r \<leftarrow> the_raft k;
        (err, st) \<leftarrow> FollowerReplicationStatus r p no_status;
        let s = (peer_status k leader m p)\<lparr>ps_replication_status := Some st\<rparr>;
        if err \<noteq> OK then Some ([s], err)
        else do { (ss, err) \<leftarrow> peer_statuses k leader m ps; Some (s # ss, err) } }
      else do { (ss, err) \<leftarrow> peer_statuses k leader m ps; Some (peer_status k leader m p # ss, err) })"

definition HandleGetEnclaveStatus :: "('dh, 'hs, 'cs) core \<Rightarrow> (enclave_replica_status \<times> error) option" where
  "HandleGetEnclaveStatus k = do {
     (leader, m) \<leftarrow> (if k_state k = RAFTSTATE_LOADED_PART_OF_GROUP
                     then do { r \<leftarrow> the_raft k;
                               Some (case raft_leader r of None \<Rightarrow> zero_id | Some p \<Rightarrow> p, active_membership r) }
                     else Some (zero_id, empty_membership));
     (ss, err) \<leftarrow> peer_statuses k leader m (os_insert (core_ID k) (AllPeers (k_peers k)));
     Some (\<lparr>er_peers = ss, er_raft_state = k_state k\<rparr>, err) }"

definition HandleHostHashes ::
  "('dh, 'hs, 'cs) core_env \<Rightarrow> nat \<Rightarrow> ('dh, 'hs, 'cs) core \<Rightarrow> (error \<times> ('dh, 'hs, 'cs) core) option" where
  "HandleHostHashes C tx k =
     (if \<not> in_group k then Some (E_Core Core_RaftState, k)
      else do {
        db \<leftarrow> lo_db (k_loaded k);
        db_hash \<leftarrow> DB_Hash (ce_db C) (db, k_tree k);
        r \<leftarrow> the_raft k;
        (case Iter_Entry (r_log r) (At (r_log r) (lo_last_applied (k_loaded k))) of
           None \<Rightarrow> Some (E_Core Core_LogNotFoundAtCommitIndex, k)
         | Some log \<Rightarrow> do {
             k \<leftarrow> respond C tx (HR_hashes (out_array 32 db_hash) (lo_last_applied (k_loaded k)) (le_hash_chain log)) k;
             Some (OK, k) }) })"

subsection \<open>Dispatch\<close>

abbreviation LOG_LEVEL_MAX :: nat where "LOG_LEVEL_MAX \<equiv> 7"

definition reply_after ::
  "('dh, 'hs, 'cs) core_env \<Rightarrow> nat \<Rightarrow> (error \<times> ('dh, 'hs, 'cs) core) option \<Rightarrow> (error \<times> ('dh, 'hs, 'cs) core) option" where
  "reply_after C tx res = do { (err, k) \<leftarrow> res; k \<leftarrow> ReplyWithError C tx err k; Some (OK, k) }"

definition HandleHostToEnclave ::
  "('dh, 'hs, 'cs) core_env \<Rightarrow> h2e_request \<Rightarrow> ('dh, 'hs, 'cs) core \<Rightarrow> (error \<times> ('dh, 'hs, 'cs) core) option" where
  "HandleHostToEnclave C msg k =
     (let tx = hq_request_id msg in
      if tx = 0 then Some (E_Core Core_HostToEnclaveTransactionID, k)
      else case hq_inner msg of
          HQ_new_client aid \<Rightarrow> map_option (Pair OK) (HandleNewClient C aid tx k)
        | HQ_existing_client cid data \<Rightarrow> do {
            (err, k) \<leftarrow> HandleExistingClient C cid data tx k;
            if err \<noteq> OK then reply_after C tx (Some (err, remove_client cid k)) else Some (OK, k) }
        | HQ_close_client cid \<Rightarrow> reply_after C tx (Some (OK, remove_client cid k))
        | HQ_create_new_raft_group \<Rightarrow> map_option (Pair OK) (HandleCreateNewRaftGroupRequest C tx k)
        | HQ_join_raft peer \<Rightarrow> map_option (Pair OK) (HandleJoinRaft C peer tx k)
        | HQ_ping_peer peer \<Rightarrow>
            (case PeerID_FromString peer of
               Inl err \<Rightarrow> reply_after C tx (Some (err, k))
             | Inr p \<Rightarrow> map_option (Pair OK) (SendE2ETransaction C p (TX_ping True) True (CB_Reply tx) k))
        | HQ_refresh_attestation rot \<Rightarrow> do {
            (peer_err, k) \<leftarrow> with_peers (PeerManager_RefreshAttestation (ce_noise C) (ce_host C)) k;
            (client_err, k) \<leftarrow> HandleRefreshAttestation C rot k;
            reply_after C tx (Some (if peer_err \<noteq> OK then peer_err else client_err, k)) }
        | HQ_request_voting \<Rightarrow> map_option (Pair OK) (HandleRequestVoting C tx k)
        | HQ_get_enclave_status \<Rightarrow> do {
            (status, err) \<leftarrow> HandleGetEnclaveStatus k;
            if err \<noteq> OK then reply_after C tx (Some (err, k))
            else map_option (Pair OK) (respond C tx (HR_get_enclave_status_reply status) k) }
        | HQ_metrics b \<Rightarrow> map_option (Pair OK) (respond C tx HR_metrics_reply k)
        | HQ_request_metrics \<Rightarrow> map_option (Pair OK) (respond C tx HR_metrics_reply k)
        | HQ_database_request aid req \<Rightarrow> HandleHostDatabaseRequest C tx aid req k
        | HQ_reconfigure req \<Rightarrow> reply_after C tx (HandleReconfigure C req k)
        | HQ_set_log_level l \<Rightarrow>
            if l \<ge> LOG_LEVEL_MAX then reply_after C tx (Some (E_Core Core_InvalidLogLevel, k))
            else reply_after C tx (Some (OK, k\<lparr>k_log_level := l\<rparr>))
        | HQ_relinquish_leadership \<Rightarrow> map_option (Pair OK) (HandleRelinquishLeadership C tx k)
        | HQ_request_removal \<Rightarrow> map_option (Pair OK) (HandleHostRequestedRaftRemoval C tx k)
        | HQ_hashes \<Rightarrow> do {
            (err, k) \<leftarrow> HandleHostHashes C tx k;
            if err \<noteq> OK then reply_after C tx (Some (err, k)) else Some (OK, k) }
        | HQ_reset_peer_id pid \<Rightarrow>
            (case PeerID_FromString pid of Inl err \<Rightarrow> Some (err, k) | Inr p \<Rightarrow> reply_after C tx (Core_ResetPeer C p k))
        | HQ_update_minimums update \<Rightarrow> map_option (Pair OK) (HandleUpdateMinimums C tx update k)
        | HQ_NOT_SET \<Rightarrow> Some (General_Unimplemented, k))"

definition Core_Receive ::
  "('dh, 'hs, 'cs) core_env \<Rightarrow> untrusted_message \<Rightarrow> ('dh, 'hs, 'cs) core \<Rightarrow> (error \<times> ('dh, 'hs, 'cs) core) option" where
  "Core_Receive C msg k =
     (case msg of
        UM_h2e_request req \<Rightarrow> HandleHostToEnclave C req k
      | UM_timer_tick secs \<Rightarrow> map_option (Pair OK) (HandleTimerTick C secs k)
      | UM_reset_peer pid \<Rightarrow> (case PeerID_FromString pid of Inl err \<Rightarrow> Some (err, k) | Inr p \<Rightarrow> Core_ResetPeer C p k)
      | UM_peer_message m \<Rightarrow> HandlePeerMessage C m k
      | UM_NOT_SET \<Rightarrow> Some (General_Unimplemented, k))"

subsection \<open>Construction\<close>

definition Core_new :: "('dh, 'hs, 'cs) core_env \<Rightarrow> raft_group_config \<Rightarrow> ('dh, 'hs, 'cs) core option" where
  "Core_new C group_config = do {
     p \<leftarrow> DB_P (gc_db_version group_config);
     t \<leftarrow> Tree_init (ce_H C);
     Some \<lparr>k_config = \<lparr>ec_raft = \<lparr>cfg_election_ticks = 0, cfg_heartbeat_ticks = 0, cfg_replication_chunk_bytes = 0,
              cfg_replica_voting_timeout_ticks = 0, cfg_replica_membership_timeout_ticks = 0, cfg_log_max_bytes = 0, cfg_replication_pipeline = 0\<rparr>,
              ec_e2e_txn_timeout_ticks = 0, ec_send_timestamp_ticks = 0\<rparr>,
           k_template = group_config, k_minimums = [], k_peers = PeerManager_new, k_clients = ClientManager_new None 1, k_tree = t,
           k_state = RAFTSTATE_NO_STATE, k_waiting = no_waiting, k_loading = no_loading, k_loaded = no_loaded,
           k_db_version = gc_db_version group_config, k_protocol = p, k_clock = Clock_new, k_timeout = Timeout_new, k_log_txns = [],
           k_e2e_txn_id = 0, k_e2e_txns = [], k_pushes = [], k_log_level = 0, k_draws = 0, k_sent = []\<rparr> }"

definition Core_Init ::
  "('dh, 'hs, 'cs) core_env \<Rightarrow> enclave_config \<Rightarrow> nat \<Rightarrow> ('dh, 'hs, 'cs) core \<Rightarrow> (error \<times> ('dh, 'hs, 'cs) core) option" where
  "Core_Init C config initial_timestamp k =
     (if ValidateConfig config \<noteq> OK then Some (ValidateConfig config, k)
      else
        let (seed, k) = draw k in
        case NewDHState (ce_noise C) seed of
          None \<Rightarrow> Some (E_Core Core_InitClientDHState, k)
        | Some client_dh \<Rightarrow>
            let (seed, k) = draw k; (m, err) = PeerManager_Init (ce_noise C) (ce_host C) seed PeerManager_new in
            if err \<noteq> OK then Some (err, k)
            else do {
              let k = k\<lparr>k_config := config, k_peers := m, k_clients := ClientManager_new (Some client_dh) 1,
                        k_clock := SetLocalTime (k_clock k) (int initial_timestamp)\<rparr>;
              k \<leftarrow> set_attestation_time C (int initial_timestamp) k;
              k \<leftarrow> SendTimestampToAll C k;
              Some (OK, k) })"

definition Core_Create ::
  "('dh, 'hs, 'cs) core_env \<Rightarrow> init_config \<Rightarrow> (error \<times> ('dh, 'hs, 'cs) core option) option" where
  "Core_Create C provided_config =
     (let config = EnclaveConfig_MergeFrom DefaultEnclaveConfig (ic_enclave_config provided_config) in
      if ValidateConfig config \<noteq> OK then Some (ValidateConfig config, None)
      else if ValidateRaftGroupConfig (ic_group_config provided_config) \<noteq> OK
      then Some (ValidateRaftGroupConfig (ic_group_config provided_config), None)
      else do {
        k \<leftarrow> Core_new C (ic_group_config provided_config);
        (err, k) \<leftarrow> Core_Init C config (ic_initial_timestamp_unix_secs provided_config) k;
        Some (if err \<noteq> OK then (err, None) else (OK, Some k)) })"

end
