(* ===== verification/Spec2Isabelle.thy ===== *)
theory Spec2Isabelle
  imports RaftProps DatabaseSpec Queue PeersProps CoreHost
begin

text \<open>
  Verification of the enclave of SecureValueRecovery2 (src/enclave).

  The program keeps user secrets in a database replicated by Raft.  Each replica has a Raft log
  (raft/log.cc), a Raft state machine (raft/raft.cc, raft/membership.cc), a database of rows
  (db/db2.cc, db/db3.cc) whose integrity an in-memory Merkle tree guards (merkle/merkle.cc), and
  helpers (util, peerid).  The theories follow these parts:

  \<^item> Prelude: bytes, error codes (shared/proto/error.proto), 64-bit arithmetic on naturals with
    wrap-around.
  \<^item> OrdMap: \<^verbatim>\<open>std::map\<close> and \<^verbatim>\<open>std::set\<close> as strictly ascending lists, behind the locale \<open>ordered_map\<close>.
  \<^item> Util, PeerID: util/constant.h, endian.h, bytes.h, hex.cc, base64.cc and peerid/peerid.cc.
  \<^item> Membership, Quorum: raft/membership.cc and \<^verbatim>\<open>Raft::quorum_size\<close>, with the locale \<open>quorum_system\<close>.
  \<^item> RaftLog: raft/log.cc.
\<close>

end
